theory Spec2Isabelle
  imports Main "HOL-Library.Word" "HOL-Library.Signed_Division" "HOL-Library.Log_Nat"
begin

section \<open>Machine integers of the C sources\<close>

text \<open>
  The sources compute on \<open>int\<close> (32 bits, also the element type of an R integer vector)
  and on \<open>int64_t\<close>. Both are two's complement words here: \<open>+\<close>, \<open>-\<close> and \<open>*\<close> wrap,
  \<open>sint\<close> reads the signed value, \<open>scast\<close> is the sign-extending conversion of
  \<open>int64_t elt = x_elt\<close>. The relational operators of the sources are the signed ones.
\<close>

type_synonym int32 = "32 word"
type_synonym int64 = "64 word"

text \<open>\<open>NA_INTEGER\<close> of R is \<open>INT_MIN\<close>.\<close>

definition NA_INTEGER :: int32 where
  "NA_INTEGER = word_of_int (- (2 ^ 31))"

text \<open>
  The operator \<open>/\<close> of C on signed operands truncates towards zero. The quotient is
  stored back into a word of the operand width.
\<close>

definition c_div32 :: "int32 \<Rightarrow> int32 \<Rightarrow> int32" where
  "c_div32 a b = word_of_int (sint a sdiv sint b)"

definition c_div64 :: "int64 \<Rightarrow> int64 \<Rightarrow> int64" where
  "c_div64 a b = word_of_int (sint a sdiv sint b)"

text \<open>The operator \<open>%\<close> of C takes the sign of the dividend.\<close>

definition c_mod32 :: "int32 \<Rightarrow> int32 \<Rightarrow> int32" where
  "c_mod32 a b = word_of_int (sint a smod sint b)"

text \<open>
  Modelled from the spec: \<open>int_div\<close> of \<open>divmod.h\<close>, which is not among the sources at
  hand. Section 4.1 of the specification gives the division primitive as the quotient
  \<open>q\<close> with \<open>a = q * b + r\<close> and \<open>0 \<le> r < b\<close>: the floored quotient.
\<close>

definition int_div :: "int32 \<Rightarrow> int32 \<Rightarrow> int32" where
  "int_div a b = word_of_int (sint a div sint b)"

section \<open>Doubles\<close>

text \<open>
  A finite IEEE-754 binary64 value is \<open>Finite m e\<close>, standing for \<open>m * 2 ^ e\<close>, in the
  layout of the format: \<open>\<bar>m\<bar> < 2 ^ 53\<close>, \<open>- 1074 \<le> e \<le> 971\<close>, and \<open>2 ^ 52 \<le> \<bar>m\<bar>\<close> unless
  \<open>e = - 1074\<close>. \<open>NA_REAL\<close> is R's missing value, a NaN with a payload of its own; the
  sign of zero is not represented.
\<close>

datatype double = Finite int int | PosInf | NegInf | NaN | NA_REAL

text \<open>
  Rounding of the exact dyadic number \<open>m * 2 ^ e\<close> to the nearest double, ties to even:
  the rounding every arithmetic operation and every conversion of an integer applies.
\<close>

definition round_half_even :: "int \<Rightarrow> nat \<Rightarrow> int" where
  "round_half_even m k =
     (let d = m div 2 ^ k;
          r = m mod 2 ^ k;
          h = 2 ^ (k - 1)
      in if h < r \<or> (r = h \<and> odd d) then d + 1 else d)"

text \<open>
  The significand \<open>q\<close> at the exponent \<open>e1\<close>, after the rounding: a carry into the next
  binade, the overflow to an infinity, the zero.
\<close>

definition pack_double :: "bool \<Rightarrow> int \<Rightarrow> int \<Rightarrow> double" where
  "pack_double positive q e1 =
     (let q2 = (if \<bar>q\<bar> = 2 ^ 53 then q div 2 else q);
          e2 = (if \<bar>q\<bar> = 2 ^ 53 then e1 + 1 else e1)
      in if 971 < e2 then (if positive then PosInf else NegInf)
         else if q2 = 0 then Finite 0 (- 1074)
         else Finite q2 e2)"

definition round_to_double :: "int \<Rightarrow> int \<Rightarrow> double" where
  "round_to_double m e =
     (if m = 0 then Finite 0 (- 1074)
      else
        let e1 = max (e + bitlen \<bar>m\<bar> - 53) (- 1074)
        in pack_double (0 < m)
             (if e1 \<le> e then m * 2 ^ nat (e - e1) else round_half_even m (nat (e1 - e)))
             e1)"

text \<open>The conversions \<open>p_out[i] = elt\<close> from \<open>int\<close> and from \<open>int64_t\<close>.\<close>

definition double_of_int :: "int \<Rightarrow> double" where
  "double_of_int n = round_to_double n 0"

definition double_of_int32 :: "int32 \<Rightarrow> double" where
  "double_of_int32 w = double_of_int (sint w)"

definition double_of_int64 :: "int64 \<Rightarrow> double" where
  "double_of_int64 w = double_of_int (sint w)"

text \<open>\<open>R_FINITE\<close>: neither a NaN, nor \<open>NA\<close>, nor an infinity.\<close>

fun R_FINITE :: "double \<Rightarrow> bool" where
  "R_FINITE (Finite m e) = True"
| "R_FINITE x = False"

text \<open>
  Addition and multiplication: the exact result, rounded. An operation on a NaN (R's
  \<open>NA\<close> is one) gives a NaN; which payload survives is left to the platform by R, and
  the model gives the plain \<open>NaN\<close>.
\<close>

fun dadd :: "double \<Rightarrow> double \<Rightarrow> double" where
  "dadd (Finite m1 e1) (Finite m2 e2) =
     (let e = min e1 e2
      in round_to_double (m1 * 2 ^ nat (e1 - e) + m2 * 2 ^ nat (e2 - e)) e)"
| "dadd (Finite m e) PosInf = PosInf"
| "dadd (Finite m e) NegInf = NegInf"
| "dadd PosInf (Finite m e) = PosInf"
| "dadd PosInf PosInf = PosInf"
| "dadd NegInf (Finite m e) = NegInf"
| "dadd NegInf NegInf = NegInf"
| "dadd x y = NaN"

fun dneg :: "double \<Rightarrow> double" where
  "dneg (Finite m e) = Finite (- m) e"
| "dneg PosInf = NegInf"
| "dneg NegInf = PosInf"
| "dneg x = NaN"

definition dsub :: "double \<Rightarrow> double \<Rightarrow> double" where
  "dsub x y = dadd x (dneg y)"

fun dmul :: "double \<Rightarrow> double \<Rightarrow> double" where
  "dmul (Finite m1 e1) (Finite m2 e2) = round_to_double (m1 * m2) (e1 + e2)"
| "dmul (Finite m e) PosInf = (if m = 0 then NaN else if 0 < m then PosInf else NegInf)"
| "dmul (Finite m e) NegInf = (if m = 0 then NaN else if 0 < m then NegInf else PosInf)"
| "dmul PosInf (Finite m e) = (if m = 0 then NaN else if 0 < m then PosInf else NegInf)"
| "dmul NegInf (Finite m e) = (if m = 0 then NaN else if 0 < m then NegInf else PosInf)"
| "dmul PosInf PosInf = PosInf"
| "dmul PosInf NegInf = NegInf"
| "dmul NegInf PosInf = NegInf"
| "dmul NegInf NegInf = PosInf"
| "dmul x y = NaN"

text \<open>\<open>trunc\<close> and \<open>floor\<close> of \<open>math.h\<close>: the results are integers, hence exact.\<close>

fun c_trunc :: "double \<Rightarrow> double" where
  "c_trunc (Finite m e) =
     (if 0 \<le> e then Finite m e else double_of_int (m sdiv 2 ^ nat (- e)))"
| "c_trunc x = x"

fun c_floor :: "double \<Rightarrow> double" where
  "c_floor (Finite m e) =
     (if 0 \<le> e then Finite m e else double_of_int (m div 2 ^ nat (- e)))"
| "c_floor x = x"

text \<open>
  The conversions \<open>(int) x\<close> and \<open>(int64_t) x\<close> discard the fractional part. C leaves
  the conversion undefined when the integral part does not fit or \<open>x\<close> is not finite;
  the model takes what the conversion instruction of x86-64 stores there, the most
  negative integer of the width.
\<close>

fun integral_part :: "double \<Rightarrow> int option" where
  "integral_part (Finite m e) =
     Some (if 0 \<le> e then m * 2 ^ nat e else m sdiv 2 ^ nat (- e))"
| "integral_part x = None"

definition int32_of_double :: "double \<Rightarrow> int32" where
  "int32_of_double x =
     (case integral_part x of
        None \<Rightarrow> word_of_int (- (2 ^ 31))
      | Some n \<Rightarrow> if - (2 ^ 31) \<le> n \<and> n < 2 ^ 31 then word_of_int n
                  else word_of_int (- (2 ^ 31)))"

definition int64_of_double :: "double \<Rightarrow> int64" where
  "int64_of_double x =
     (case integral_part x of
        None \<Rightarrow> word_of_int (- (2 ^ 63))
      | Some n \<Rightarrow> if - (2 ^ 63) \<le> n \<and> n < 2 ^ 63 then word_of_int n
                  else word_of_int (- (2 ^ 63)))"

text \<open>The comparisons \<open>x == y\<close> and \<open>x < 0\<close>: false as soon as an operand is a NaN.\<close>

fun dbl_eq :: "double \<Rightarrow> double \<Rightarrow> bool" where
  "dbl_eq (Finite m1 e1) (Finite m2 e2) = (m1 = m2 \<and> e1 = e2)"
| "dbl_eq PosInf PosInf = True"
| "dbl_eq NegInf NegInf = True"
| "dbl_eq x y = False"

fun dbl_neg :: "double \<Rightarrow> bool" where
  "dbl_neg (Finite m e) = (m < 0)"
| "dbl_neg NegInf = True"
| "dbl_neg x = False"

text \<open>
  A decimal constant of the source is the double nearest to it. \<open>double_of_ratio p q\<close>
  rounds \<open>p / q\<close> (\<open>0 < q\<close>): the quotient is taken to at least 55 bits, a last bit
  records whether anything was cut off, and the whole is rounded once.
\<close>

definition double_of_ratio :: "int \<Rightarrow> int \<Rightarrow> double" where
  "double_of_ratio p q =
     (let k = nat (56 + bitlen q - bitlen \<bar>p\<bar>);
          n = p * 2 ^ k;
          d = n div q;
          m = 2 * d + (if n mod q = 0 then 0 else 1)
      in round_to_double m (- int k - 1))"

definition dbl_1e6 :: double where "dbl_1e6 = double_of_int 1000000"
definition dbl_1e3 :: double where "dbl_1e3 = double_of_int 1000"
definition dbl_1em6 :: double where "dbl_1em6 = double_of_ratio 1 1000000"
definition dbl_1em7 :: double where "dbl_1em7 = double_of_ratio 1 10000000"

section \<open>distance.c: the guarded conversions\<close>

definition guarded_floor :: "double \<Rightarrow> int64" where
  "guarded_floor x0 =
     (let x1 = dmul x0 dbl_1e6;
          x2 = c_trunc x1;
          x3 = dmul x2 dbl_1em6;
          x4 = dadd x3 dbl_1em7;
          x5 = c_floor x4
      in int64_of_double x5)"

definition guarded_floor_to_millisecond :: "double \<Rightarrow> int64" where
  "guarded_floor_to_millisecond x0 =
     (let x1 = dmul x0 dbl_1e6;
          x2 = c_trunc x1;
          x3 = dmul x2 dbl_1em6;
          x4 = dadd x3 dbl_1em7;
          x5 = dmul x4 dbl_1e3;
          x6 = c_floor x5
      in int64_of_double x6)"

section \<open>ranges.c\<close>

text \<open>
  \<open>compute_starts\<close>: the vector of the stops is a \<open>REALSXP\<close>; the loop writes
  \<open>p_out[i] = p_x[i - 1] + 1\<close> for \<open>1 \<le> i < size\<close> (\<open>sz\<close> below), each slot once.
\<close>

definition compute_starts :: "double list \<Rightarrow> nat \<Rightarrow> double list" where
  "compute_starts p_x sz =
     (if sz = 0 then []
      else if sz = 1 then [double_of_int 1]
      else double_of_int 1 #
             map (\<lambda>i. dadd (p_x ! (i - 1)) (double_of_int 1)) [1..<sz])"

text \<open>
  The data frame of \<open>new_ranges_df\<close>, with its two columns set by \<open>warp_ranges\<close>.
\<close>

record ranges_df =
  start :: "double list"
  stop :: "double list"

text \<open>
  \<open>warp_ranges\<close>. \<open>warp_changes\<close> is not among the sources at hand: it is a parameter,
  and so is the type of the input it reads.
\<close>

definition warp_ranges :: "('x \<Rightarrow> double list) \<Rightarrow> 'x \<Rightarrow> ranges_df" where
  "warp_ranges warp_changes x =
     (let stops = warp_changes x;
          sz = length stops
      in \<lparr>start = compute_starts stops sz, stop = stops\<rparr>)"

section \<open>R values and the helpers of utils.h\<close>

text \<open>
  An R value, as far as the sources look into it: its attributes (names to character
  vectors: the class, the time zone), and the payload by \<open>TYPEOF\<close>. A \<open>POSIXlt\<close> is a
  \<open>VECSXP\<close> of its fields.
\<close>

type_synonym attrib = "(string \<times> string list) list"

datatype sexp =
    R_NilValue
  | INTSXP attrib "int32 list"
  | REALSXP attrib "double list"
  | VECSXP attrib "sexp list"
  | STRSXP attrib "string list"

fun Rf_length :: "sexp \<Rightarrow> nat" where
  "Rf_length R_NilValue = 0"
| "Rf_length (INTSXP a xs) = length xs"
| "Rf_length (REALSXP a xs) = length xs"
| "Rf_length (VECSXP a xs) = length xs"
| "Rf_length (STRSXP a xs) = length xs"

text \<open>
  \<open>INTEGER\<close> and \<open>REAL\<close> give the payload. The sources apply them to vectors of the
  right type only; on another value the model reads an empty payload.
\<close>

fun INTEGER :: "sexp \<Rightarrow> int32 list" where
  "INTEGER (INTSXP a xs) = xs"
| "INTEGER x = []"

fun REAL :: "sexp \<Rightarrow> double list" where
  "REAL (REALSXP a xs) = xs"
| "REAL x = []"

datatype warp_class_type =
  warp_class_date | warp_class_posixct | warp_class_posixlt | warp_class_unknown

datatype warp_period_type =
    warp_period_year | warp_period_quarter | warp_period_month | warp_period_week
  | warp_period_yweek | warp_period_day | warp_period_yday | warp_period_hour
  | warp_period_minute | warp_period_second | warp_period_millisecond

text \<open>
  The structs \<open>warp_components\<close> and \<open>warp_yday_components\<close>; the fields carry a
  prefix, their names being those of variables of the sources.
\<close>

record warp_components =
  wc_year_offset :: int32
  wc_month :: int32
  wc_day :: int32
  wc_yday :: int32

record warp_yday_components =
  yc_year_offset :: int32
  yc_yday :: int32

text \<open>
  The functions that distance.c calls and that \<open>utils.h\<close> declares are not among the
  sources at hand: they are the fields of a parameter.
\<close>

record utils =
  time_class_type :: "sexp \<Rightarrow> warp_class_type"
  get_origin_epoch_in_time_zone :: "sexp \<Rightarrow> sexp"
  convert_time_zone :: "sexp \<Rightarrow> sexp \<Rightarrow> sexp"
  get_year_offset :: "sexp \<Rightarrow> sexp"
  get_month_offset :: "sexp \<Rightarrow> sexp"
  get_day_offset :: "sexp \<Rightarrow> sexp"
  as_posixlt_from_posixct :: "sexp \<Rightarrow> sexp"
  as_datetime :: "sexp \<Rightarrow> sexp"
  as_date :: "sexp \<Rightarrow> sexp"
  get_origin_yday_components :: "sexp \<Rightarrow> warp_yday_components"
  convert_days_to_components :: "int32 \<Rightarrow> warp_components"

text \<open>\<open>r_error\<close>: the function that raises, and what it complains about.\<close>

datatype error = R_error string string

section \<open>distance.c: validation and the origin\<close>

definition validate_every :: "int32 \<Rightarrow> error + unit" where
  "validate_every every =
     (if every = NA_INTEGER
      then Inl (R_error ''validate_every'' ''`every` must not be `NA`'')
      else if every \<le>s 0
      then Inl (R_error ''validate_every'' ''`every` must be an integer greater than 0'')
      else Inr ())"

definition validate_origin :: "utils \<Rightarrow> sexp \<Rightarrow> error + unit" where
  "validate_origin U origin =
     (if origin = R_NilValue then Inr ()
      else if Rf_length origin \<noteq> 1
      then Inl (R_error ''validate_origin'' ''`origin` must have size 1'')
      else if time_class_type U origin = warp_class_unknown
      then Inl (R_error ''validate_origin''
                  ''`origin` must inherit from Date, POSIXct, or POSIXlt'')
      else Inr ())"

text \<open>
  \<open>origin_to_days_from_epoch\<close> and its two siblings read \<open>REAL(origin)[0]\<close> and compare
  it with \<open>NA_REAL\<close> by \<open>==\<close>.
\<close>

definition origin_to_days_from_epoch :: "utils \<Rightarrow> sexp \<Rightarrow> error + int32" where
  "origin_to_days_from_epoch U origin =
     (let out = REAL (as_date U origin) ! 0
      in if dbl_eq out NA_REAL
         then Inl (R_error ''origin_to_days_from_epoch'' ''`origin` must not be `NA`'')
         else Inr (int32_of_double out))"

definition origin_to_seconds_from_epoch :: "utils \<Rightarrow> sexp \<Rightarrow> error + int64" where
  "origin_to_seconds_from_epoch U origin =
     (let origin_value = REAL (as_datetime U origin) ! 0
      in if dbl_eq origin_value NA_REAL
         then Inl (R_error ''origin_to_seconds_from_epoch'' ''`origin` must not be `NA`'')
         else Inr (guarded_floor origin_value))"

definition origin_to_milliseconds_from_epoch :: "utils \<Rightarrow> sexp \<Rightarrow> error + int64" where
  "origin_to_milliseconds_from_epoch U origin =
     (let origin_value = REAL (as_datetime U origin) ! 0
      in if dbl_eq origin_value NA_REAL
         then Inl (R_error ''origin_to_milliseconds_from_epoch''
                     ''`origin` must not be `NA`'')
         else Inr (guarded_floor_to_millisecond origin_value))"

text \<open>
  The prologue shared by the loops: no offset when \<open>origin\<close> is \<open>R_NilValue\<close>
  (\<open>needs_offset\<close> is false), else the offset or the error of its conversion.
\<close>

definition offset_of_origin :: "(sexp \<Rightarrow> error + 'a) \<Rightarrow> sexp \<Rightarrow> error + 'a option" where
  "offset_of_origin conv origin =
     (if origin = R_NilValue then Inr None
      else case conv origin of Inl err \<Rightarrow> Inl err | Inr off \<Rightarrow> Inr (Some off))"

text \<open>
  The prologue of \<open>warp_distance_year\<close>, \<open>_month\<close> and \<open>_day\<close>: the offset of the
  origin is element 0 of what the getter returns, and \<open>NA_INTEGER\<close> there is an error.
\<close>

definition origin_offset_int :: "string \<Rightarrow> (sexp \<Rightarrow> sexp) \<Rightarrow> sexp \<Rightarrow> error + int32" where
  "origin_offset_int fn getter origin =
     (let origin_offset = INTEGER (getter origin) ! 0
      in if origin_offset = NA_INTEGER then Inl (R_error fn ''`origin` cannot be `NA`'')
         else Inr origin_offset)"

section \<open>distance.c: the bodies of the loops\<close>

text \<open>
  Every loop of distance.c ends on the same statements,
  \<^verbatim>\<open>if (elt < 0) elt = (elt - (every - 1)) / every; else elt = elt / every;\<close>
  on an \<open>int\<close> or on an \<open>int64_t\<close> element; \<open>every\<close> is an \<open>int\<close>, so that \<open>every - 1\<close> is
  computed in 32 bits before it is widened. The loops on seconds divide in the same
  manner by the constant number of seconds in the unit first.
\<close>

definition floor_every32 :: "int32 \<Rightarrow> int32 \<Rightarrow> int32" where
  "floor_every32 every elt =
     (if elt <s 0 then c_div32 (elt - (every - 1)) every else c_div32 elt every)"

definition floor_every64 :: "int32 \<Rightarrow> int64 \<Rightarrow> int64" where
  "floor_every64 every elt =
     (if elt <s 0 then c_div64 (elt - scast (every - 1)) (scast every)
      else c_div64 elt (scast every))"

definition floor_unit64 :: "int64 \<Rightarrow> int64 \<Rightarrow> int64" where
  "floor_unit64 unit elt =
     (if elt <s 0 then c_div64 (elt - (unit - 1)) unit else c_div64 elt unit)"

text \<open>
  The statements after the scaling: \<open>p_out[i] = elt\<close> when \<open>every\<close> is 1
  (\<open>needs_every\<close> is false), the floored quotient else.
\<close>

definition emit32 :: "int32 \<Rightarrow> int32 \<Rightarrow> double" where
  "emit32 every elt =
     (if every = 1 then double_of_int32 elt else double_of_int32 (floor_every32 every elt))"

definition emit64 :: "int32 \<Rightarrow> int64 \<Rightarrow> double" where
  "emit64 every elt =
     (if every = 1 then double_of_int64 elt else double_of_int64 (floor_every64 every elt))"

text \<open>\<open>if (needs_offset) elt -= origin_offset;\<close>\<close>

definition sub_offset :: "'a::len word option \<Rightarrow> 'a word \<Rightarrow> 'a word" where
  "sub_offset origin_offset elt =
     (case origin_offset of None \<Rightarrow> elt | Some off \<Rightarrow> elt - off)"

text \<open>The body of \<open>warp_distance_year\<close>, \<open>warp_distance_month\<close> and \<open>warp_distance_day\<close>.\<close>

definition warp_distance_offset_elt :: "int32 option \<Rightarrow> int32 \<Rightarrow> int32 \<Rightarrow> double" where
  "warp_distance_offset_elt origin_offset every elt =
     (if elt = NA_INTEGER then NA_REAL
      else emit32 every (sub_offset origin_offset elt))"

text \<open>
  \<open>int_date_warp_distance_hour\<close> and \<open>_minute\<close>: the element stays an \<open>int\<close> while it
  is multiplied by \<open>HOURS_IN_DAY\<close> or \<open>MINUTES_IN_DAY\<close>.
\<close>

definition int_date_scaled32 :: "int32 \<Rightarrow> int32 option \<Rightarrow> int32 \<Rightarrow> int32 \<Rightarrow> double" where
  "int_date_scaled32 units_in_day origin_offset every elt =
     (if elt = NA_INTEGER then NA_REAL
      else emit32 every (sub_offset origin_offset elt * units_in_day))"

text \<open>\<open>dbl_date_warp_distance_hour\<close> and \<open>_minute\<close>: \<open>int elt = x_elt\<close>.\<close>

definition dbl_date_scaled32 :: "int32 \<Rightarrow> int32 option \<Rightarrow> int32 \<Rightarrow> double \<Rightarrow> double" where
  "dbl_date_scaled32 units_in_day origin_offset every x_elt =
     (if \<not> R_FINITE x_elt then NA_REAL
      else emit32 every (sub_offset origin_offset (int32_of_double x_elt) * units_in_day))"

text \<open>
  \<open>int_date_warp_distance_second\<close> and \<open>_millisecond\<close>: \<open>int64_t elt = x_elt\<close> comes
  before the subtraction and the multiplication.
\<close>

definition int_date_scaled64 :: "int64 \<Rightarrow> int32 option \<Rightarrow> int32 \<Rightarrow> int32 \<Rightarrow> double" where
  "int_date_scaled64 units_in_day origin_offset every x_elt =
     (if x_elt = NA_INTEGER then NA_REAL
      else emit64 every
             (sub_offset (map_option scast origin_offset) (scast x_elt) * units_in_day))"

definition dbl_date_scaled64 :: "int64 \<Rightarrow> int32 option \<Rightarrow> int32 \<Rightarrow> double \<Rightarrow> double" where
  "dbl_date_scaled64 units_in_day origin_offset every x_elt =
     (if \<not> R_FINITE x_elt then NA_REAL
      else emit64 every
             (sub_offset (map_option scast origin_offset) (int64_of_double x_elt)
                * units_in_day))"

text \<open>\<open>int_posixct_warp_distance_hour\<close> and \<open>_minute\<close>, and their siblings on doubles.\<close>

definition int_posixct_unit64 :: "int64 \<Rightarrow> int64 option \<Rightarrow> int32 \<Rightarrow> int32 \<Rightarrow> double" where
  "int_posixct_unit64 seconds_in_unit origin_offset every x_elt =
     (if x_elt = NA_INTEGER then NA_REAL
      else emit64 every (floor_unit64 seconds_in_unit (sub_offset origin_offset (scast x_elt))))"

definition dbl_posixct_unit64 :: "int64 \<Rightarrow> int64 option \<Rightarrow> int32 \<Rightarrow> double \<Rightarrow> double" where
  "dbl_posixct_unit64 seconds_in_unit origin_offset every x_elt =
     (if \<not> R_FINITE x_elt then NA_REAL
      else emit64 every
             (floor_unit64 seconds_in_unit (sub_offset origin_offset (guarded_floor x_elt))))"

text \<open>\<open>int_posixct_warp_distance_second\<close> and \<open>dbl_posixct_warp_distance_second\<close>.\<close>

definition int_posixct_second_elt :: "int64 option \<Rightarrow> int32 \<Rightarrow> int32 \<Rightarrow> double" where
  "int_posixct_second_elt origin_offset every x_elt =
     (if x_elt = NA_INTEGER then NA_REAL
      else emit64 every (sub_offset origin_offset (scast x_elt)))"

definition dbl_posixct_second_elt :: "int64 option \<Rightarrow> int32 \<Rightarrow> double \<Rightarrow> double" where
  "dbl_posixct_second_elt origin_offset every x_elt =
     (if \<not> R_FINITE x_elt then NA_REAL
      else emit64 every (sub_offset origin_offset (guarded_floor x_elt)))"

text \<open>
  \<open>int_posixct_warp_distance_millisecond\<close>: \<open>int64_t elt = x_elt * MILLISECONDS_IN_SECOND\<close>
  multiplies two \<open>int\<close>s and widens the product.
\<close>

definition int_posixct_millisecond_elt :: "int64 option \<Rightarrow> int32 \<Rightarrow> int32 \<Rightarrow> double" where
  "int_posixct_millisecond_elt origin_offset every x_elt =
     (if x_elt = NA_INTEGER then NA_REAL
      else emit64 every (sub_offset origin_offset (scast (x_elt * 1000))))"

definition dbl_posixct_millisecond_elt :: "int64 option \<Rightarrow> int32 \<Rightarrow> double \<Rightarrow> double" where
  "dbl_posixct_millisecond_elt origin_offset every x_elt =
     (if \<not> R_FINITE x_elt then NA_REAL
      else emit64 every (sub_offset origin_offset (guarded_floor_to_millisecond x_elt)))"

section \<open>distance.c: year-day distances\<close>

text \<open>The macro \<open>is_leap_year\<close>.\<close>

definition is_leap_year :: "int32 \<Rightarrow> bool" where
  "is_leap_year year \<longleftrightarrow>
     (c_mod32 year 4 = 0 \<and> c_mod32 year 100 \<noteq> 0) \<or> c_mod32 year 400 = 0"

definition days_before_year :: "int32 \<Rightarrow> int32" where
  "days_before_year year_offset =
     (let year = year_offset + 1970 - 1;
          days = year * 365 + int_div year 4 - int_div year 100 + int_div year 400
      in days - 719162)"

definition leap_years_before_and_including_year :: "int32 \<Rightarrow> int32" where
  "leap_years_before_and_including_year year_offset =
     (let year = year_offset + 1970;
          n_leap_years = int_div year 4 - int_div year 100 + int_div year 400
      in n_leap_years - 477)"

definition yday_leap_adjustment :: "int32 \<Rightarrow> int32 \<Rightarrow> bool \<Rightarrow> int32" where
  "yday_leap_adjustment year_offset yday origin_leap =
     (if yday <s 58 then 0
      else
        let year = year_offset + 1970;
            year_is_leap = is_leap_year year
        in if origin_leap then (if year_is_leap then 0 else - 1)
           else (if year_is_leap then 1 else 0))"

definition compute_yday_distance ::
  "int32 \<Rightarrow> int32 \<Rightarrow> int32 \<Rightarrow> int32 \<Rightarrow> int32 \<Rightarrow> bool \<Rightarrow> int32 \<Rightarrow> int32 \<Rightarrow> int32 \<Rightarrow> int32"
where
  "compute_yday_distance days_since_epoch year_offset yday origin_year_offset origin_yday
       origin_leap units_in_leap_year units_in_non_leap_year every =
     (let origin_yday_adjusted =
            origin_yday + yday_leap_adjustment year_offset yday origin_leap;
          last_origin_year_offset =
            (if yday <s origin_yday_adjusted then year_offset - 1 else year_offset);
          last_origin =
            days_before_year last_origin_year_offset + origin_yday
              + yday_leap_adjustment last_origin_year_offset origin_yday origin_leap;
          days_since_last_origin = days_since_epoch - last_origin;
          units_in_year = int_div days_since_last_origin every;
          years_between_origins = last_origin_year_offset - origin_year_offset;
          leap_years_between_origins =
            leap_years_before_and_including_year last_origin_year_offset
              - leap_years_before_and_including_year origin_year_offset;
          non_leap_years_between_origins =
            years_between_origins - leap_years_between_origins;
          units_between_origins =
            units_in_leap_year * leap_years_between_origins
              + units_in_non_leap_year * non_leap_years_between_origins
      in units_between_origins + units_in_year)"

text \<open>
  What the three year-day loops compute before they start: the units per year from
  \<open>DAYS_IN_YEAR\<close> and \<open>DAYS_IN_LEAP_YEAR\<close>, and the components of the origin.
\<close>

record yday_setup =
  s_units_in_non_leap_year :: int32
  s_units_in_leap_year :: int32
  s_origin_year_offset :: int32
  s_origin_yday :: int32
  s_origin_leap :: bool

definition yday_prologue :: "utils \<Rightarrow> int32 \<Rightarrow> sexp \<Rightarrow> yday_setup" where
  "yday_prologue U every origin =
     (let origin_components = get_origin_yday_components U origin
      in \<lparr>s_units_in_non_leap_year = c_div32 (365 - 1) every + 1,
          s_units_in_leap_year = c_div32 (366 - 1) every + 1,
          s_origin_year_offset = yc_year_offset origin_components,
          s_origin_yday = yc_yday origin_components,
          s_origin_leap = is_leap_year (yc_year_offset origin_components + 1970)\<rparr>)"

definition yday_distance_of :: "yday_setup \<Rightarrow> int32 \<Rightarrow> int32 \<Rightarrow> int32 \<Rightarrow> int32 \<Rightarrow> double" where
  "yday_distance_of S every days_since_epoch yo yd =
     double_of_int32
       (compute_yday_distance days_since_epoch yo yd (s_origin_year_offset S)
          (s_origin_yday S) (s_origin_leap S) (s_units_in_leap_year S)
          (s_units_in_non_leap_year S) every)"

text \<open>The bodies of the loops of the three year-day functions.\<close>

definition posixlt_yday_elt :: "yday_setup \<Rightarrow> int32 \<Rightarrow> int32 \<Rightarrow> int32 \<Rightarrow> double" where
  "posixlt_yday_elt S every p_year_i p_yday_i =
     (if p_year_i = NA_INTEGER then NA_REAL
      else
        let yo = p_year_i - 70;
            days_since_epoch = days_before_year yo + p_yday_i
        in yday_distance_of S every days_since_epoch yo p_yday_i)"

definition int_date_yday_elt :: "utils \<Rightarrow> yday_setup \<Rightarrow> int32 \<Rightarrow> int32 \<Rightarrow> double" where
  "int_date_yday_elt U S every elt =
     (if elt = NA_INTEGER then NA_REAL
      else
        let components = convert_days_to_components U elt
        in yday_distance_of S every elt (wc_year_offset components) (wc_yday components))"

definition dbl_date_yday_elt :: "utils \<Rightarrow> yday_setup \<Rightarrow> int32 \<Rightarrow> double \<Rightarrow> double" where
  "dbl_date_yday_elt U S every x_elt =
     (if \<not> R_FINITE x_elt then NA_REAL
      else
        let elt = int32_of_double x_elt;
            components = convert_days_to_components U elt
        in yday_distance_of S every elt (wc_year_offset components) (wc_yday components))"

section \<open>distance.c: the functions\<close>

text \<open>
  A function that raises through \<open>r_error\<close> returns \<open>Inl\<close>; \<open>then_do\<close> passes a first
  error on, as the non-local exit of \<open>r_error\<close> does.
\<close>

definition then_do :: "error + 'a \<Rightarrow> ('a \<Rightarrow> error + 'b) \<Rightarrow> error + 'b" where
  "then_do r f = (case r of Inl err \<Rightarrow> Inl err | Inr v \<Rightarrow> f v)"

definition warp_distance_year :: "utils \<Rightarrow> sexp \<Rightarrow> int32 \<Rightarrow> sexp \<Rightarrow> error + double list" where
  "warp_distance_year U x every origin =
     then_do
       (offset_of_origin (origin_offset_int ''warp_distance_year'' (get_year_offset U)) origin)
       (\<lambda>origin_offset.
          Inr (map (warp_distance_offset_elt origin_offset every)
                 (INTEGER (get_year_offset U x))))"

definition warp_distance_month :: "utils \<Rightarrow> sexp \<Rightarrow> int32 \<Rightarrow> sexp \<Rightarrow> error + double list" where
  "warp_distance_month U x every origin =
     then_do
       (offset_of_origin (origin_offset_int ''warp_distance_month'' (get_month_offset U))
          origin)
       (\<lambda>origin_offset.
          Inr (map (warp_distance_offset_elt origin_offset every)
                 (INTEGER (get_month_offset U x))))"

definition warp_distance_quarter :: "utils \<Rightarrow> sexp \<Rightarrow> int32 \<Rightarrow> sexp \<Rightarrow> error + double list" where
  "warp_distance_quarter U x every origin = warp_distance_month U x (every * 3) origin"

definition warp_distance_day :: "utils \<Rightarrow> sexp \<Rightarrow> int32 \<Rightarrow> sexp \<Rightarrow> error + double list" where
  "warp_distance_day U x every origin =
     then_do
       (offset_of_origin (origin_offset_int ''warp_distance_day'' (get_day_offset U)) origin)
       (\<lambda>origin_offset.
          Inr (map (warp_distance_offset_elt origin_offset every)
                 (INTEGER (get_day_offset U x))))"

definition warp_distance_week :: "utils \<Rightarrow> sexp \<Rightarrow> int32 \<Rightarrow> sexp \<Rightarrow> error + double list" where
  "warp_distance_week U x every origin = warp_distance_day U x (every * 7) origin"

subsection \<open>Year-day\<close>

fun VECTOR_ELT :: "sexp \<Rightarrow> nat \<Rightarrow> sexp" where
  "VECTOR_ELT (VECSXP a xs) i = xs ! i"
| "VECTOR_ELT x i = R_NilValue"

fun is_INTSXP :: "sexp \<Rightarrow> bool" where
  "is_INTSXP (INTSXP a xs) = True"
| "is_INTSXP x = False"

definition posixlt_warp_distance_yday :: "utils \<Rightarrow> sexp \<Rightarrow> int32 \<Rightarrow> sexp \<Rightarrow> error + double list" where
  "posixlt_warp_distance_yday U x every origin =
     (let year = VECTOR_ELT x 5;
          yday = VECTOR_ELT x 7
      in if \<not> is_INTSXP year
         then Inl (R_error ''posixlt_warp_distance_yday''
                     ''Internal error: The 6th element of the POSIXlt object should be an integer.'')
         else if \<not> is_INTSXP yday
         then Inl (R_error ''posixlt_warp_distance_yday''
                     ''Internal error: The 8th element of the POSIXlt object should be an integer.'')
         else
           let S = yday_prologue U every origin
           in Inr (map (\<lambda>i. posixlt_yday_elt S every (INTEGER year ! i) (INTEGER yday ! i))
                     [0..<length (INTEGER year)]))"

definition int_date_warp_distance_yday :: "utils \<Rightarrow> sexp \<Rightarrow> int32 \<Rightarrow> sexp \<Rightarrow> error + double list" where
  "int_date_warp_distance_yday U x every origin =
     Inr (map (int_date_yday_elt U (yday_prologue U every origin) every) (INTEGER x))"

definition dbl_date_warp_distance_yday :: "utils \<Rightarrow> sexp \<Rightarrow> int32 \<Rightarrow> sexp \<Rightarrow> error + double list" where
  "dbl_date_warp_distance_yday U x every origin =
     Inr (map (dbl_date_yday_elt U (yday_prologue U every origin) every) (REAL x))"

text \<open>
  The switches on \<open>TYPEOF(x)\<close> and on \<open>time_class_type(x)\<close>, the same for every period
  below the day and for the year-day: \<open>by_storage\<close> and \<open>by_class\<close> take the branches.
\<close>

definition by_storage ::
  "string \<Rightarrow> (sexp \<Rightarrow> error + double list) \<Rightarrow> (sexp \<Rightarrow> error + double list) \<Rightarrow> sexp
     \<Rightarrow> error + double list"
where
  "by_storage fn on_int on_dbl x =
     (case x of
        INTSXP a xs \<Rightarrow> on_int x
      | REALSXP a xs \<Rightarrow> on_dbl x
      | _ \<Rightarrow> Inl (R_error fn ''Unknown type''))"

definition by_class ::
  "utils \<Rightarrow> string \<Rightarrow> (sexp \<Rightarrow> error + double list) \<Rightarrow> (sexp \<Rightarrow> error + double list)
     \<Rightarrow> (sexp \<Rightarrow> error + double list) \<Rightarrow> sexp \<Rightarrow> error + double list"
where
  "by_class U fn on_date on_posixct on_posixlt x =
     (case time_class_type U x of
        warp_class_date \<Rightarrow> on_date x
      | warp_class_posixct \<Rightarrow> on_posixct x
      | warp_class_posixlt \<Rightarrow> on_posixlt x
      | warp_class_unknown \<Rightarrow> Inl (R_error fn ''Unknown object''))"

definition date_warp_distance_yday :: "utils \<Rightarrow> sexp \<Rightarrow> int32 \<Rightarrow> sexp \<Rightarrow> error + double list" where
  "date_warp_distance_yday U x every origin =
     by_storage ''date_warp_distance_yday''
       (\<lambda>x. int_date_warp_distance_yday U x every origin)
       (\<lambda>x. dbl_date_warp_distance_yday U x every origin) x"

definition posixct_warp_distance_yday :: "utils \<Rightarrow> sexp \<Rightarrow> int32 \<Rightarrow> sexp \<Rightarrow> error + double list" where
  "posixct_warp_distance_yday U x every origin =
     posixlt_warp_distance_yday U (as_posixlt_from_posixct U x) every origin"

definition warp_distance_yday :: "utils \<Rightarrow> sexp \<Rightarrow> int32 \<Rightarrow> sexp \<Rightarrow> error + double list" where
  "warp_distance_yday U x every origin =
     by_class U ''warp_distance_yday''
       (\<lambda>x. date_warp_distance_yday U x every origin)
       (\<lambda>x. posixct_warp_distance_yday U x every origin)
       (\<lambda>x. posixlt_warp_distance_yday U x every origin) x"

definition warp_distance_yweek :: "utils \<Rightarrow> sexp \<Rightarrow> int32 \<Rightarrow> sexp \<Rightarrow> error + double list" where
  "warp_distance_yweek U x every origin = warp_distance_yday U x (every * 7) origin"

subsection \<open>Hours\<close>

definition int_date_warp_distance_hour :: "utils \<Rightarrow> sexp \<Rightarrow> int32 \<Rightarrow> sexp \<Rightarrow> error + double list" where
  "int_date_warp_distance_hour U x every origin =
     then_do (offset_of_origin (origin_to_days_from_epoch U) origin)
       (\<lambda>origin_offset. Inr (map (int_date_scaled32 24 origin_offset every) (INTEGER x)))"

definition dbl_date_warp_distance_hour :: "utils \<Rightarrow> sexp \<Rightarrow> int32 \<Rightarrow> sexp \<Rightarrow> error + double list" where
  "dbl_date_warp_distance_hour U x every origin =
     then_do (offset_of_origin (origin_to_days_from_epoch U) origin)
       (\<lambda>origin_offset. Inr (map (dbl_date_scaled32 24 origin_offset every) (REAL x)))"

definition int_posixct_warp_distance_hour :: "utils \<Rightarrow> sexp \<Rightarrow> int32 \<Rightarrow> sexp \<Rightarrow> error + double list" where
  "int_posixct_warp_distance_hour U x every origin =
     then_do (offset_of_origin (origin_to_seconds_from_epoch U) origin)
       (\<lambda>origin_offset. Inr (map (int_posixct_unit64 3600 origin_offset every) (INTEGER x)))"

definition dbl_posixct_warp_distance_hour :: "utils \<Rightarrow> sexp \<Rightarrow> int32 \<Rightarrow> sexp \<Rightarrow> error + double list" where
  "dbl_posixct_warp_distance_hour U x every origin =
     then_do (offset_of_origin (origin_to_seconds_from_epoch U) origin)
       (\<lambda>origin_offset. Inr (map (dbl_posixct_unit64 3600 origin_offset every) (REAL x)))"

definition date_warp_distance_hour :: "utils \<Rightarrow> sexp \<Rightarrow> int32 \<Rightarrow> sexp \<Rightarrow> error + double list" where
  "date_warp_distance_hour U x every origin =
     by_storage ''date_warp_distance_hour''
       (\<lambda>x. int_date_warp_distance_hour U x every origin)
       (\<lambda>x. dbl_date_warp_distance_hour U x every origin) x"

definition posixct_warp_distance_hour :: "utils \<Rightarrow> sexp \<Rightarrow> int32 \<Rightarrow> sexp \<Rightarrow> error + double list" where
  "posixct_warp_distance_hour U x every origin =
     by_storage ''posixct_warp_distance_hour''
       (\<lambda>x. int_posixct_warp_distance_hour U x every origin)
       (\<lambda>x. dbl_posixct_warp_distance_hour U x every origin) x"

definition posixlt_warp_distance_hour :: "utils \<Rightarrow> sexp \<Rightarrow> int32 \<Rightarrow> sexp \<Rightarrow> error + double list" where
  "posixlt_warp_distance_hour U x every origin =
     posixct_warp_distance_hour U (as_datetime U x) every origin"

definition warp_distance_hour :: "utils \<Rightarrow> sexp \<Rightarrow> int32 \<Rightarrow> sexp \<Rightarrow> error + double list" where
  "warp_distance_hour U x every origin =
     by_class U ''warp_distance_hour''
       (\<lambda>x. date_warp_distance_hour U x every origin)
       (\<lambda>x. posixct_warp_distance_hour U x every origin)
       (\<lambda>x. posixlt_warp_distance_hour U x every origin) x"

subsection \<open>Minutes\<close>

definition int_date_warp_distance_minute :: "utils \<Rightarrow> sexp \<Rightarrow> int32 \<Rightarrow> sexp \<Rightarrow> error + double list" where
  "int_date_warp_distance_minute U x every origin =
     then_do (offset_of_origin (origin_to_days_from_epoch U) origin)
       (\<lambda>origin_offset. Inr (map (int_date_scaled32 1440 origin_offset every) (INTEGER x)))"

definition dbl_date_warp_distance_minute :: "utils \<Rightarrow> sexp \<Rightarrow> int32 \<Rightarrow> sexp \<Rightarrow> error + double list" where
  "dbl_date_warp_distance_minute U x every origin =
     then_do (offset_of_origin (origin_to_days_from_epoch U) origin)
       (\<lambda>origin_offset. Inr (map (dbl_date_scaled32 1440 origin_offset every) (REAL x)))"

definition int_posixct_warp_distance_minute :: "utils \<Rightarrow> sexp \<Rightarrow> int32 \<Rightarrow> sexp \<Rightarrow> error + double list" where
  "int_posixct_warp_distance_minute U x every origin =
     then_do (offset_of_origin (origin_to_seconds_from_epoch U) origin)
       (\<lambda>origin_offset. Inr (map (int_posixct_unit64 60 origin_offset every) (INTEGER x)))"

definition dbl_posixct_warp_distance_minute :: "utils \<Rightarrow> sexp \<Rightarrow> int32 \<Rightarrow> sexp \<Rightarrow> error + double list" where
  "dbl_posixct_warp_distance_minute U x every origin =
     then_do (offset_of_origin (origin_to_seconds_from_epoch U) origin)
       (\<lambda>origin_offset. Inr (map (dbl_posixct_unit64 60 origin_offset every) (REAL x)))"

definition date_warp_distance_minute :: "utils \<Rightarrow> sexp \<Rightarrow> int32 \<Rightarrow> sexp \<Rightarrow> error + double list" where
  "date_warp_distance_minute U x every origin =
     by_storage ''date_warp_distance_minute''
       (\<lambda>x. int_date_warp_distance_minute U x every origin)
       (\<lambda>x. dbl_date_warp_distance_minute U x every origin) x"

definition posixct_warp_distance_minute :: "utils \<Rightarrow> sexp \<Rightarrow> int32 \<Rightarrow> sexp \<Rightarrow> error + double list" where
  "posixct_warp_distance_minute U x every origin =
     by_storage ''posixct_warp_distance_minute''
       (\<lambda>x. int_posixct_warp_distance_minute U x every origin)
       (\<lambda>x. dbl_posixct_warp_distance_minute U x every origin) x"

definition posixlt_warp_distance_minute :: "utils \<Rightarrow> sexp \<Rightarrow> int32 \<Rightarrow> sexp \<Rightarrow> error + double list" where
  "posixlt_warp_distance_minute U x every origin =
     posixct_warp_distance_minute U (as_datetime U x) every origin"

definition warp_distance_minute :: "utils \<Rightarrow> sexp \<Rightarrow> int32 \<Rightarrow> sexp \<Rightarrow> error + double list" where
  "warp_distance_minute U x every origin =
     by_class U ''warp_distance_minute''
       (\<lambda>x. date_warp_distance_minute U x every origin)
       (\<lambda>x. posixct_warp_distance_minute U x every origin)
       (\<lambda>x. posixlt_warp_distance_minute U x every origin) x"

subsection \<open>Seconds\<close>

definition int_date_warp_distance_second :: "utils \<Rightarrow> sexp \<Rightarrow> int32 \<Rightarrow> sexp \<Rightarrow> error + double list" where
  "int_date_warp_distance_second U x every origin =
     then_do (offset_of_origin (origin_to_days_from_epoch U) origin)
       (\<lambda>origin_offset. Inr (map (int_date_scaled64 86400 origin_offset every) (INTEGER x)))"

definition dbl_date_warp_distance_second :: "utils \<Rightarrow> sexp \<Rightarrow> int32 \<Rightarrow> sexp \<Rightarrow> error + double list" where
  "dbl_date_warp_distance_second U x every origin =
     then_do (offset_of_origin (origin_to_days_from_epoch U) origin)
       (\<lambda>origin_offset. Inr (map (dbl_date_scaled64 86400 origin_offset every) (REAL x)))"

definition int_posixct_warp_distance_second :: "utils \<Rightarrow> sexp \<Rightarrow> int32 \<Rightarrow> sexp \<Rightarrow> error + double list" where
  "int_posixct_warp_distance_second U x every origin =
     then_do (offset_of_origin (origin_to_seconds_from_epoch U) origin)
       (\<lambda>origin_offset. Inr (map (int_posixct_second_elt origin_offset every) (INTEGER x)))"

definition dbl_posixct_warp_distance_second :: "utils \<Rightarrow> sexp \<Rightarrow> int32 \<Rightarrow> sexp \<Rightarrow> error + double list" where
  "dbl_posixct_warp_distance_second U x every origin =
     then_do (offset_of_origin (origin_to_seconds_from_epoch U) origin)
       (\<lambda>origin_offset. Inr (map (dbl_posixct_second_elt origin_offset every) (REAL x)))"

definition date_warp_distance_second :: "utils \<Rightarrow> sexp \<Rightarrow> int32 \<Rightarrow> sexp \<Rightarrow> error + double list" where
  "date_warp_distance_second U x every origin =
     by_storage ''date_warp_distance_second''
       (\<lambda>x. int_date_warp_distance_second U x every origin)
       (\<lambda>x. dbl_date_warp_distance_second U x every origin) x"

definition posixct_warp_distance_second :: "utils \<Rightarrow> sexp \<Rightarrow> int32 \<Rightarrow> sexp \<Rightarrow> error + double list" where
  "posixct_warp_distance_second U x every origin =
     by_storage ''posixct_warp_distance_second''
       (\<lambda>x. int_posixct_warp_distance_second U x every origin)
       (\<lambda>x. dbl_posixct_warp_distance_second U x every origin) x"

definition posixlt_warp_distance_second :: "utils \<Rightarrow> sexp \<Rightarrow> int32 \<Rightarrow> sexp \<Rightarrow> error + double list" where
  "posixlt_warp_distance_second U x every origin =
     posixct_warp_distance_second U (as_datetime U x) every origin"

definition warp_distance_second :: "utils \<Rightarrow> sexp \<Rightarrow> int32 \<Rightarrow> sexp \<Rightarrow> error + double list" where
  "warp_distance_second U x every origin =
     by_class U ''warp_distance_second''
       (\<lambda>x. date_warp_distance_second U x every origin)
       (\<lambda>x. posixct_warp_distance_second U x every origin)
       (\<lambda>x. posixlt_warp_distance_second U x every origin) x"

subsection \<open>Milliseconds\<close>

definition int_date_warp_distance_millisecond :: "utils \<Rightarrow> sexp \<Rightarrow> int32 \<Rightarrow> sexp \<Rightarrow> error + double list" where
  "int_date_warp_distance_millisecond U x every origin =
     then_do (offset_of_origin (origin_to_days_from_epoch U) origin)
       (\<lambda>origin_offset. Inr (map (int_date_scaled64 86400000 origin_offset every) (INTEGER x)))"

definition dbl_date_warp_distance_millisecond :: "utils \<Rightarrow> sexp \<Rightarrow> int32 \<Rightarrow> sexp \<Rightarrow> error + double list" where
  "dbl_date_warp_distance_millisecond U x every origin =
     then_do (offset_of_origin (origin_to_days_from_epoch U) origin)
       (\<lambda>origin_offset. Inr (map (dbl_date_scaled64 86400000 origin_offset every) (REAL x)))"

definition int_posixct_warp_distance_millisecond :: "utils \<Rightarrow> sexp \<Rightarrow> int32 \<Rightarrow> sexp \<Rightarrow> error + double list" where
  "int_posixct_warp_distance_millisecond U x every origin =
     then_do (offset_of_origin (origin_to_milliseconds_from_epoch U) origin)
       (\<lambda>origin_offset. Inr (map (int_posixct_millisecond_elt origin_offset every) (INTEGER x)))"

definition dbl_posixct_warp_distance_millisecond :: "utils \<Rightarrow> sexp \<Rightarrow> int32 \<Rightarrow> sexp \<Rightarrow> error + double list" where
  "dbl_posixct_warp_distance_millisecond U x every origin =
     then_do (offset_of_origin (origin_to_milliseconds_from_epoch U) origin)
       (\<lambda>origin_offset. Inr (map (dbl_posixct_millisecond_elt origin_offset every) (REAL x)))"

definition date_warp_distance_millisecond :: "utils \<Rightarrow> sexp \<Rightarrow> int32 \<Rightarrow> sexp \<Rightarrow> error + double list" where
  "date_warp_distance_millisecond U x every origin =
     by_storage ''date_warp_distance_millisecond''
       (\<lambda>x. int_date_warp_distance_millisecond U x every origin)
       (\<lambda>x. dbl_date_warp_distance_millisecond U x every origin) x"

definition posixct_warp_distance_millisecond :: "utils \<Rightarrow> sexp \<Rightarrow> int32 \<Rightarrow> sexp \<Rightarrow> error + double list" where
  "posixct_warp_distance_millisecond U x every origin =
     by_storage ''posixct_warp_distance_millisecond''
       (\<lambda>x. int_posixct_warp_distance_millisecond U x every origin)
       (\<lambda>x. dbl_posixct_warp_distance_millisecond U x every origin) x"

definition posixlt_warp_distance_millisecond :: "utils \<Rightarrow> sexp \<Rightarrow> int32 \<Rightarrow> sexp \<Rightarrow> error + double list" where
  "posixlt_warp_distance_millisecond U x every origin =
     posixct_warp_distance_millisecond U (as_datetime U x) every origin"

definition warp_distance_millisecond :: "utils \<Rightarrow> sexp \<Rightarrow> int32 \<Rightarrow> sexp \<Rightarrow> error + double list" where
  "warp_distance_millisecond U x every origin =
     by_class U ''warp_distance_millisecond''
       (\<lambda>x. date_warp_distance_millisecond U x every origin)
       (\<lambda>x. posixct_warp_distance_millisecond U x every origin)
       (\<lambda>x. posixlt_warp_distance_millisecond U x every origin) x"

subsection \<open>The entry point\<close>

text \<open>
  \<open>warp_distance\<close>: the validations in the order of the source, the origin or the time
  zone settled, then the period's function. The \<open>default\<close> branch of the switch on the
  period has no counterpart: the datatype has no other value.
\<close>

definition warp_distance ::
  "utils \<Rightarrow> sexp \<Rightarrow> warp_period_type \<Rightarrow> int32 \<Rightarrow> sexp \<Rightarrow> error + double list"
where
  "warp_distance U x type every origin =
     then_do (validate_origin U origin) (\<lambda>_.
     then_do (validate_every every) (\<lambda>_.
       if time_class_type U x = warp_class_unknown
       then Inl (R_error ''warp_distance''
                   ''`x` must inherit from Date, POSIXct, or POSIXlt'')
       else
         let origin1 = (if origin = R_NilValue then get_origin_epoch_in_time_zone U x
                        else origin);
             x1 = (if origin = R_NilValue then x else convert_time_zone U x origin)
         in case type of
              warp_period_year \<Rightarrow> warp_distance_year U x1 every origin1
            | warp_period_quarter \<Rightarrow> warp_distance_quarter U x1 every origin1
            | warp_period_month \<Rightarrow> warp_distance_month U x1 every origin1
            | warp_period_week \<Rightarrow> warp_distance_week U x1 every origin1
            | warp_period_yweek \<Rightarrow> warp_distance_yweek U x1 every origin1
            | warp_period_day \<Rightarrow> warp_distance_day U x1 every origin1
            | warp_period_yday \<Rightarrow> warp_distance_yday U x1 every origin1
            | warp_period_hour \<Rightarrow> warp_distance_hour U x1 every origin1
            | warp_period_minute \<Rightarrow> warp_distance_minute U x1 every origin1
            | warp_period_second \<Rightarrow> warp_distance_second U x1 every origin1
            | warp_period_millisecond \<Rightarrow> warp_distance_millisecond U x1 every origin1))"

section \<open>chunk.c\<close>

text \<open>
  The older engine. Its \<open>origin_to_days_from_epoch\<close> returns the \<open>double\<close> it read, and
  the loops subtract that double from their element: the element is converted to
  \<open>double\<close>, the difference converted back.
\<close>

definition chunk_origin_to_days_from_epoch :: "utils \<Rightarrow> sexp \<Rightarrow> error + double" where
  "chunk_origin_to_days_from_epoch U origin =
     (let out = REAL (as_date U origin) ! 0
      in if dbl_eq out NA_REAL
         then Inl (R_error ''origin_to_days_from_epoch'' ''`origin` must not be `NA`'')
         else Inr out)"

text \<open>
  \<open>int_date_warp_chunk_second\<close>: \<open>int64_t elt = x_elt * SECONDS_IN_DAY\<close> multiplies
  two \<open>int\<close>s and widens the product.
\<close>

definition int_date_chunk_second_elt :: "double option \<Rightarrow> int32 \<Rightarrow> int32 \<Rightarrow> double" where
  "int_date_chunk_second_elt origin_offset every x_elt =
     (if x_elt = NA_INTEGER then NA_REAL
      else
        let elt0 = scast (x_elt * 86400) :: int64;
            elt = (case origin_offset of
                     None \<Rightarrow> elt0
                   | Some off \<Rightarrow> int64_of_double (dsub (double_of_int64 elt0) off))
        in emit64 every elt)"

definition int_date_warp_chunk_second :: "utils \<Rightarrow> sexp \<Rightarrow> int32 \<Rightarrow> sexp \<Rightarrow> error + double list" where
  "int_date_warp_chunk_second U x every origin =
     then_do (offset_of_origin (chunk_origin_to_days_from_epoch U) origin)
       (\<lambda>origin_days.
          Inr (map (int_date_chunk_second_elt
                      (map_option (\<lambda>d. dmul d (double_of_int 86400)) origin_days) every)
                 (INTEGER x)))"

text \<open>
  \<open>dbl_date_warp_chunk_day\<close>: the output is an integer vector; a negative difference
  goes through \<open>floor\<close> before the conversion to \<open>int\<close>.
\<close>

definition dbl_date_chunk_day_elt :: "double option \<Rightarrow> int32 \<Rightarrow> double \<Rightarrow> int32" where
  "dbl_date_chunk_day_elt origin_offset every x_elt0 =
     (if \<not> R_FINITE x_elt0 then NA_INTEGER
      else
        let x_elt = (case origin_offset of None \<Rightarrow> x_elt0 | Some off \<Rightarrow> dsub x_elt0 off);
            elt = (if dbl_neg x_elt then int32_of_double (c_floor x_elt)
                   else int32_of_double x_elt)
        in if every = 1 then elt else floor_every32 every elt)"

definition dbl_date_warp_chunk_day :: "utils \<Rightarrow> sexp \<Rightarrow> int32 \<Rightarrow> sexp \<Rightarrow> error + int32 list" where
  "dbl_date_warp_chunk_day U x every origin =
     then_do (offset_of_origin (chunk_origin_to_days_from_epoch U) origin)
       (\<lambda>origin_offset. Inr (map (dbl_date_chunk_day_elt origin_offset every) (REAL x)))"

section \<open>Helpers to run the functions on Dates\<close>

text \<open>
  Modelled from the spec: the helpers of \<open>utils.c\<close>, which is not among the sources at
  hand, as far as Dates need them. Section 6 of the specification: \<open>time_class_type\<close>
  classifies a value's calendar family (here by its class attribute); a conversion of
  the time zone is a no-op on a Date; \<open>as_date\<close> gives whole days, truncating towards
  minus infinity; an absent origin stands for the epoch. Section 4.2: the components of
  a day count are the year whose first day, by \<open>days_before_year\<close>, is the last one not
  after it, the day of the year counted from 0, and the month and the day of the month
  read off the lengths of the months. \<open>POSIXct\<close> and \<open>POSIXlt\<close> values are classified
  and otherwise left as they are.
\<close>

fun attrib_of :: "sexp \<Rightarrow> attrib" where
  "attrib_of R_NilValue = []"
| "attrib_of (INTSXP a xs) = a"
| "attrib_of (REALSXP a xs) = a"
| "attrib_of (VECSXP a xs) = a"
| "attrib_of (STRSXP a xs) = a"

definition class_of :: "sexp \<Rightarrow> string list" where
  "class_of x = (case map_of (attrib_of x) ''class'' of None \<Rightarrow> [] | Some cls \<Rightarrow> cls)"

definition date_time_class_type :: "sexp \<Rightarrow> warp_class_type" where
  "date_time_class_type x =
     (if ''Date'' \<in> set (class_of x) then warp_class_date
      else if ''POSIXct'' \<in> set (class_of x) then warp_class_posixct
      else if ''POSIXlt'' \<in> set (class_of x) then warp_class_posixlt
      else warp_class_unknown)"

definition date_year_offset :: "int32 \<Rightarrow> int32" where
  "date_year_offset d =
     (let y0 = word_of_int (sint d * 400 div 146097) :: int32
      in case find (\<lambda>y. days_before_year y \<le>s d \<and> d <s days_before_year (y + 1))
                [y0 - 2, y0 - 1, y0, y0 + 1, y0 + 2] of
           None \<Rightarrow> y0
         | Some y \<Rightarrow> y)"

definition month_starts :: "bool \<Rightarrow> int list" where
  "month_starts leap =
     (if leap then [0, 31, 60, 91, 121, 152, 182, 213, 244, 274, 305, 335]
      else [0, 31, 59, 90, 120, 151, 181, 212, 243, 273, 304, 334])"

definition date_components :: "int32 \<Rightarrow> warp_components" where
  "date_components d =
     (let yo = date_year_offset d;
          yd = d - days_before_year yo;
          starts = filter (\<lambda>s. s \<le> sint yd) (month_starts (is_leap_year (yo + 1970)))
      in \<lparr>wc_year_offset = yo,
          wc_month = word_of_int (int (length starts) - 1),
          wc_day = word_of_int (sint yd - last starts + 1),
          wc_yday = yd\<rparr>)"

text \<open>The days of a Date, whole: of an integer as they are, of a double its floor.\<close>

definition date_days :: "sexp \<Rightarrow> double list" where
  "date_days x =
     (case x of
        INTSXP a xs \<Rightarrow> map (\<lambda>d. if d = NA_INTEGER then NA_REAL else double_of_int32 d) xs
      | REALSXP a xs \<Rightarrow> map c_floor xs
      | _ \<Rightarrow> [])"

definition date_day_offsets :: "sexp \<Rightarrow> int32 list" where
  "date_day_offsets x =
     map (\<lambda>d. if R_FINITE d then int32_of_double d else NA_INTEGER) (date_days x)"

definition over_days :: "(int32 \<Rightarrow> int32) \<Rightarrow> sexp \<Rightarrow> sexp" where
  "over_days f x =
     INTSXP [] (map (\<lambda>d. if d = NA_INTEGER then NA_INTEGER else f d) (date_day_offsets x))"

definition date_utils :: utils where
  "date_utils =
     \<lparr>time_class_type = date_time_class_type,
      get_origin_epoch_in_time_zone = (\<lambda>x. INTSXP [(''class'', [''Date''])] [0]),
      convert_time_zone = (\<lambda>x origin. x),
      get_year_offset = over_days (\<lambda>d. wc_year_offset (date_components d)),
      get_month_offset =
        over_days (\<lambda>d. wc_year_offset (date_components d) * 12 + wc_month (date_components d)),
      get_day_offset = over_days (\<lambda>d. d),
      as_posixlt_from_posixct = (\<lambda>x. x),
      as_datetime = (\<lambda>x. x),
      as_date = (\<lambda>x. REALSXP [(''class'', [''Date''])] (date_days x)),
      get_origin_yday_components =
        (\<lambda>origin.
           let c = date_components (hd (date_day_offsets origin))
           in \<lparr>yc_year_offset = wc_year_offset c, yc_yday = wc_yday c\<rparr>),
      convert_days_to_components = date_components\<rparr>"

section \<open>The vocabulary of the specification\<close>

text \<open>
  The division primitive of the specification, \<open>floor_div a b\<close> for \<open>1 \<le> b\<close>: the
  integer \<open>q\<close> with \<open>a = q * b + r\<close> and \<open>0 \<le> r < b\<close>. \<open>is_floor_quotient\<close> says that of a
  candidate \<open>q\<close>, the remainder being \<open>a - q * b\<close>.
\<close>

definition is_floor_quotient :: "int \<Rightarrow> int \<Rightarrow> int \<Rightarrow> bool" where
  "is_floor_quotient a b q \<longleftrightarrow> 0 \<le> a - q * b \<and> a - q * b < b"

definition floor_div :: "int \<Rightarrow> int \<Rightarrow> int" where
  "floor_div a b = a div b"

text \<open>
  The units of the origin, as an integer: 0 when there is no origin to subtract.
\<close>

definition origin_units :: "'a::len word option \<Rightarrow> int" where
  "origin_units origin_offset = (case origin_offset of None \<Rightarrow> 0 | Some off \<Rightarrow> sint off)"

text \<open>
  A double without a fractional part: the significand is a multiple of the power of two
  that a negative exponent divides by.
\<close>

definition is_integer_valued :: "double \<Rightarrow> bool" where
  "is_integer_valued x =
     (case x of Finite m e \<Rightarrow> 0 \<le> e \<or> 2 ^ nat (- e) dvd m | _ \<Rightarrow> False)"

text \<open>
  \<open>scale_slot k d\<close> is \<open>floor (d / k)\<close> on a slot of a distance vector: the floored
  quotient of the integer in \<open>d\<close>, the missing slot as it is. \<open>slot_fits w k d\<close>: the
  slot is missing, or holds an integer \<open>u\<close> below \<open>2 ^ 53\<close> in magnitude for which
  \<open>u - (k - 1)\<close> is not below \<open>- (2 ^ w)\<close>.
\<close>

definition scale_slot :: "int \<Rightarrow> double \<Rightarrow> double" where
  "scale_slot k d =
     (case integral_part d of None \<Rightarrow> d | Some u \<Rightarrow> double_of_int (floor_div u k))"

definition slot_fits :: "nat \<Rightarrow> int \<Rightarrow> double \<Rightarrow> bool" where
  "slot_fits w k d =
     (case integral_part d of
        None \<Rightarrow> True
      | Some u \<Rightarrow> \<bar>u\<bar> < 2 ^ 53 \<and> - (2 ^ w) \<le> u - (k - 1))"

text \<open>
  The guarded conversion as section 4.5 of the specification words it: scale by
  \<open>10\<^sup>6\<close>, truncate towards zero, scale by \<open>10\<^sup>-\<^sup>6\<close>, add a guard of \<open>10\<^sup>-\<^sup>7\<close>; then
  floor and cast to a signed 64-bit integer, for milliseconds after a multiplication
  by \<open>10\<^sup>3\<close>. Each power of ten is the double nearest to it.
\<close>

definition guard_steps_spec :: "double \<Rightarrow> double" where
  "guard_steps_spec x =
     dadd (dmul (c_trunc (dmul x (double_of_ratio (10 ^ 6) 1))) (double_of_ratio 1 (10 ^ 6)))
       (double_of_ratio 1 (10 ^ 7))"

definition guarded_floor_spec :: "double \<Rightarrow> int64" where
  "guarded_floor_spec x = int64_of_double (c_floor (guard_steps_spec x))"

definition guarded_floor_to_millisecond_spec :: "double \<Rightarrow> int64" where
  "guarded_floor_to_millisecond_spec x =
     int64_of_double (c_floor (dmul (guard_steps_spec x) (double_of_ratio (10 ^ 3) 1)))"

text \<open>
  The number a finite double stands for, and the two ways to take the fraction off a
  number: towards zero, as the conversion to an integer type of C does, and towards
  minus infinity.
\<close>

definition dvalue :: "double \<Rightarrow> rat" where
  "dvalue x =
     (case x of
        Finite m e \<Rightarrow> if 0 \<le> e then of_int (m * 2 ^ nat e) else of_int m / 2 ^ nat (- e)
      | _ \<Rightarrow> 0)"

definition toward_zero :: "rat \<Rightarrow> int" where
  "toward_zero r = (if r < 0 then \<lceil>r\<rceil> else \<lfloor>r\<rfloor>)"

text \<open>
  What a slot of the output is to be: the missing value where the input is missing, a
  double without a fractional part elsewhere.
\<close>

definition slot_ok :: "double \<Rightarrow> bool \<Rightarrow> bool" where
  "slot_ok d missing = (if missing then d = NA_REAL else is_integer_valued d)"

text \<open>
  The year-day algorithm as section 4.7 of the specification words it, over the
  integers: the adjustment \<open>\<Delta>\<close> in its four cases, the last origin before the element,
  the units within the year by floored division, the units of the years between the
  two origins, a leap year counting \<open>(366 - 1) / every + 1\<close> units and any other year
  \<open>(365 - 1) / every + 1\<close>. The leap years and the days before a year are those of
  section 4.2.
\<close>

definition year_is_leap_spec :: "int \<Rightarrow> bool" where
  "year_is_leap_spec y \<longleftrightarrow> (y mod 4 = 0 \<and> y mod 100 \<noteq> 0) \<or> y mod 400 = 0"

definition leap_delta_spec :: "int \<Rightarrow> int \<Rightarrow> bool \<Rightarrow> int" where
  "leap_delta_spec year_offset yday origin_is_leap =
     (let year_is_leap = year_is_leap_spec (year_offset + 1970)
      in if yday < 58 then 0
         else if origin_is_leap = year_is_leap then 0
         else if origin_is_leap \<and> \<not> year_is_leap then - 1
         else 1)"

definition days_before_year_spec :: "int \<Rightarrow> int" where
  "days_before_year_spec year_offset =
     (let y = year_offset + 1970
      in 365 * (y - 1) + (y - 1) div 4 - (y - 1) div 100 + (y - 1) div 400 - 719162)"

definition leap_years_spec :: "int \<Rightarrow> int" where
  "leap_years_spec year_offset =
     (let y = year_offset + 1970 in y div 4 - y div 100 + y div 400 - 477)"

definition last_origin_year_offset_spec :: "int \<Rightarrow> int \<Rightarrow> int \<Rightarrow> bool \<Rightarrow> int" where
  "last_origin_year_offset_spec year_offset yday origin_yday origin_is_leap =
     (let origin_yday_adjusted = origin_yday + leap_delta_spec year_offset yday origin_is_leap
      in year_offset - (if yday < origin_yday_adjusted then 1 else 0))"

definition yday_bucket_spec :: "int \<Rightarrow> int \<Rightarrow> int \<Rightarrow> int \<Rightarrow> int \<Rightarrow> bool \<Rightarrow> int \<Rightarrow> int" where
  "yday_bucket_spec days_since_epoch year_offset yday origin_year_offset origin_yday
       origin_is_leap every =
     (let last_origin_year_offset =
            last_origin_year_offset_spec year_offset yday origin_yday origin_is_leap;
          last_origin_day =
            days_before_year_spec last_origin_year_offset + origin_yday
              + leap_delta_spec last_origin_year_offset origin_yday origin_is_leap;
          days_since_last_origin = days_since_epoch - last_origin_day;
          units_in_year = floor_div days_since_last_origin every;
          years_between = last_origin_year_offset - origin_year_offset;
          leap_years_between =
            leap_years_spec last_origin_year_offset - leap_years_spec origin_year_offset;
          units_per_leap_year = (366 - 1) div every + 1;
          units_per_non_leap_year = (365 - 1) div every + 1;
          units_between =
            units_per_leap_year * leap_years_between
              + units_per_non_leap_year * (years_between - leap_years_between)
      in units_between + units_in_year)"

text \<open>
  The vocabulary of sections 4.3, 4.4 and 4.6. \<open>fits w v\<close>: the integer \<open>v\<close> is one of
  a signed integer of \<open>w + 1\<close> bits. \<open>zoned_input\<close> is \<open>x\<close> as the loops read it, after
  the reconciliation of the time zones; \<open>used_origin\<close> is the origin they subtract, the
  epoch in the zone of \<open>x\<close> when none is given. The units of the origin are counted as
  those of an element: the first of its offsets, its days, its seconds or its
  milliseconds; nothing is subtracted for \<open>R_NilValue\<close>.
\<close>

definition fits :: "nat \<Rightarrow> int \<Rightarrow> bool" where
  "fits w v \<longleftrightarrow> - (2 ^ w) \<le> v \<and> v < 2 ^ w"

definition zoned_input :: "utils \<Rightarrow> sexp \<Rightarrow> sexp \<Rightarrow> sexp" where
  "zoned_input U x origin = (if origin = R_NilValue then x else convert_time_zone U x origin)"

definition used_origin :: "utils \<Rightarrow> sexp \<Rightarrow> sexp \<Rightarrow> sexp" where
  "used_origin U x origin =
     (if origin = R_NilValue then get_origin_epoch_in_time_zone U x else origin)"

definition origin_first_offset :: "(sexp \<Rightarrow> sexp) \<Rightarrow> sexp \<Rightarrow> int" where
  "origin_first_offset getter origin =
     (if origin = R_NilValue then 0 else sint (INTEGER (getter origin) ! 0))"

definition origin_days :: "utils \<Rightarrow> sexp \<Rightarrow> int" where
  "origin_days U origin =
     (if origin = R_NilValue then 0 else sint (int32_of_double (REAL (as_date U origin) ! 0)))"

definition origin_seconds :: "utils \<Rightarrow> sexp \<Rightarrow> int" where
  "origin_seconds U origin =
     (if origin = R_NilValue then 0 else sint (guarded_floor (REAL (as_datetime U origin) ! 0)))"

definition origin_milliseconds :: "utils \<Rightarrow> sexp \<Rightarrow> int" where
  "origin_milliseconds U origin =
     (if origin = R_NilValue then 0
      else sint (guarded_floor_to_millisecond (REAL (as_datetime U origin) ! 0)))"

text \<open>
  The tables of section 4.4. The periods from the day up read an offset of \<open>x\<close>, a
  quarter being three months and a week seven days; below the day a Date counts
  \<open>day_units\<close> units for each of its days, and the seconds of an instant are
  divided by \<open>unit_seconds\<close>.
\<close>

definition period_offsets :: "utils \<Rightarrow> warp_period_type \<Rightarrow> (int \<times> (sexp \<Rightarrow> sexp)) option" where
  "period_offsets U type =
     (case type of
        warp_period_year \<Rightarrow> Some (1, get_year_offset U)
      | warp_period_quarter \<Rightarrow> Some (3, get_month_offset U)
      | warp_period_month \<Rightarrow> Some (1, get_month_offset U)
      | warp_period_week \<Rightarrow> Some (7, get_day_offset U)
      | warp_period_day \<Rightarrow> Some (1, get_day_offset U)
      | _ \<Rightarrow> None)"

definition day_units :: "warp_period_type \<Rightarrow> int option" where
  "day_units type =
     (case type of
        warp_period_hour \<Rightarrow> Some 24
      | warp_period_minute \<Rightarrow> Some 1440
      | warp_period_second \<Rightarrow> Some 86400
      | warp_period_millisecond \<Rightarrow> Some 86400000
      | _ \<Rightarrow> None)"

definition unit_seconds :: "warp_period_type \<Rightarrow> int option" where
  "unit_seconds type =
     (case type of
        warp_period_hour \<Rightarrow> Some 3600
      | warp_period_minute \<Rightarrow> Some 60
      | warp_period_second \<Rightarrow> Some 1
      | _ \<Rightarrow> None)"

text \<open>
  The width of the loop of a Date below the day: hours and minutes are counted in an
  \<open>int\<close>, seconds and milliseconds in an \<open>int64_t\<close>.
\<close>

definition date_width :: "warp_period_type \<Rightarrow> nat" where
  "date_width type =
     (if type = warp_period_hour \<or> type = warp_period_minute then 31 else 63)"

text \<open>
  A broken-down time is read as instants through \<open>as_datetime\<close> below the day, and
  instants are read as broken-down times through \<open>as_posixlt_from_posixct\<close> for the
  year-day.
\<close>

definition instants_of :: "utils \<Rightarrow> sexp \<Rightarrow> sexp" where
  "instants_of U x = (if time_class_type U x = warp_class_posixlt then as_datetime U x else x)"

definition broken_down :: "utils \<Rightarrow> sexp \<Rightarrow> sexp" where
  "broken_down U x =
     (if time_class_type U x = warp_class_posixct then as_posixlt_from_posixct U x else x)"

text \<open>
  The bucket of section 4.7 for the origin that \<open>get_origin_yday_components\<close> reads,
  the origin year being a leap year or not by the rule of section 4.2; and the range
  within which the theorems are stated: an origin within a million years of 1970 on a
  day of the year from 0 to 365, an element within a million years of 1970 and
  \<open>4 * 10\<^sup>8\<close> days of the epoch.
\<close>

definition yday_bucket_for :: "utils \<Rightarrow> sexp \<Rightarrow> int \<Rightarrow> int \<Rightarrow> int \<Rightarrow> int \<Rightarrow> int" where
  "yday_bucket_for U origin every days_since_epoch year_offset yday =
     (let origin_year_offset = sint (yc_year_offset (get_origin_yday_components U origin));
          origin_yday = sint (yc_yday (get_origin_yday_components U origin))
      in yday_bucket_spec days_since_epoch year_offset yday origin_year_offset origin_yday
           (year_is_leap_spec (origin_year_offset + 1970)) every)"

text \<open>The year-week is the year-day with \<open>7 * every\<close> (section 4.7).\<close>

definition yday_factor :: "warp_period_type \<Rightarrow> int option" where
  "yday_factor type =
     (case type of
        warp_period_yday \<Rightarrow> Some 1
      | warp_period_yweek \<Rightarrow> Some 7
      | _ \<Rightarrow> None)"

definition yday_origin_in_range :: "utils \<Rightarrow> sexp \<Rightarrow> bool" where
  "yday_origin_in_range U origin \<longleftrightarrow>
     \<bar>sint (yc_year_offset (get_origin_yday_components U origin))\<bar> \<le> 1000000
     \<and> 0 \<le> sint (yc_yday (get_origin_yday_components U origin))
     \<and> sint (yc_yday (get_origin_yday_components U origin)) \<le> 365"

definition yday_in_range :: "int \<Rightarrow> int \<Rightarrow> bool" where
  "yday_in_range days_since_epoch year_offset \<longleftrightarrow>
     \<bar>year_offset\<bar> \<le> 1000000 \<and> \<bar>days_since_epoch\<bar> \<le> 400000000"

text \<open>
  The slots of an input and which of them are missing (section 3): an integer column is
  missing at the reserved integer, a floating-point column where it is not finite. A
  broken-down time is a list of columns, the sixth its years: it has the slots of
  that column, missing where the year is. \<open>missing_kept out x\<close>: the output has
  one slot for each slot of \<open>x\<close>, and a slot of the output is the missing value exactly where
  the slot of \<open>x\<close> is missing; the other slots are finite.
\<close>

fun missing_slots :: "sexp \<Rightarrow> bool list" where
  "missing_slots (INTSXP a xs) = map (\<lambda>elt. elt = NA_INTEGER) xs"
| "missing_slots (REALSXP a vs) = map (\<lambda>v. \<not> R_FINITE v) vs"
| "missing_slots (VECSXP a fs) =
     (if 5 < length fs then map (\<lambda>elt. elt = NA_INTEGER) (INTEGER (fs ! 5)) else [])"
| "missing_slots x = []"

definition missing_kept :: "double list \<Rightarrow> sexp \<Rightarrow> bool" where
  "missing_kept out x \<longleftrightarrow>
     length out = length (missing_slots x)
     \<and> map (\<lambda>d. d = NA_REAL) out = missing_slots x
     \<and> map (\<lambda>d. \<not> R_FINITE d) out = missing_slots x"

section \<open>Arithmetic of the machine integers\<close>

lemma sdiv_nonneg: "0 \<le> a \<Longrightarrow> 0 < b \<Longrightarrow> a sdiv b = a div (b::int)"
  by (simp add: signed_divide_int_def sgn_if)

lemma sdiv_adjusted:
  assumes "a < 0" "0 < (b::int)"
  shows "(a - (b - 1)) sdiv b = a div b"
proof -
  have m: "0 \<le> a mod b" "a mod b < b" using assms by simp_all
  have "(a - (b - 1)) sdiv b = - ((b - 1 - a) div b)"
    using assms by (simp add: signed_divide_int_def sgn_if)
  moreover have "(b - 1 - a) div b = - (a div b)"
  proof (rule int_div_pos_eq)
    show "b - 1 - a = b * - (a div b) + (b - 1 - a mod b)"
      by (simp add: algebra_simps minus_mod_eq_mult_div [symmetric])
    show "0 \<le> b - 1 - a mod b" using m by simp
    show "b - 1 - a mod b < b" using m by simp
  qed
  ultimately show ?thesis by simp
qed

lemma sint32_range: "- (2 ^ 31) \<le> sint (w :: int32) \<and> sint w < 2 ^ 31"
  using sint_ge [of w] sint_lt [of w] by simp

lemma sint64_range: "- (2 ^ 63) \<le> sint (w :: int64) \<and> sint w < 2 ^ 63"
  using sint_ge [of w] sint_lt [of w] by simp

lemma sint32_of_int: "- (2 ^ 31) \<le> k \<Longrightarrow> k < 2 ^ 31 \<Longrightarrow> sint (word_of_int k :: int32) = k"
  by (simp add: sint_sbintrunc' signed_take_bit_int_eq_self)

lemma sint64_of_int: "- (2 ^ 63) \<le> k \<Longrightarrow> k < 2 ^ 63 \<Longrightarrow> sint (word_of_int k :: int64) = k"
  by (simp add: sint_sbintrunc' signed_take_bit_int_eq_self)

lemma sint32_diff:
  "- (2 ^ 31) \<le> sint a - sint b \<Longrightarrow> sint a - sint b < 2 ^ 31 \<Longrightarrow>
   sint (a - b :: int32) = sint a - sint b"
  by (simp add: sint_word_diff signed_take_bit_int_eq_self)

lemma sint64_diff:
  "- (2 ^ 63) \<le> sint a - sint b \<Longrightarrow> sint a - sint b < 2 ^ 63 \<Longrightarrow>
   sint (a - b :: int64) = sint a - sint b"
  by (simp add: sint_word_diff signed_take_bit_int_eq_self)

lemma div_lower: assumes "0 < (b::int)" "a < 0" shows "a \<le> a div b"
  by (metis assms(1,2) div_by_1 int_one_le_iff_zero_less zdiv_mono2_neg zero_less_one)

lemma div_upper: assumes "0 \<le> (a::int)" shows "a div b \<le> a"
  by (metis assms div_0 int_div_le_self order_le_less)

lemma div_range:
  assumes "0 < (b::int)" "lo \<le> a" "a < hi" "lo \<le> 0" "0 < hi"
  shows "lo \<le> a div b \<and> a div b < hi"
proof (cases "a < 0")
  case True
  then have "a \<le> a div b" "a div b < 0" using assms div_lower by (simp_all add: div_neg_pos_less0)
  then show ?thesis using assms by simp
next
  case False
  then have "a div b \<le> a" "0 \<le> a div b" using assms div_upper by (simp_all add: pos_imp_zdiv_nonneg_iff)
  then show ?thesis using assms by simp
qed

lemma sint_one32: "sint (1 :: int32) = 1" by simp
lemma sint_scast_32_64: "sint (scast (w :: int32) :: int64) = sint w"
  by (simp add: sint_up_scast is_up)

lemma floor_every32_sint:
  assumes e: "0 < sint every" and lo: "- (2 ^ 31) \<le> sint elt - (sint every - 1)"
  shows "sint (floor_every32 every elt) = sint elt div sint every"
proof -
  note r = sint32_range [of elt] sint32_range [of every]
  have q: "- (2 ^ 31) \<le> sint elt div sint every \<and> sint elt div sint every < 2 ^ 31"
    using div_range [OF e, of "- (2 ^ 31)" "sint elt" "2 ^ 31"] r by simp
  show ?thesis
  proof (cases "elt <s 0")
    case True
    then have neg: "sint elt < 0" by (simp add: word_sless_alt)
    have e1: "sint (every - 1) = sint every - 1"
      using r e by (simp add: sint32_diff)
    have d: "sint (elt - (every - 1)) = sint elt - (sint every - 1)"
      using r e lo neg e1 by (simp add: sint32_diff)
    show ?thesis
      using True q d sdiv_adjusted [OF neg e]
      by (simp add: floor_every32_def c_div32_def sint32_of_int)
  next
    case False
    then have nn: "0 \<le> sint elt" by (simp add: word_sless_alt)
    show ?thesis
      using False q sdiv_nonneg [OF nn e]
      by (simp add: floor_every32_def c_div32_def sint32_of_int)
  qed
qed

lemma floor_every64_sint:
  assumes e: "0 < sint every" and lo: "- (2 ^ 63) \<le> sint elt - (sint every - 1)"
  shows "sint (floor_every64 every elt) = sint elt div sint every"
proof -
  note r = sint64_range [of elt] sint32_range [of every]
  have q: "- (2 ^ 63) \<le> sint elt div sint every \<and> sint elt div sint every < 2 ^ 63"
    using div_range [OF e, of "- (2 ^ 63)" "sint elt" "2 ^ 63"] r by simp
  show ?thesis
  proof (cases "elt <s 0")
    case True
    then have neg: "sint elt < 0" by (simp add: word_sless_alt)
    have e1: "sint (scast (every - 1) :: int64) = sint every - 1"
      using r e by (simp add: sint32_diff sint_scast_32_64)
    have d: "sint (elt - scast (every - 1)) = sint elt - (sint every - 1)"
      using r e lo neg e1 by (simp add: sint64_diff)
    show ?thesis
      using True q d sdiv_adjusted [OF neg e]
      by (simp add: floor_every64_def c_div64_def sint64_of_int sint_scast_32_64)
  next
    case False
    then have nn: "0 \<le> sint elt" by (simp add: word_sless_alt)
    show ?thesis
      using False q sdiv_nonneg [OF nn e]
      by (simp add: floor_every64_def c_div64_def sint64_of_int sint_scast_32_64)
  qed
qed

lemma emit32_floor:
  assumes "0 < sint every" "- (2 ^ 31) \<le> sint elt - (sint every - 1)"
  shows "emit32 every elt = double_of_int (sint elt div sint every)"
  using assms floor_every32_sint [OF assms]
  by (auto simp: emit32_def double_of_int32_def)

lemma emit64_floor:
  assumes "0 < sint every" "- (2 ^ 63) \<le> sint elt - (sint every - 1)"
  shows "emit64 every elt = double_of_int (sint elt div sint every)"
  using assms floor_every64_sint [OF assms]
  by (auto simp: emit64_def double_of_int64_def)

section \<open>Integers as doubles\<close>

lemma bitlen_le_53:
  assumes "0 < n" "n < 2 ^ 53"
  shows "1 \<le> bitlen n \<and> bitlen n \<le> 53"
proof -
  have b: "2 ^ nat (bitlen n - 1) \<le> n" "n < 2 ^ nat (bitlen n)"
    using bitlen_bounds [OF assms(1)] by simp_all
  have "1 \<le> bitlen n" using assms(1) bitlen_eq_zero_iff [of n] bitlen_nonneg [of n] by linarith
  moreover have "bitlen n \<le> 53"
  proof (rule ccontr)
    assume "\<not> bitlen n \<le> 53"
    then have "53 \<le> nat (bitlen n - 1)" by simp
    then have "(2::int) ^ 53 \<le> 2 ^ nat (bitlen n - 1)" by (intro power_increasing) simp_all
    then show False using b assms by linarith
  qed
  ultimately show ?thesis by simp
qed

lemma double_of_int_small:
  assumes "n \<noteq> 0" "\<bar>n\<bar> < 2 ^ 53"
  shows "double_of_int n = Finite (n * 2 ^ nat (53 - bitlen \<bar>n\<bar>)) (bitlen \<bar>n\<bar> - 53)"
proof -
  let ?b = "bitlen \<bar>n\<bar>"
  have pos: "0 < \<bar>n\<bar>" using assms by simp
  have b: "1 \<le> ?b" "?b \<le> 53" using bitlen_le_53 [OF pos assms(2)] by simp_all
  have ub: "\<bar>n\<bar> < 2 ^ nat ?b" using bitlen_bounds [OF pos] by simp
  have e1: "max (0 + ?b - 53) (- 1074) = ?b - 53" using b by simp
  have "\<bar>n\<bar> * 2 ^ nat (53 - ?b) < 2 ^ nat ?b * 2 ^ nat (53 - ?b)"
    using ub by (intro mult_strict_right_mono) simp_all
  also have "\<dots> = 2 ^ 53"
    using b by (simp add: power_add [symmetric] nat_add_distrib [symmetric])
  finally have q: "\<bar>n * 2 ^ nat (53 - ?b)\<bar> < 2 ^ 53" by (simp add: abs_mult)
  have nz: "n * 2 ^ nat (53 - ?b) \<noteq> 0" using assms by simp
  have eq: "nat (0 - (?b - 53)) = nat (53 - ?b)" by simp
  show ?thesis
    unfolding double_of_int_def round_to_double_def pack_double_def
    using assms(1) b q nz by (simp add: Let_def e1 eq del: bitlen_pow2)
qed


lemma mult_sdiv_cancel: "0 < c \<Longrightarrow> (n * c) sdiv c = (n::int)"
  by (auto simp: signed_divide_int_def sgn_mult abs_mult sgn_if zero_less_mult_iff)

lemma integral_part_double_of_int:
  assumes "\<bar>n\<bar> < 2 ^ 53"
  shows "integral_part (double_of_int n) = Some n"
proof (cases "n = 0")
  case True
  then show ?thesis by (simp add: double_of_int_def round_to_double_def)
next
  case False
  have "(n * 2 ^ nat (53 - bitlen \<bar>n\<bar>)) sdiv 2 ^ nat (53 - bitlen \<bar>n\<bar>) = n"
    by (rule mult_sdiv_cancel) simp
  moreover have "bitlen \<bar>n\<bar> \<le> 53" using bitlen_le_53 [of "\<bar>n\<bar>"] False assms by simp
  ultimately show ?thesis
    using double_of_int_small [OF False assms] by (auto simp del: bitlen_pow2)
qed

lemma bitlen_ge_54:
  assumes "2 ^ 53 \<le> n"
  shows "54 \<le> bitlen n"
proof (rule ccontr)
  assume "\<not> 54 \<le> bitlen n"
  then have "nat (bitlen n) \<le> 53" by simp
  then have "(2::int) ^ nat (bitlen n) \<le> 2 ^ 53" by (intro power_increasing) simp_all
  moreover have "(0::int) < 2 ^ 53" by simp
  then have "0 < n" using assms by linarith
  ultimately show False using bitlen_bounds [of n] assms by linarith
qed

lemma bitlen_le:
  assumes "0 < n" "n < 2 ^ k"
  shows "bitlen n \<le> int k"
proof (rule ccontr)
  assume "\<not> bitlen n \<le> int k"
  then have "k \<le> nat (bitlen n - 1)" by simp
  then have "(2::int) ^ k \<le> 2 ^ nat (bitlen n - 1)" by (intro power_increasing) simp_all
  then show False using bitlen_bounds [OF assms(1)] assms by linarith
qed


lemma quot_lower:
  fixes c d r P :: int
  assumes "0 < P" "c * P \<le> d * P + r" "r < P"
  shows "c \<le> d"
proof -
  have "c * P < (d + 1) * P" using assms by (simp add: algebra_simps)
  then have "c < d + 1" using assms(1) by (auto simp: mult_less_cancel_right)
  then show ?thesis by simp
qed

lemma quot_upper:
  fixes c d r P :: int
  assumes "0 < P" "d * P + r < c * P" "0 \<le> r"
  shows "d < c"
proof -
  have "d * P < c * P" using assms by linarith
  then show ?thesis using assms(1) by (auto simp: mult_less_cancel_right)
qed

lemma quot_upper_le:
  fixes c d r P :: int
  assumes "0 < P" "d * P + r \<le> c * P" "0 \<le> r"
  shows "d \<le> c"
proof -
  have "d * P \<le> c * P" using assms by linarith
  then show ?thesis using assms(1) by (auto simp: mult_le_cancel_right)
qed

lemma round_quotient_bounds:
  fixes n c :: int and k :: nat
  assumes k: "0 < k" and c: "0 < c"
    and lo: "c * 2 ^ k \<le> \<bar>n\<bar>" and hi: "\<bar>n\<bar> < 2 * c * 2 ^ k"
  shows "c \<le> \<bar>round_half_even n k\<bar> \<and> \<bar>round_half_even n k\<bar> \<le> 2 * c"
proof -
  define d where "d = n div 2 ^ k"
  define r where "r = n mod 2 ^ k"
  define q where "q = (if 2 ^ (k - 1) < r \<or> (r = 2 ^ (k - 1) \<and> odd d) then d + 1 else d)"
  have rq: "round_half_even n k = q"
    by (simp add: round_half_even_def Let_def q_def d_def r_def)
  have p: "(0::int) < 2 ^ k" by simp
  have r: "0 \<le> r" "r < 2 ^ k" unfolding r_def by simp_all
  have n: "n = d * 2 ^ k + r" unfolding d_def r_def by (rule div_mult_mod_eq [symmetric])
  have h: "(0::int) < 2 ^ (k - 1)" by simp
  have "c \<le> \<bar>q\<bar> \<and> \<bar>q\<bar> \<le> 2 * c"
  proof (cases "0 \<le> n")
    case True
    then have "c * 2 ^ k \<le> d * 2 ^ k + r" "d * 2 ^ k + r < (2 * c) * 2 ^ k"
      using lo hi n by simp_all
    then have "c \<le> d" "d < 2 * c"
      using quot_lower [OF p _ r(2)] quot_upper [OF p _ r(1)] by blast+
    then show ?thesis unfolding q_def using c by auto
  next
    case False
    then have b: "d * 2 ^ k + r \<le> (- c) * 2 ^ k" "(- (2 * c)) * 2 ^ k < d * 2 ^ k + r"
      using lo hi n by simp_all
    have d1: "d \<le> - c" using quot_upper_le [OF p b(1) r(1)] .
    have d2: "- (2 * c) \<le> d"
      using quot_lower [OF p less_imp_le [OF b(2)] r(2)] .
    have "q \<le> - c"
    proof (cases "d = - c")
      case True
      then have "r = 0" using b r by simp
      then show ?thesis unfolding q_def using True h by simp
    next
      case False
      then show ?thesis unfolding q_def using d1 by auto
    qed
    moreover have "- (2 * c) \<le> q" unfolding q_def using d2 by auto
    ultimately show ?thesis using c by simp
  qed
  then show ?thesis by (simp add: rq)
qed

lemma double_of_int_big:
  assumes lo: "2 ^ 53 \<le> \<bar>n\<bar>" and hi: "\<bar>n\<bar> < 2 ^ 100"
  shows "\<exists>q e. double_of_int n = Finite q e \<and> 1 \<le> e \<and> 2 ^ 52 \<le> \<bar>q\<bar>"
proof -
  define b where "b = bitlen \<bar>n\<bar>"
  define k where "k = nat (b - 53)"
  define q where "q = round_half_even n k"
  have "(0::int) < 2 ^ 53" by simp
  then have pos: "0 < \<bar>n\<bar>" using lo by linarith
  have nz: "n \<noteq> 0" using pos by simp
  have b54: "54 \<le> b" unfolding b_def using lo by (rule bitlen_ge_54)
  have b1000: "b \<le> 100" unfolding b_def using bitlen_le [OF pos hi] by simp
  have k: "0 < k" "int k = b - 53" unfolding k_def using b54 by simp_all
  have bb: "2 ^ nat (b - 1) \<le> \<bar>n\<bar>" "\<bar>n\<bar> < 2 ^ nat b"
    unfolding b_def using bitlen_bounds [OF pos] by simp_all
  have n1: "nat (b - 1) = 52 + k" and n2: "nat b = 53 + k" using k b54 by simp_all
  have lo': "2 ^ 52 * 2 ^ k \<le> \<bar>n\<bar>" using bb(1) unfolding n1 power_add .
  have hi': "\<bar>n\<bar> < 2 * 2 ^ 52 * 2 ^ k" using bb(2) unfolding n2 power_add by simp
  have qb: "2 ^ 52 \<le> \<bar>q\<bar> \<and> \<bar>q\<bar> \<le> 2 * 2 ^ 52"
    unfolding q_def by (rule round_quotient_bounds [OF k(1) _ lo' hi']) simp
  have r: "round_to_double n 0 = pack_double (0 < n) q (b - 53)"
    unfolding round_to_double_def q_def k_def b_def using nz b54 [unfolded b_def]
    by (simp add: Let_def del: bitlen_pow2)
  show ?thesis
  proof (cases "\<bar>q\<bar> = 2 ^ 53")
    case True
    then have "\<bar>q div 2\<bar> = 2 ^ 52" by (auto simp: abs_if split: if_splits)
    then show ?thesis
      using True b54 b1000 r by (auto simp: double_of_int_def pack_double_def Let_def)
  next
    case False
    then show ?thesis
      using qb b54 b1000 r by (auto simp: double_of_int_def pack_double_def Let_def)
  qed
qed

lemma pack_double_not_NA: "pack_double p q e \<noteq> NA_REAL"
  by (simp add: pack_double_def Let_def)

lemma round_to_double_not_NA: "round_to_double m e \<noteq> NA_REAL"
  by (simp add: round_to_double_def Let_def pack_double_not_NA)

lemma double_of_int_not_NA: "double_of_int n \<noteq> NA_REAL"
  by (simp add: double_of_int_def round_to_double_not_NA)

lemma integral_part_double_of_int_eq:
  assumes "\<bar>n\<bar> < 2 ^ 100" "integral_part (double_of_int n) = Some u" "\<bar>u\<bar> < 2 ^ 53"
  shows "n = u"
proof (cases "\<bar>n\<bar> < 2 ^ 53")
  case True
  then show ?thesis using assms integral_part_double_of_int [of n] by simp
next
  case False
  then obtain q e where d: "double_of_int n = Finite q e" "1 \<le> e" "2 ^ 52 \<le> \<bar>q\<bar>"
    using double_of_int_big [of n] assms(1) by auto
  then have u: "u = q * 2 ^ nat e" using assms(2) by simp
  have "(2::int) ^ 1 \<le> 2 ^ nat e" using d(2) by (intro power_increasing) simp_all
  then have "2 ^ 52 * 2 \<le> \<bar>q\<bar> * 2 ^ nat e" using d(3) by (intro mult_mono) simp_all
  then show ?thesis using assms(3) u by (simp add: abs_mult)
qed

lemma double_of_int_integer_valued:
  assumes "\<bar>n\<bar> < 2 ^ 100"
  shows "is_integer_valued (double_of_int n)"
proof (cases "\<bar>n\<bar> < 2 ^ 53")
  case True
  show ?thesis
  proof (cases "n = 0")
    case True
    then show ?thesis
      by (simp add: is_integer_valued_def double_of_int_def round_to_double_def)
  next
    case False
    have "bitlen \<bar>n\<bar> \<le> 53" using bitlen_le_53 [of "\<bar>n\<bar>"] False True by simp
    then have "nat (53 - bitlen \<bar>n\<bar>) = nat (- (bitlen \<bar>n\<bar> - 53))" by simp
    then show ?thesis
      using double_of_int_small [OF False True]
      by (simp add: is_integer_valued_def del: bitlen_pow2)
  qed
next
  case False
  then obtain q e where d: "double_of_int n = Finite q e" "1 \<le> e"
    using double_of_int_big [of n] assms(1) by auto
  then show ?thesis by (simp add: is_integer_valued_def)
qed

lemma sint32_abs: "\<bar>sint (w :: int32)\<bar> < 2 ^ 53" "\<bar>sint (w :: int32)\<bar> < 2 ^ 100"
  using sint32_range [of w] by (simp_all add: abs_less_iff)

lemma sint64_abs: "\<bar>sint (w :: int64)\<bar> < 2 ^ 100"
  using sint64_range [of w] by (simp add: abs_less_iff)

lemma double_of_int_finite: "\<bar>n\<bar> < 2 ^ 100 \<Longrightarrow> R_FINITE (double_of_int n)"
  using double_of_int_integer_valued [of n]
  by (cases "double_of_int n") (simp_all add: is_integer_valued_def)

lemma int32_of_double_of_int32: "int32_of_double (double_of_int32 d) = d"
  using integral_part_double_of_int [OF sint32_abs(1), of d] sint32_range [of d]
  by (simp add: int32_of_double_def double_of_int32_def)

section \<open>Floored division in the loops\<close>

lemma floor_div_unique:
  assumes "1 \<le> b"
  shows "is_floor_quotient a b q \<longleftrightarrow> q = floor_div a b"
proof
  assume "is_floor_quotient a b q"
  then have "a = b * q + (a - q * b)" "0 \<le> a - q * b" "a - q * b < b"
    by (simp_all add: is_floor_quotient_def algebra_simps)
  then show "q = floor_div a b"
    unfolding floor_div_def using int_div_pos_eq [of a b q "a - q * b"] by simp
next
  assume "q = floor_div a b"
  moreover have "0 \<le> a mod b" "a mod b < b" using assms by simp_all
  ultimately show "is_floor_quotient a b q"
    by (simp add: is_floor_quotient_def floor_div_def minus_div_mult_eq_mod)
qed

lemma floor_div_truncating:
  assumes "1 \<le> b"
  shows "floor_div a b = (if 0 \<le> a then a sdiv b else (a - (b - 1)) sdiv b)"
  using assms sdiv_nonneg [of a b] sdiv_adjusted [of a b] by (simp add: floor_div_def)

lemma sub_offset_sint32:
  assumes "- (2 ^ 31) \<le> sint elt - origin_units off" "sint elt - origin_units off < 2 ^ 31"
  shows "sint (sub_offset off (elt :: int32)) = sint elt - origin_units off"
  using assms by (cases off) (simp_all add: sub_offset_def origin_units_def sint32_diff)

lemma sub_offset_sint64:
  assumes "- (2 ^ 63) \<le> sint elt - origin_units off" "sint elt - origin_units off < 2 ^ 63"
  shows "sint (sub_offset off (elt :: int64)) = sint elt - origin_units off"
  using assms by (cases off) (simp_all add: sub_offset_def origin_units_def sint64_diff)


lemma offset_elt_floor:
  assumes every: "0 < sint every"
    and "elt \<noteq> NA_INTEGER" "- (2 ^ 31) \<le> sint elt - origin_units off32 - (sint every - 1)"
      "sint elt - origin_units off32 < 2 ^ 31"
  shows "warp_distance_offset_elt off32 every elt
            = double_of_int (floor_div (sint elt - origin_units off32) (sint every))"
proof -
  have s: "sint (sub_offset off32 elt) = sint elt - origin_units off32"
    using assms by (intro sub_offset_sint32) simp_all
  show ?thesis
    using assms s emit32_floor [OF every, of "sub_offset off32 elt"]
    by (simp add: warp_distance_offset_elt_def floor_div_def)
qed

lemma posixct_second_floor:
  assumes every: "0 < sint every"
    and "x_elt \<noteq> NA_INTEGER" "- (2 ^ 63) \<le> sint x_elt - origin_units off64 - (sint every - 1)"
      "sint x_elt - origin_units off64 < 2 ^ 63"
  shows "int_posixct_second_elt off64 every x_elt
            = double_of_int (floor_div (sint x_elt - origin_units off64) (sint every))"
proof -
  have s: "sint (sub_offset off64 (scast x_elt :: int64)) = sint x_elt - origin_units off64"
    using assms by (intro sub_offset_sint64 [of "scast x_elt" off64, unfolded sint_scast_32_64]) simp_all
  show ?thesis
    using assms s emit64_floor [OF every, of "sub_offset off64 (scast x_elt)"]
    by (simp add: int_posixct_second_elt_def floor_div_def)
qed

lemma posixct_second_floor_no_origin:
  assumes every: "0 < sint every" and "x_elt \<noteq> NA_INTEGER"
  shows "int_posixct_second_elt None every x_elt
            = double_of_int (floor_div (sint x_elt) (sint every))"
proof -
  have "- (2 ^ 63) \<le> sint x_elt - origin_units (None :: int64 option) - (sint every - 1)"
    "sint x_elt - origin_units (None :: int64 option) < 2 ^ 63"
    using sint32_range [of x_elt] sint32_range [of every] by (simp_all add: origin_units_def)
  from posixct_second_floor [OF assms this] show ?thesis by (simp add: origin_units_def)
qed

section \<open>Scaling by \<open>every\<close>\<close>

lemma scale_slot_NA [simp]: "scale_slot k NA_REAL = NA_REAL"
  by (simp add: scale_slot_def)

lemma emit32_scale:
  assumes "0 < sint k" "slot_fits 31 (sint k) (emit32 1 v)"
  shows "emit32 k v = scale_slot (sint k) (emit32 1 v)"
proof -
  have i: "integral_part (emit32 1 v) = Some (sint v)"
    using integral_part_double_of_int [OF sint32_abs(1), of v]
    by (simp add: emit32_def double_of_int32_def)
  then have "- (2 ^ 31) \<le> sint v - (sint k - 1)" using assms(2) by (simp add: slot_fits_def)
  from emit32_floor [OF assms(1) this] show ?thesis
    using i by (simp add: scale_slot_def floor_div_def)
qed

lemma emit64_scale:
  assumes "0 < sint k" "slot_fits 63 (sint k) (emit64 1 v)"
  shows "emit64 k v = scale_slot (sint k) (emit64 1 v)"
proof -
  have e: "emit64 1 v = double_of_int (sint v)" by (simp add: emit64_def double_of_int64_def)
  obtain u where u: "integral_part (emit64 1 v) = Some u"
    using double_of_int_integer_valued [OF sint64_abs, of v] e
    by (cases "double_of_int (sint v)") (simp_all add: is_integer_valued_def)
  then have f: "\<bar>u\<bar> < 2 ^ 53" "- (2 ^ 63) \<le> u - (sint k - 1)"
    using assms(2) by (simp_all add: slot_fits_def)
  have "sint v = u" using integral_part_double_of_int_eq [OF sint64_abs _ f(1)] u e by simp
  then show ?thesis
    using emit64_floor [OF assms(1), of v] f u by (simp add: scale_slot_def floor_div_def)
qed

lemma guarded_emit32:
  assumes "0 < sint k" "slot_fits 31 (sint k) (if c then NA_REAL else emit32 1 v)"
  shows "(if c then NA_REAL else emit32 k v)
           = scale_slot (sint k) (if c then NA_REAL else emit32 1 v)"
  using assms emit32_scale [of k v] by (cases c) simp_all

lemma guarded_emit64:
  assumes "0 < sint k" "slot_fits 63 (sint k) (if c then NA_REAL else emit64 1 v)"
  shows "(if c then NA_REAL else emit64 k v)
           = scale_slot (sint k) (if c then NA_REAL else emit64 1 v)"
  using assms emit64_scale [of k v] by (cases c) simp_all

lemma floor_div_twice:
  assumes "0 < k"
  shows "floor_div (floor_div u c) k = floor_div u (c * k)"
  using assms by (simp add: floor_div_def zdiv_zmult2_eq)

lemma offset_elt_multiple:
  assumes k: "0 < sint k" and c: "0 < sint c" "sint c * sint k < 2 ^ 31"
    and f: "slot_fits 31 (sint c * sint k) (warp_distance_offset_elt off 1 elt)"
  shows "warp_distance_offset_elt off (k * c) elt
           = scale_slot (sint k) (warp_distance_offset_elt off c elt)"
proof (cases "elt = NA_INTEGER")
  case True
  then show ?thesis by (simp add: warp_distance_offset_elt_def)
next
  case False
  define v where "v = sub_offset off elt"
  have kc: "sint (k * c) = sint c * sint k"
  proof -
    have p: "0 < sint k * sint c" using k c by simp
    have "sint (k * c) = signed_take_bit 31 (sint k * sint c)" by (simp add: sint_word_mult)
    also have "\<dots> = sint k * sint c"
    proof (rule signed_take_bit_int_eq_self)
      have "- (2 ^ 31) \<le> (0::int)" by simp
      then show "- (2 ^ 31) \<le> sint k * sint c" using p by linarith
      show "sint k * sint c < 2 ^ 31" using c(2) by (simp add: mult.commute)
    qed
    finally show ?thesis by (simp add: mult.commute)
  qed
  have i: "integral_part (emit32 1 v) = Some (sint v)"
    using integral_part_double_of_int [OF sint32_abs(1), of v]
    by (simp add: emit32_def double_of_int32_def)
  then have lo: "- (2 ^ 31) \<le> sint v - (sint c * sint k - 1)"
    using f False by (simp add: slot_fits_def warp_distance_offset_elt_def v_def)
  have "0 \<le> sint c * (sint k - 1)" using k c by (intro mult_nonneg_nonneg) simp_all
  then have "sint c - 1 \<le> sint c * sint k - 1" by (simp add: algebra_simps)
  then have lo': "- (2 ^ 31) \<le> sint v - (sint c - 1)" using lo by linarith
  have pos: "0 < sint (k * c)" using kc k c by simp
  have 1: "emit32 (k * c) v = double_of_int (sint v div (sint c * sint k))"
    using emit32_floor [OF pos, of v] lo kc by simp
  have 2: "emit32 c v = double_of_int (sint v div sint c)"
    using emit32_floor [OF c(1) lo'] .
  have r: "\<bar>sint v div sint c\<bar> < 2 ^ 53"
    using div_range [OF c(1), of "- (2 ^ 31)" "sint v" "2 ^ 31"] sint32_range [of v]
    by (simp add: abs_less_iff)
  have 3: "scale_slot (sint k) (double_of_int (sint v div sint c))
             = double_of_int (sint v div (sint c * sint k))"
    using integral_part_double_of_int [OF r] floor_div_twice [OF k, of "sint v" "sint c"]
    by (simp add: scale_slot_def floor_div_def)
  show ?thesis using False 1 2 3 by (simp add: warp_distance_offset_elt_def v_def)
qed


lemma offset_elt_scale:
  assumes "0 < sint k" "slot_fits 31 (sint k) (warp_distance_offset_elt off 1 elt)"
  shows "warp_distance_offset_elt off k elt
           = scale_slot (sint k) (warp_distance_offset_elt off 1 elt)"
  using assms unfolding warp_distance_offset_elt_def by (rule guarded_emit32)

lemma int_date_scaled32_scale:
  assumes "0 < sint k" "slot_fits 31 (sint k) (int_date_scaled32 c off 1 elt)"
  shows "int_date_scaled32 c off k elt = scale_slot (sint k) (int_date_scaled32 c off 1 elt)"
  using assms unfolding int_date_scaled32_def by (rule guarded_emit32)

lemma dbl_date_scaled32_scale:
  assumes "0 < sint k" "slot_fits 31 (sint k) (dbl_date_scaled32 c off 1 x)"
  shows "dbl_date_scaled32 c off k x = scale_slot (sint k) (dbl_date_scaled32 c off 1 x)"
  using assms unfolding dbl_date_scaled32_def by (rule guarded_emit32)

lemma int_date_scaled64_scale:
  assumes "0 < sint k" "slot_fits 63 (sint k) (int_date_scaled64 c off 1 elt)"
  shows "int_date_scaled64 c off k elt = scale_slot (sint k) (int_date_scaled64 c off 1 elt)"
  using assms unfolding int_date_scaled64_def by (rule guarded_emit64)

lemma dbl_date_scaled64_scale:
  assumes "0 < sint k" "slot_fits 63 (sint k) (dbl_date_scaled64 c off 1 x)"
  shows "dbl_date_scaled64 c off k x = scale_slot (sint k) (dbl_date_scaled64 c off 1 x)"
  using assms unfolding dbl_date_scaled64_def by (rule guarded_emit64)

lemma int_posixct_unit64_scale:
  assumes "0 < sint k" "slot_fits 63 (sint k) (int_posixct_unit64 c off 1 elt)"
  shows "int_posixct_unit64 c off k elt = scale_slot (sint k) (int_posixct_unit64 c off 1 elt)"
  using assms unfolding int_posixct_unit64_def by (rule guarded_emit64)

lemma dbl_posixct_unit64_scale:
  assumes "0 < sint k" "slot_fits 63 (sint k) (dbl_posixct_unit64 c off 1 x)"
  shows "dbl_posixct_unit64 c off k x = scale_slot (sint k) (dbl_posixct_unit64 c off 1 x)"
  using assms unfolding dbl_posixct_unit64_def by (rule guarded_emit64)

lemma int_posixct_second_scale:
  assumes "0 < sint k" "slot_fits 63 (sint k) (int_posixct_second_elt off 1 elt)"
  shows "int_posixct_second_elt off k elt
           = scale_slot (sint k) (int_posixct_second_elt off 1 elt)"
  using assms unfolding int_posixct_second_elt_def by (rule guarded_emit64)

lemma dbl_posixct_second_scale:
  assumes "0 < sint k" "slot_fits 63 (sint k) (dbl_posixct_second_elt off 1 x)"
  shows "dbl_posixct_second_elt off k x = scale_slot (sint k) (dbl_posixct_second_elt off 1 x)"
  using assms unfolding dbl_posixct_second_elt_def by (rule guarded_emit64)

lemma int_posixct_millisecond_scale:
  assumes "0 < sint k" "slot_fits 63 (sint k) (int_posixct_millisecond_elt off 1 elt)"
  shows "int_posixct_millisecond_elt off k elt
           = scale_slot (sint k) (int_posixct_millisecond_elt off 1 elt)"
  using assms unfolding int_posixct_millisecond_elt_def by (rule guarded_emit64)

lemma dbl_posixct_millisecond_scale:
  assumes "0 < sint k" "slot_fits 63 (sint k) (dbl_posixct_millisecond_elt off 1 x)"
  shows "dbl_posixct_millisecond_elt off k x
           = scale_slot (sint k) (dbl_posixct_millisecond_elt off 1 x)"
  using assms unfolding dbl_posixct_millisecond_elt_def by (rule guarded_emit64)

lemma int_posixct_warp_distance_second_scale:
  assumes k: "0 < sint k"
    and one: "int_posixct_warp_distance_second U x 1 origin = Inr out1"
    and fits: "\<forall>d \<in> set out1. slot_fits 63 (sint k) d"
  shows "int_posixct_warp_distance_second U x k origin = Inr (map (scale_slot (sint k)) out1)"
proof (cases "offset_of_origin (origin_to_seconds_from_epoch U) origin")
  case (Inl err)
  then show ?thesis using one by (simp add: int_posixct_warp_distance_second_def then_do_def)
next
  case (Inr off)
  then have o: "out1 = map (int_posixct_second_elt off 1) (INTEGER x)"
    using one by (simp add: int_posixct_warp_distance_second_def then_do_def)
  have "int_posixct_second_elt off k elt
          = scale_slot (sint k) (int_posixct_second_elt off 1 elt)"
    if "elt \<in> set (INTEGER x)" for elt
    using that fits o by (intro int_posixct_second_scale [OF k]) simp
  then show ?thesis
    using Inr o by (simp add: int_posixct_warp_distance_second_def then_do_def)
qed

section \<open>Running the functions on Dates\<close>

lemma date_day_offsets_int: "date_day_offsets (INTSXP a xs) = xs"
proof -
  have "(if R_FINITE (if d = NA_INTEGER then NA_REAL else double_of_int32 d)
         then int32_of_double (if d = NA_INTEGER then NA_REAL else double_of_int32 d)
         else NA_INTEGER) = d" for d
    using double_of_int_finite [OF sint32_abs(2), of d] int32_of_double_of_int32 [of d]
    by (simp add: double_of_int32_def)
  then show ?thesis by (simp add: date_day_offsets_def date_days_def o_def map_idI)
qed

lemma date_utils_simps:
  "time_class_type date_utils = date_time_class_type"
  "get_origin_epoch_in_time_zone date_utils x = INTSXP [(''class'', [''Date''])] [0]"
  "convert_time_zone date_utils x origin = x"
  "convert_days_to_components date_utils = date_components"
  "get_origin_yday_components date_utils (INTSXP a (d # ds))
     = \<lparr>yc_year_offset = wc_year_offset (date_components d),
        yc_yday = wc_yday (date_components d)\<rparr>"
  "as_date date_utils x = REALSXP [(''class'', [''Date''])] (date_days x)"
  by (simp_all add: date_utils_def date_day_offsets_int Let_def)

lemma date_class:
  "date_time_class_type (INTSXP [(''class'', [''Date''])] xs) = warp_class_date"
  "date_time_class_type (REALSXP [(''class'', [''Date''])] ys) = warp_class_date"
  by (simp_all add: date_time_class_type_def class_of_def)

lemma date_components_0:
  "date_components 0 = \<lparr>wc_year_offset = 0, wc_month = 0, wc_day = 1, wc_yday = 0\<rparr>"
  by code_simp

lemma date_components_365:
  "date_components 365 = \<lparr>wc_year_offset = 1, wc_month = 0, wc_day = 1, wc_yday = 0\<rparr>"
  by code_simp

lemma date_components_m1:
  "date_components (- 1)
     = \<lparr>wc_year_offset = - 1, wc_month = 11, wc_day = 31, wc_yday = 364\<rparr>"
  by code_simp

lemma yday_prologue_epoch:
  "yday_prologue date_utils every (INTSXP [(''class'', [''Date''])] [0])
     = \<lparr>s_units_in_non_leap_year = c_div32 (365 - 1) every + 1,
        s_units_in_leap_year = c_div32 (366 - 1) every + 1,
        s_origin_year_offset = 0, s_origin_yday = 0, s_origin_leap = False\<rparr>"
proof -
  have "is_leap_year (0 + 1970) = False" by code_simp
  then show ?thesis by (simp add: yday_prologue_def date_utils_simps date_components_0)
qed

lemma validate_every_ok:
  "every \<noteq> NA_INTEGER \<Longrightarrow> \<not> every \<le>s 0 \<Longrightarrow> validate_every every = Inr ()"
  by (simp add: validate_every_def)

lemma one_valid: "(1 :: int32) \<noteq> NA_INTEGER" "\<not> (1 :: int32) \<le>s 0"
  by (simp_all add: NA_INTEGER_def word_sle_eq)

lemma warp_distance_yday_int_date:
  assumes "every \<noteq> NA_INTEGER" "\<not> every \<le>s 0"
  shows "warp_distance date_utils (INTSXP [(''class'', [''Date''])] xs) warp_period_yday every
           R_NilValue
         = Inr (map (int_date_yday_elt date_utils
                       (yday_prologue date_utils every (INTSXP [(''class'', [''Date''])] [0]))
                       every) xs)"
  using assms
  by (simp add: warp_distance_def validate_origin_def validate_every_def then_do_def
      date_utils_simps date_class warp_distance_yday_def by_class_def
      date_warp_distance_yday_def by_storage_def int_date_warp_distance_yday_def)

section \<open>Day counts scaled below the day\<close>

text \<open>
  Where the element is widened first, as in \<open>int_date_warp_distance_second\<close> and
  \<open>_millisecond\<close>, the offset is the exact product for every day count and origin.
\<close>

lemma sint64_mult:
  "- (2 ^ 63) \<le> sint a * sint b \<Longrightarrow> sint a * sint b < 2 ^ 63 \<Longrightarrow>
   sint (a * b :: int64) = sint a * sint b"
  by (simp add: sint_word_mult signed_take_bit_int_eq_self)

lemma int_date_scaled64_exact:
  assumes "x_elt \<noteq> NA_INTEGER" "sint units_in_day = k" "0 \<le> k" "k \<le> 86400000"
  shows "int_date_scaled64 units_in_day off 1 x_elt
           = double_of_int ((sint x_elt - origin_units off) * k)"
proof -
  note r = sint32_range [of x_elt]
  have o: "- (2 ^ 31) \<le> origin_units off \<and> origin_units off < 2 ^ 31"
    using sint32_range by (cases off) (simp_all add: origin_units_def)
  have ou: "origin_units (map_option scast off :: int64 option) = origin_units off"
    by (cases off) (simp_all add: origin_units_def sint_scast_32_64)
  have s: "sint (sub_offset (map_option scast off) (scast x_elt :: int64))
             = sint x_elt - origin_units off"
    using r o sub_offset_sint64 [of "scast x_elt" "map_option scast off"]
    by (simp add: ou sint_scast_32_64)
  have b1: "(sint x_elt - origin_units off) * k \<le> 2 ^ 32 * 86400000"
    using r o assms by (intro mult_mono) simp_all
  have b2: "- (2 ^ 32 * 86400000) \<le> (sint x_elt - origin_units off) * k"
  proof -
    have "(origin_units off - sint x_elt) * k \<le> 2 ^ 32 * 86400000"
      using r o assms by (intro mult_mono) simp_all
    then show ?thesis by (simp add: algebra_simps)
  qed
  have m: "sint (sub_offset (map_option scast off) (scast x_elt :: int64) * units_in_day)
             = (sint x_elt - origin_units off) * k"
    using b1 b2 s assms by (subst sint64_mult) simp_all
  show ?thesis using assms m by (simp add: int_date_scaled64_def emit64_def double_of_int64_def)
qed

text \<open>
  Claim C4. The day count is not widened before the multiplication everywhere:
  \<open>int_date_warp_distance_minute\<close> (and \<open>_hour\<close>) multiplies an \<open>int\<close>, and
  \<open>int_date_warp_chunk_second\<close> widens the product of two \<open>int\<close>s. On the day counts
  1491309 and 24856 (2038-01-20) the products 2147484960 and 2147558400 wrap around;
  \<open>int_date_warp_distance_second\<close> computes the second one exactly.
\<close>

theorem int_date_sub_day_overflow:
  "int_date_warp_distance_minute U (INTSXP a [1491309]) 1 R_NilValue
     = Inr [double_of_int (- 2147482336)]
   \<and> int_date_warp_chunk_second U (INTSXP a [24856]) 1 R_NilValue
     = Inr [double_of_int (- 2147408896)]
   \<and> int_date_warp_distance_second U (INTSXP a [24856]) 1 R_NilValue
     = Inr [double_of_int 2147558400]
   \<and> (1491309 :: int) * 1440 = 2147484960 \<and> (24856 :: int) * 86400 = 2147558400"
proof -
  have 1: "int_date_scaled32 1440 None 1 1491309 = double_of_int (- 2147482336)"
    by (simp add: int_date_scaled32_def NA_INTEGER_def emit32_def double_of_int32_def
        sub_offset_def)
  have 2: "int_date_chunk_second_elt None 1 24856 = double_of_int (- 2147408896)"
    by (simp add: int_date_chunk_second_elt_def NA_INTEGER_def emit64_def double_of_int64_def)
  have 3: "int_date_scaled64 86400 None 1 24856 = double_of_int 2147558400"
    by (simp add: int_date_scaled64_def NA_INTEGER_def emit64_def double_of_int64_def
        sub_offset_def)
  show ?thesis
    using 1 2 3
    by (simp add: int_date_warp_distance_minute_def int_date_warp_chunk_second_def
        int_date_warp_distance_second_def then_do_def offset_of_origin_def)
qed

section \<open>Dates with a fraction\<close>

lemma sdiv_toward_zero:
  fixes m :: int and k :: nat
  shows "m sdiv 2 ^ k = toward_zero (of_int m / 2 ^ k)"
proof (cases "m < 0")
  case True
  have "(of_int m / 2 ^ k :: rat) = of_int m / of_int (2 ^ k)" by simp
  then have c: "\<lceil>of_int m / 2 ^ k :: rat\<rceil> = - (- m div 2 ^ k)"
    by (simp only: ceiling_divide_eq_div)
  have n: "(of_int m / 2 ^ k :: rat) < 0" using True by (simp add: divide_neg_pos)
  have "m sdiv 2 ^ k = - ((- m) div 2 ^ k)"
    using True by (simp add: signed_divide_int_def sgn_if)
  then show ?thesis using c n by (simp add: toward_zero_def)
next
  case False
  have "(of_int m / 2 ^ k :: rat) = of_int m / of_int (2 ^ k)" by simp
  then have f: "\<lfloor>of_int m / 2 ^ k :: rat\<rfloor> = m div 2 ^ k"
    by (simp only: floor_divide_of_int_eq)
  have n: "\<not> (of_int m / 2 ^ k :: rat) < 0" using False by (simp add: not_less)
  have "m sdiv 2 ^ k = m div 2 ^ k"
    using False by (simp add: signed_divide_int_def sgn_if)
  then show ?thesis using f n by (simp add: toward_zero_def)
qed

lemma div_floor_value:
  fixes m :: int and k :: nat
  shows "m div 2 ^ k = \<lfloor>of_int m / 2 ^ k :: rat\<rfloor>"
proof -
  have "(of_int m / 2 ^ k :: rat) = of_int m / of_int (2 ^ k)" by simp
  then show ?thesis by (simp only: floor_divide_of_int_eq)
qed

lemma toward_zero_of_int: "toward_zero (of_int n) = n"
  unfolding toward_zero_def by (simp only: floor_of_int ceiling_of_int if_cancel)

lemma dvalue_whole: "0 \<le> e \<Longrightarrow> dvalue (Finite m e) = of_int (m * 2 ^ nat e)"
  by (simp add: dvalue_def)

lemma integral_part_toward_zero:
  "integral_part (Finite m e) = Some (toward_zero (dvalue (Finite m e)))"
proof (cases "0 \<le> e")
  case True
  then show ?thesis by (simp only: dvalue_whole toward_zero_of_int integral_part.simps if_True)
next
  case False
  then show ?thesis using sdiv_toward_zero [of m "nat (- e)"] by (simp add: dvalue_def)
qed

lemma int32_of_double_toward_zero:
  assumes "\<bar>dvalue (Finite m e)\<bar> < 2 ^ 31"
  shows "int32_of_double (Finite m e) = word_of_int (toward_zero (dvalue (Finite m e)))"
proof -
  let ?r = "dvalue (Finite m e)"
  have a: "- (2 ^ 31) < ?r" "?r < 2 ^ 31" using assms by (simp_all add: abs_less_iff)
  have "- (2 ^ 31) \<le> toward_zero ?r \<and> toward_zero ?r < 2 ^ 31"
  proof (cases "?r < 0")
    case True
    have "\<lceil>?r\<rceil> \<le> 0" using True by (simp add: ceiling_le_iff)
    moreover have "- (2 ^ 31) \<le> \<lceil>?r\<rceil>"
    proof -
      have "of_int (- (2 ^ 31)) \<le> ?r" using a by simp
      then have "- (2 ^ 31) \<le> \<lfloor>?r\<rfloor>" by (simp only: le_floor_iff)
      then show ?thesis using floor_le_ceiling [of ?r] by linarith
    qed
    ultimately show ?thesis using True by (simp add: toward_zero_def)
  next
    case False
    then have "0 \<le> \<lfloor>?r\<rfloor>" by simp
    moreover have "\<lfloor>?r\<rfloor> < 2 ^ 31"
    proof -
      have "?r < of_int (2 ^ 31)" using a by simp
      then show ?thesis by (simp only: floor_less_iff)
    qed
    ultimately show ?thesis using False by (simp add: toward_zero_def)
  qed
  then show ?thesis
    using integral_part_toward_zero [of m e] by (simp add: int32_of_double_def)
qed

lemma int32_of_double_c_floor:
  assumes "\<bar>dvalue (Finite m e)\<bar> < 2 ^ 31"
  shows "int32_of_double (c_floor (Finite m e)) = word_of_int \<lfloor>dvalue (Finite m e)\<rfloor>"
proof -
  let ?r = "dvalue (Finite m e)"
  have a: "- (2 ^ 31) < ?r" "?r < 2 ^ 31" using assms by (simp_all add: abs_less_iff)
  have "of_int (- (2 ^ 31)) \<le> ?r" using a by simp
  then have lo: "- (2 ^ 31) \<le> \<lfloor>?r\<rfloor>" by (simp only: le_floor_iff)
  have "?r < of_int (2 ^ 31)" using a by simp
  then have hi: "\<lfloor>?r\<rfloor> < 2 ^ 31" by (simp only: floor_less_iff)
  show ?thesis
  proof (cases "0 \<le> e")
    case True
    then have "c_floor (Finite m e) = Finite m e" "\<lfloor>?r\<rfloor> = m * 2 ^ nat e"
      by (simp, simp only: dvalue_whole floor_of_int)
    then show ?thesis using lo hi True by (simp add: int32_of_double_def)
  next
    case False
    then have v: "\<lfloor>?r\<rfloor> = m div 2 ^ nat (- e)"
      using div_floor_value [of m "nat (- e)"] by (simp add: dvalue_def)
    have s: "\<bar>m div 2 ^ nat (- e)\<bar> < 2 ^ 53" using lo hi v by (simp add: abs_less_iff)
    show ?thesis
      using False v lo hi integral_part_double_of_int [OF s]
      by (simp add: int32_of_double_def)
  qed
qed

lemma dvalue_sign: "dvalue (Finite m e) < 0 \<longleftrightarrow> m < 0"
  by (simp add: dvalue_def divide_less_0_iff mult_less_0_iff)

lemma minus_three_halves:
  "double_of_ratio (- 3) 2 = Finite (- 6755399441055744) (- 52)"
  by code_simp

lemma dvalue_minus_three_halves: "dvalue (Finite (- 6755399441055744) (- 52)) = - 3 / 2"
  by (simp add: dvalue_def)

lemma date_components_m2:
  "date_components (- 2)
     = \<lparr>wc_year_offset = - 1, wc_month = 11, wc_day = 30, wc_yday = 363\<rparr>"
  by code_simp

lemma warp_distance_yday_dbl_date:
  assumes "every \<noteq> NA_INTEGER" "\<not> every \<le>s 0"
  shows "warp_distance date_utils (REALSXP [(''class'', [''Date''])] xs) warp_period_yday every
           R_NilValue
         = Inr (map (dbl_date_yday_elt date_utils
                       (yday_prologue date_utils every (INTSXP [(''class'', [''Date''])] [0]))
                       every) xs)"
  using assms
  by (simp add: warp_distance_def validate_origin_def validate_every_def then_do_def
      date_utils_simps date_class warp_distance_yday_def by_class_def
      date_warp_distance_yday_def by_storage_def dbl_date_warp_distance_yday_def)

text \<open>
  Claim C5, as the sources have it. A Date stored as a finite double, of a magnitude
  below \<open>2\<^sup>3\<^sup>1\<close> days: the year-day loop of distance.c (hence the year-week one) takes
  the day count with the fraction cut off towards zero (\<open>int elt = x_elt\<close>), and goes
  on as the loop on integers does from that day; the day loop of chunk.c takes the
  floor, towards minus infinity.
\<close>

theorem fractional_dates:
  assumes "\<bar>dvalue (Finite m e)\<bar> < 2 ^ 31"
  shows
    "dbl_date_yday_elt U S every (Finite m e)
       = (let d = word_of_int (toward_zero (dvalue (Finite m e)));
              components = convert_days_to_components U d
          in yday_distance_of S every d (wc_year_offset components) (wc_yday components))
     \<and> dbl_date_chunk_day_elt None 1 (Finite m e) = word_of_int \<lfloor>dvalue (Finite m e)\<rfloor>"
proof
  show "dbl_date_yday_elt U S every (Finite m e)
       = (let d = word_of_int (toward_zero (dvalue (Finite m e)));
              components = convert_days_to_components U d
          in yday_distance_of S every d (wc_year_offset components) (wc_yday components))"
    using int32_of_double_toward_zero [OF assms] by (simp add: dbl_date_yday_elt_def Let_def)
  show "dbl_date_chunk_day_elt None 1 (Finite m e) = word_of_int \<lfloor>dvalue (Finite m e)\<rfloor>"
  proof (cases "m < 0")
    case True
    then show ?thesis
      using int32_of_double_c_floor [OF assms] by (simp add: dbl_date_chunk_day_elt_def)
  next
    case False
    then have "toward_zero (dvalue (Finite m e)) = \<lfloor>dvalue (Finite m e)\<rfloor>"
      using dvalue_sign [of m e] by (simp add: toward_zero_def)
    then show ?thesis
      using False int32_of_double_toward_zero [OF assms]
      by (simp add: dbl_date_chunk_day_elt_def)
  qed
qed

text \<open>
  Claim C5 as stated fails in the year-day loop of distance.c: from the epoch, the Date
  \<open>- 1.5\<close> is at the distance \<open>- 1\<close> of the day \<open>- 1\<close>, not at the distance \<open>- 2\<close> of the
  day \<open>- 2\<close>.
\<close>

theorem fractional_date_counterexample:
  "warp_distance date_utils (REALSXP [(''class'', [''Date''])] [double_of_ratio (- 3) 2])
       warp_period_yday 1 R_NilValue
     = Inr [double_of_int (- 1)]
   \<and> dvalue (double_of_ratio (- 3) 2) = - 3 / 2
   \<and> warp_distance date_utils (INTSXP [(''class'', [''Date''])] [- 1]) warp_period_yday 1
         R_NilValue
     = Inr [double_of_int (- 1)]
   \<and> warp_distance date_utils (INTSXP [(''class'', [''Date''])] [- 2]) warp_period_yday 1
         R_NilValue
     = Inr [double_of_int (- 2)]"
proof -
  have c1: "compute_yday_distance (- 1) (- 1) 364 0 0 False (c_div32 (366 - 1) 1 + 1)
              (c_div32 (365 - 1) 1 + 1) 1 = - 1"
    by code_simp
  have c2: "compute_yday_distance (- 2) (- 1) 363 0 0 False (c_div32 (366 - 1) 1 + 1)
              (c_div32 (365 - 1) 1 + 1) 1 = - 2"
    by code_simp
  have t: "int32_of_double (Finite (- 6755399441055744) (- 52)) = - 1"
    by code_simp
  have na: "(- 1 :: int32) \<noteq> NA_INTEGER" "(- 2 :: int32) \<noteq> NA_INTEGER"
    by (simp_all add: NA_INTEGER_def)
  have 1: "warp_distance date_utils (REALSXP [(''class'', [''Date''])] [double_of_ratio (- 3) 2])
             warp_period_yday 1 R_NilValue = Inr [double_of_int (- 1)]"
    using c1 t
    by (simp add: warp_distance_yday_dbl_date one_valid yday_prologue_epoch
        dbl_date_yday_elt_def yday_distance_of_def date_utils_simps date_components_m1
        double_of_int32_def minus_three_halves)
  have 2: "dvalue (double_of_ratio (- 3) 2) = - 3 / 2"
    by (simp only: minus_three_halves dvalue_minus_three_halves)
  have 3: "warp_distance date_utils (INTSXP [(''class'', [''Date''])] [- 1]) warp_period_yday 1
             R_NilValue = Inr [double_of_int (- 1)]"
    using c1 na
    by (simp add: warp_distance_yday_int_date one_valid yday_prologue_epoch
        int_date_yday_elt_def yday_distance_of_def date_utils_simps date_components_m1
        double_of_int32_def)
  have 4: "warp_distance date_utils (INTSXP [(''class'', [''Date''])] [- 2]) warp_period_yday 1
             R_NilValue = Inr [double_of_int (- 2)]"
    using c2 na
    by (simp add: warp_distance_yday_int_date one_valid yday_prologue_epoch
        int_date_yday_elt_def yday_distance_of_def date_utils_simps date_components_m2
        double_of_int32_def)
  show ?thesis using 1 2 3 4 by (intro conjI)
qed

theorem fractional_dates_witness:
  "dbl_date_yday_elt date_utils
       (yday_prologue date_utils 1 (INTSXP [(''class'', [''Date''])] [0])) 1
       (Finite (- 6755399441055744) (- 52))
     = double_of_int (- 1)
   \<and> dbl_date_chunk_day_elt None 1 (Finite (- 6755399441055744) (- 52)) = - 2"
proof -
  have v: "dvalue (Finite (- 6755399441055744) (- 52)) = - 3 / 2"
    by (rule dvalue_minus_three_halves)
  have h: "\<bar>dvalue (Finite (- 6755399441055744) (- 52))\<bar> < 2 ^ 31"
    by (simp add: v)
  have f: "\<lfloor>- (3 / 2) :: rat\<rfloor> = - 2" by (rule floor_unique) simp_all
  have c: "\<lceil>- (3 / 2) :: rat\<rceil> = - 1" by (rule ceiling_unique) simp_all
  have z: "toward_zero (- (3 / 2)) = - 1" "\<lfloor>- (3 / 2) :: rat\<rfloor> = - 2"
    using f c by (simp_all add: toward_zero_def)
  have c1: "compute_yday_distance (- 1) (- 1) 364 0 0 False (c_div32 (366 - 1) 1 + 1)
              (c_div32 (365 - 1) 1 + 1) 1 = - 1"
    by code_simp
  note t = fractional_dates [OF h, of date_utils
      "yday_prologue date_utils 1 (INTSXP [(''class'', [''Date''])] [0])" 1]
  have 1: "dbl_date_yday_elt date_utils
       (yday_prologue date_utils 1 (INTSXP [(''class'', [''Date''])] [0])) 1
       (Finite (- 6755399441055744) (- 52)) = double_of_int (- 1)"
    using t c1
    by (simp add: v z yday_prologue_epoch yday_distance_of_def date_utils_simps
        date_components_m1 double_of_int32_def)
  have 2: "dbl_date_chunk_day_elt None 1 (Finite (- 6755399441055744) (- 52)) = - 2"
    using t by (simp add: v z)
  show ?thesis using 1 2 by (intro conjI)
qed

section \<open>The slots of the output\<close>

lemma emit32_integer: "is_integer_valued (emit32 every v)"
  using double_of_int_integer_valued [OF sint32_abs(2)]
  by (simp add: emit32_def double_of_int32_def)

lemma emit64_integer: "is_integer_valued (emit64 every v)"
  using double_of_int_integer_valued [OF sint64_abs]
  by (simp add: emit64_def double_of_int64_def)

lemma yday_distance_of_integer: "is_integer_valued (yday_distance_of S every d yo yd)"
  using double_of_int_integer_valued [OF sint32_abs(2)]
  by (simp add: yday_distance_of_def double_of_int32_def)

lemma slot_ok_bodies:
  "slot_ok (warp_distance_offset_elt off32 every elt) (elt = NA_INTEGER)"
  "slot_ok (int_date_scaled32 c32 off32 every elt) (elt = NA_INTEGER)"
  "slot_ok (dbl_date_scaled32 c32 off32 every x) (\<not> R_FINITE x)"
  "slot_ok (int_date_scaled64 c64 off32 every elt) (elt = NA_INTEGER)"
  "slot_ok (dbl_date_scaled64 c64 off32 every x) (\<not> R_FINITE x)"
  "slot_ok (int_posixct_unit64 c64 off64 every elt) (elt = NA_INTEGER)"
  "slot_ok (dbl_posixct_unit64 c64 off64 every x) (\<not> R_FINITE x)"
  "slot_ok (int_posixct_second_elt off64 every elt) (elt = NA_INTEGER)"
  "slot_ok (dbl_posixct_second_elt off64 every x) (\<not> R_FINITE x)"
  "slot_ok (int_posixct_millisecond_elt off64 every elt) (elt = NA_INTEGER)"
  "slot_ok (dbl_posixct_millisecond_elt off64 every x) (\<not> R_FINITE x)"
  "slot_ok (posixlt_yday_elt S every elt yd) (elt = NA_INTEGER)"
  "slot_ok (int_date_yday_elt U S every elt) (elt = NA_INTEGER)"
  "slot_ok (dbl_date_yday_elt U S every x) (\<not> R_FINITE x)"
  by (simp_all add: slot_ok_def warp_distance_offset_elt_def int_date_scaled32_def
      dbl_date_scaled32_def int_date_scaled64_def dbl_date_scaled64_def int_posixct_unit64_def
      dbl_posixct_unit64_def int_posixct_second_elt_def dbl_posixct_second_elt_def
      int_posixct_millisecond_elt_def dbl_posixct_millisecond_elt_def posixlt_yday_elt_def
      int_date_yday_elt_def dbl_date_yday_elt_def Let_def emit32_integer emit64_integer
      yday_distance_of_integer)

section \<open>Validation of the origin\<close>

lemma dbl_eq_NA_REAL: "dbl_eq x NA_REAL = False"
  by (cases x) simp_all

lemma origin_conversions_never_raise:
  "origin_to_days_from_epoch U origin = Inr (int32_of_double (REAL (as_date U origin) ! 0))"
  "origin_to_seconds_from_epoch U origin = Inr (guarded_floor (REAL (as_datetime U origin) ! 0))"
  "origin_to_milliseconds_from_epoch U origin
     = Inr (guarded_floor_to_millisecond (REAL (as_datetime U origin) ! 0))"
  by (simp_all add: origin_to_days_from_epoch_def origin_to_seconds_from_epoch_def
      origin_to_milliseconds_from_epoch_def dbl_eq_NA_REAL)

text \<open>
  Claim C8. A missing origin is to raise an error. The three conversions of the origin
  below the day compare the double they read with \<open>NA_REAL\<close> by \<open>==\<close>, which no value
  satisfies, so that none of them ever raises: \<open>warp_distance\<close> by hours of the Date
  1970-01-01 from the origin \<open>NA\<close> returns a distance (computed from what the conversion
  of a NaN to \<open>int\<close> leaves), where by days, through the test of \<open>warp_distance_day\<close>
  against \<open>NA_INTEGER\<close>, it raises.
\<close>

theorem origin_NA_not_detected:
  "origin_to_days_from_epoch U origin = Inr (int32_of_double (REAL (as_date U origin) ! 0))
   \<and> origin_to_seconds_from_epoch U origin
       = Inr (guarded_floor (REAL (as_datetime U origin) ! 0))
   \<and> origin_to_milliseconds_from_epoch U origin
       = Inr (guarded_floor_to_millisecond (REAL (as_datetime U origin) ! 0))
   \<and> warp_distance date_utils (INTSXP [(''class'', [''Date''])] [0]) warp_period_hour 1
         (REALSXP [(''class'', [''Date''])] [NA_REAL])
       = Inr [double_of_int 0]
   \<and> warp_distance date_utils (INTSXP [(''class'', [''Date''])] [0]) warp_period_day 1
         (REALSXP [(''class'', [''Date''])] [NA_REAL])
       = Inl (R_error ''warp_distance_day'' ''`origin` cannot be `NA`'')"
proof -
  have na: "(0 :: int32) \<noteq> NA_INTEGER" by (simp add: NA_INTEGER_def)
  have c: "c_floor NA_REAL = NA_REAL" by simp
  have h: "warp_distance date_utils (INTSXP [(''class'', [''Date''])] [0]) warp_period_hour 1
         (REALSXP [(''class'', [''Date''])] [NA_REAL]) = Inr [double_of_int 0]"
    using na
    by (simp add: warp_distance_def validate_origin_def validate_every_ok one_valid then_do_def
        date_utils_simps date_class warp_distance_hour_def by_class_def
        date_warp_distance_hour_def by_storage_def int_date_warp_distance_hour_def
        offset_of_origin_def origin_conversions_never_raise date_days_def
        int_date_scaled32_def emit32_def sub_offset_def int32_of_double_def
        double_of_int32_def)
  have d: "warp_distance date_utils (INTSXP [(''class'', [''Date''])] [0]) warp_period_day 1
         (REALSXP [(''class'', [''Date''])] [NA_REAL])
       = Inl (R_error ''warp_distance_day'' ''`origin` cannot be `NA`'')"
    by (simp add: warp_distance_def validate_origin_def validate_every_ok one_valid then_do_def
        date_utils_simps date_class warp_distance_day_def offset_of_origin_def
        origin_offset_int_def date_utils_def over_days_def date_day_offsets_def date_days_def)
  show ?thesis using origin_conversions_never_raise [of U origin] h d by (simp only: simp_thms)
qed

section \<open>The guarded conversions\<close>

lemma powers_of_ten:
  "double_of_ratio (10 ^ 6) 1 = dbl_1e6" "double_of_ratio (10 ^ 3) 1 = dbl_1e3"
  "double_of_ratio 1 (10 ^ 6) = dbl_1em6" "double_of_ratio 1 (10 ^ 7) = dbl_1em7"
  by (simp_all add: dbl_1e6_def dbl_1e3_def dbl_1em6_def dbl_1em7_def) code_simp+

lemma guarded_floor_refines: "guarded_floor x = guarded_floor_spec x"
  unfolding guarded_floor_def guarded_floor_spec_def guard_steps_spec_def powers_of_ten
    Let_def
  by (rule refl)

lemma guarded_floor_to_millisecond_refines:
  "guarded_floor_to_millisecond x = guarded_floor_to_millisecond_spec x"
  unfolding guarded_floor_to_millisecond_def guarded_floor_to_millisecond_spec_def
    guard_steps_spec_def powers_of_ten Let_def
  by (rule refl)

text \<open>
  Claim C7. \<open>guarded_floor\<close> and \<open>guarded_floor_to_millisecond\<close> are the steps of the
  specification. The double nearest to \<open>- 0.002\<close> is \<open>- 4611686018427388 * 2\<^sup>-\<^sup>6\<^sup>1\<close>
  (half a unit in the last place is \<open>2\<^sup>-\<^sup>6\<^sup>2\<close>), and its conversion to milliseconds is
  \<open>- 2\<close>. The double \<open>- 0.002000000000002444267\<close> that the source comment reports as
  stored converts to \<open>- 2\<close> as well, where the floor of its product by \<open>10\<^sup>3\<close> alone is
  \<open>- 3\<close>.
\<close>

theorem guarded_floor_steps:
  "guarded_floor x = guarded_floor_spec x
   \<and> guarded_floor_to_millisecond x = guarded_floor_to_millisecond_spec x
   \<and> double_of_ratio (- 2) 1000 = Finite (- 4611686018427388) (- 61)
   \<and> \<bar>(- 4611686018427388) / 2 ^ 61 - (- 2 / 1000 :: rat)\<bar> \<le> 1 / 2 ^ 62
   \<and> sint (guarded_floor_to_millisecond (double_of_ratio (- 2) 1000)) = - 2
   \<and> double_of_ratio (- 2000000000002444267) (10 ^ 21) = Finite (- 4611686018433024) (- 61)
   \<and> sint (guarded_floor_to_millisecond (Finite (- 4611686018433024) (- 61))) = - 2
   \<and> sint (int64_of_double (c_floor (dmul (Finite (- 4611686018433024) (- 61)) dbl_1e3)))
       = - 3"
proof -
  have n: "double_of_ratio (- 2) 1000 = Finite (- 4611686018427388) (- 61)"
    by code_simp
  have h: "\<bar>(- 4611686018427388) / 2 ^ 61 - (- 2 / 1000 :: rat)\<bar> \<le> 1 / 2 ^ 62"
    by simp
  have m: "sint (guarded_floor_to_millisecond (Finite (- 4611686018427388) (- 61))) = - 2"
    by code_simp
  have s: "double_of_ratio (- 2000000000002444267) (10 ^ 21)
             = Finite (- 4611686018433024) (- 61)"
    by code_simp
  have g: "sint (guarded_floor_to_millisecond (Finite (- 4611686018433024) (- 61))) = - 2"
    by code_simp
  have u: "sint (int64_of_double (c_floor (dmul (Finite (- 4611686018433024) (- 61)) dbl_1e3)))
             = - 3"
    by code_simp
  show ?thesis
    using guarded_floor_refines [of x] guarded_floor_to_millisecond_refines [of x] n h m s g u
    by (simp only: simp_thms)
qed

section \<open>Properties of ranges.c\<close>

lemma compute_starts_length: "length (compute_starts p_x sz) = sz"
  by (auto simp: compute_starts_def)

lemma compute_starts_first: "0 < sz \<Longrightarrow> compute_starts p_x sz ! 0 = double_of_int 1"
  by (auto simp: compute_starts_def)

lemma compute_starts_nth:
  "1 \<le> i \<Longrightarrow> i < sz \<Longrightarrow>
   compute_starts p_x sz ! i = dadd (p_x ! (i - 1)) (double_of_int 1)"
  by (cases i) (auto simp: compute_starts_def)

text \<open>
  Claim C9. The \<open>stop\<close> column of \<open>warp_ranges\<close> is the vector of the changes as it
  is; the \<open>start\<close> column has the same length, begins with 1, and its slot \<open>i \<ge> 1\<close> is
  the double sum of the stop before it and 1; no change gives two empty columns, one
  change gives \<open>start = [1]\<close>.
\<close>

theorem warp_ranges_round_trip:
  "stop (warp_ranges wc x) = wc x
   \<and> length (start (warp_ranges wc x)) = length (wc x)
   \<and> (wc x \<noteq> [] \<longrightarrow> start (warp_ranges wc x) ! 0 = double_of_int 1)
   \<and> (\<forall>i. 1 \<le> i \<and> i < length (wc x) \<longrightarrow>
          start (warp_ranges wc x) ! i =
            dadd (stop (warp_ranges wc x) ! (i - 1)) (double_of_int 1))
   \<and> (wc x = [] \<longrightarrow> start (warp_ranges wc x) = [] \<and> stop (warp_ranges wc x) = [])
   \<and> (length (wc x) = 1 \<longrightarrow> start (warp_ranges wc x) = [double_of_int 1])"
  by (simp add: warp_ranges_def Let_def compute_starts_length compute_starts_first
        compute_starts_nth)
    (simp add: compute_starts_def)

lemma dadd_2_1: "dadd (double_of_int 2) (double_of_int 1) = double_of_int 3"
  by code_simp

lemma dadd_5_1: "dadd (double_of_int 5) (double_of_int 1) = double_of_int 6"
  by code_simp

theorem warp_ranges_round_trip_witness:
  "stop (warp_ranges (\<lambda>u::unit. map double_of_int [2, 5, 6]) ()) = map double_of_int [2, 5, 6]
   \<and> start (warp_ranges (\<lambda>u::unit. map double_of_int [2, 5, 6]) ()) ! 0 = double_of_int 1
   \<and> start (warp_ranges (\<lambda>u::unit. map double_of_int [2, 5, 6]) ()) ! 1 = double_of_int 3
   \<and> start (warp_ranges (\<lambda>u::unit. map double_of_int [2, 5, 6]) ()) ! 2 = double_of_int 6"
proof -
  let ?wc = "\<lambda>u::unit. map double_of_int [2, 5, 6]"
  note t = warp_ranges_round_trip [of ?wc "()"]
  have s: "stop (warp_ranges ?wc ()) = map double_of_int [2, 5, 6]" using t by simp
  have a0: "start (warp_ranges ?wc ()) ! 0 = double_of_int 1" using t by simp
  have a1: "start (warp_ranges ?wc ()) ! 1
              = dadd (stop (warp_ranges ?wc ()) ! (1 - 1)) (double_of_int 1)"
    using t by simp
  have a2: "start (warp_ranges ?wc ()) ! 2
              = dadd (stop (warp_ranges ?wc ()) ! (2 - 1)) (double_of_int 1)"
    using t by simp
  show ?thesis using s a0 a1 a2 dadd_2_1 dadd_5_1 by simp
qed

section \<open>Whole numbers as doubles\<close>

lemma slot_fits_double_of_int:
  assumes "\<bar>u\<bar> < 2 ^ 53" "- (2 ^ w) \<le> u - (k - 1)"
  shows "slot_fits w k (double_of_int u)"
  using assms integral_part_double_of_int [OF assms(1)] by (simp add: slot_fits_def)

lemma slot_fits_NA [simp]: "slot_fits w k NA_REAL"
  by (simp add: slot_fits_def)

lemma not_integer_valued_NA [simp]: "\<not> is_integer_valued NA_REAL"
  by (simp add: is_integer_valued_def)

lemma origin_to_days_epoch:
  "origin_to_days_from_epoch date_utils (INTSXP [(''class'', [''Date''])] [0]) = Inr 0"
proof -
  have "(0 :: int32) \<noteq> NA_INTEGER" by (simp add: NA_INTEGER_def)
  then show ?thesis
    using int32_of_double_of_int32 [of 0]
    by (simp add: origin_conversions_never_raise date_utils_simps date_days_def)
qed

lemma warp_distance_hour_int_date:
  assumes "every \<noteq> NA_INTEGER" "\<not> every \<le>s 0"
  shows "warp_distance date_utils (INTSXP [(''class'', [''Date''])] xs) warp_period_hour every
           R_NilValue
         = Inr (map (int_date_scaled32 24 (Some 0) every) xs)"
  using assms
  by (simp add: warp_distance_def validate_origin_def validate_every_def then_do_def
      date_utils_simps date_class warp_distance_hour_def by_class_def
      date_warp_distance_hour_def by_storage_def int_date_warp_distance_hour_def
      offset_of_origin_def origin_to_days_epoch)

lemma integer_valued_Ints:
  assumes "is_integer_valued d"
  shows "dvalue d \<in> \<int>"
proof (cases d)
  case (Finite m e)
  show ?thesis
  proof (cases "0 \<le> e")
    case True
    then show ?thesis using Finite by (simp add: dvalue_def)
  next
    case False
    then have "2 ^ nat (- e) dvd m" using assms Finite by (simp add: is_integer_valued_def)
    then obtain c where c: "m = 2 ^ nat (- e) * c" by (auto simp: dvd_def)
    have "dvalue d = of_int c" using False Finite c by (simp add: dvalue_def)
    then show ?thesis by simp
  qed
qed (use assms in \<open>simp_all add: is_integer_valued_def\<close>)

lemma dvalue_scaled:
  "dvalue (Finite (n * 2 ^ k) (- int k)) = of_int n"
  by (cases "k = 0") (simp_all add: dvalue_def)

lemma dvalue_double_of_int:
  assumes "\<bar>n\<bar> < 2 ^ 53"
  shows "dvalue (double_of_int n) = of_int n"
proof (cases "n = 0")
  case True
  then show ?thesis by (simp add: double_of_int_def round_to_double_def dvalue_def)
next
  case False
  have b: "bitlen \<bar>n\<bar> \<le> 53" using bitlen_le_53 [of "\<bar>n\<bar>"] False assms by simp
  define k where "k = nat (53 - bitlen \<bar>n\<bar>)"
  have e: "bitlen \<bar>n\<bar> - 53 = - int k" using b by (simp add: k_def)
  have "double_of_int n = Finite (n * 2 ^ k) (- int k)"
    unfolding k_def e [unfolded k_def, symmetric] by (rule double_of_int_small [OF False assms])
  then show ?thesis by (simp only: dvalue_scaled)
qed

lemma double_of_int_inject:
  assumes "\<bar>a\<bar> < 2 ^ 53" "\<bar>b\<bar> < 2 ^ 53"
  shows "(double_of_int a = double_of_int b) = (a = b)"
proof
  assume "double_of_int a = double_of_int b"
  then have "integral_part (double_of_int a) = integral_part (double_of_int b)"
    by (rule arg_cong)
  then show "a = b"
    unfolding integral_part_double_of_int [OF assms(1)] integral_part_double_of_int [OF assms(2)]
    by (simp only: option.inject)
next
  assume "a = b"
  then show "double_of_int a = double_of_int b" by (rule arg_cong)
qed

section \<open>The year-day algorithm\<close>

lemma smod_zero_iff: "0 < (b::int) \<Longrightarrow> (a smod b = 0) = (a mod b = 0)"
  by (auto simp: signed_modulo_int_def sgn_if dvd_eq_mod_eq_0 [symmetric] zmod_zminus1_eq_if)

lemma smod_range: "0 < (b::int) \<Longrightarrow> \<bar>a smod b\<bar> < b"
  by (auto simp: signed_modulo_int_def sgn_if abs_mult)

lemma c_mod32_zero:
  assumes "0 < sint b"
  shows "(c_mod32 a b = 0) = (sint a mod sint b = 0)"
proof -
  have r: "\<bar>sint a smod sint b\<bar> < sint b" using assms by (rule smod_range)
  have "- (2 ^ 31) \<le> sint a smod sint b" "sint a smod sint b < 2 ^ 31"
    using r sint32_range [of b] by (simp_all add: abs_less_iff)
  then have "sint (c_mod32 a b) = sint a smod sint b"
    unfolding c_mod32_def by (rule sint32_of_int)
  moreover have "(c_mod32 a b = 0) = (sint (c_mod32 a b) = 0)"
    using word_eq_iff_signed [of "c_mod32 a b" 0] by simp
  ultimately show ?thesis using smod_zero_iff [OF assms, of "sint a"] by simp
qed

lemma is_leap_year_spec: "is_leap_year y = year_is_leap_spec (sint y)"
  by (simp add: is_leap_year_def year_is_leap_spec_def c_mod32_zero)


lemma sint32_sum:
  "- (2 ^ 31) \<le> sint a + sint b \<Longrightarrow> sint a + sint b < 2 ^ 31 \<Longrightarrow>
   sint (a + b :: int32) = sint a + sint b"
  by (simp add: sint_word_ariths signed_take_bit_int_eq_self)

lemma sint32_num [simp]:
  "sint (1970 :: int32) = 1970" "sint (58 :: int32) = 58" "sint (4 :: int32) = 4"
  "sint (100 :: int32) = 100" "sint (400 :: int32) = 400" "sint (365 :: int32) = 365"
  "sint (366 :: int32) = 366" "sint (719162 :: int32) = 719162" "sint (477 :: int32) = 477"
  "sint (364 :: int32) = 364"
  by simp_all

lemma leap_delta_range: "\<bar>leap_delta_spec yo yd ol\<bar> \<le> 1"
  by (simp add: leap_delta_spec_def Let_def)

lemma yday_leap_adjustment_sint:
  assumes "\<bar>sint yo\<bar> \<le> 1000001"
  shows "sint (yday_leap_adjustment yo yd ol) = leap_delta_spec (sint yo) (sint yd) ol"
proof -
  have "sint (yo + 1970) = sint yo + 1970"
    using assms sint32_sum [of yo 1970] by simp
  then show ?thesis
    by (auto simp: yday_leap_adjustment_def leap_delta_spec_def Let_def is_leap_year_spec
        word_sless_alt)
qed

lemma int_div_sint:
  assumes "0 < sint b"
  shows "sint (int_div a b) = sint a div sint b"
proof -
  have "- (2 ^ 31) \<le> sint a div sint b \<and> sint a div sint b < 2 ^ 31"
    using div_range [OF assms, of "- (2 ^ 31)" "sint a" "2 ^ 31"] sint32_range [of a] by simp
  then show ?thesis unfolding int_div_def by (simp add: sint32_of_int)
qed


lemma days_before_year_spec_range:
  assumes "\<bar>yo\<bar> \<le> 1000001"
  shows "\<bar>days_before_year_spec yo\<bar> \<le> 370000000"
proof -
  define y where "y = yo + 1970 - 1"
  define a b c where "a = y div 4" and "b = y div 100" and "c = y div 400"
  have "4 * a \<le> y \<and> y < 4 * a + 4" unfolding a_def by linarith
  moreover have "100 * b \<le> y \<and> y < 100 * b + 100" unfolding b_def by linarith
  moreover have "400 * c \<le> y \<and> y < 400 * c + 400" unfolding c_def by linarith
  moreover have "\<bar>y\<bar> \<le> 1002970" using assms unfolding y_def by linarith
  ultimately have "\<bar>365 * y + a - b + c - 719162\<bar> \<le> 370000000" by linarith
  then show ?thesis
    unfolding days_before_year_spec_def Let_def y_def a_def b_def c_def by simp
qed

lemma leap_years_spec_range:
  assumes "\<bar>yo\<bar> \<le> 1000001"
  shows "\<bar>leap_years_spec yo\<bar> \<le> 243000"
  using assms unfolding leap_years_spec_def Let_def by linarith

lemma word32_of_sint: "(w :: int32) = word_of_int (sint w)"
  by simp

lemma days_before_year_sint:
  assumes "\<bar>sint yo\<bar> \<le> 1000001"
  shows "sint (days_before_year yo) = days_before_year_spec (sint yo)"
proof -
  define year where "year = yo + 1970 - 1"
  have y: "sint year = sint yo + 1970 - 1"
  proof -
    have "sint (yo + 1970) = sint yo + 1970" using assms sint32_sum [of yo 1970] by simp
    then show ?thesis
      unfolding year_def using assms sint32_diff [of "yo + 1970" 1] by simp
  qed
  have d: "int_div year 4 = word_of_int ((sint yo + 1970 - 1) div 4)"
    "int_div year 100 = word_of_int ((sint yo + 1970 - 1) div 100)"
    "int_div year 400 = word_of_int ((sint yo + 1970 - 1) div 400)"
    by (simp_all add: int_div_def y)
  have "year = word_of_int (sint yo + 1970 - 1)"
    using word32_of_sint [of year] by (simp only: y)
  then have "days_before_year yo = word_of_int (days_before_year_spec (sint yo))"
    unfolding days_before_year_def days_before_year_spec_def Let_def year_def [symmetric] d
    by simp
  moreover have "- (2 ^ 31) \<le> days_before_year_spec (sint yo)"
    "days_before_year_spec (sint yo) < 2 ^ 31"
    using days_before_year_spec_range [OF assms] by simp_all
  ultimately show ?thesis by (simp only: sint32_of_int)
qed

lemma leap_years_sint:
  assumes "\<bar>sint yo\<bar> \<le> 1000001"
  shows "sint (leap_years_before_and_including_year yo) = leap_years_spec (sint yo)"
proof -
  define year where "year = yo + 1970"
  have y: "sint year = sint yo + 1970"
    unfolding year_def using assms sint32_sum [of yo 1970] by simp
  have d: "int_div year 4 = word_of_int ((sint yo + 1970) div 4)"
    "int_div year 100 = word_of_int ((sint yo + 1970) div 100)"
    "int_div year 400 = word_of_int ((sint yo + 1970) div 400)"
    by (simp_all add: int_div_def y)
  have "leap_years_before_and_including_year yo = word_of_int (leap_years_spec (sint yo))"
    unfolding leap_years_before_and_including_year_def leap_years_spec_def Let_def
      year_def [symmetric] d
    by simp
  moreover have "- (2 ^ 31) \<le> leap_years_spec (sint yo)" "leap_years_spec (sint yo) < 2 ^ 31"
    using leap_years_spec_range [OF assms] by simp_all
  ultimately show ?thesis by (simp only: sint32_of_int)
qed

lemma units_sint:
  assumes "0 < sint every" "0 \<le> n" "n \<le> 365"
  shows "sint (c_div32 (word_of_int n) every + 1) = n div sint every + 1"
    and "1 \<le> n div sint every + 1" and "n div sint every + 1 \<le> 366"
proof -
  have n: "sint (word_of_int n :: int32) = n" using assms by (simp add: sint32_of_int)
  have q: "0 \<le> n div sint every" "n div sint every \<le> n"
    using assms div_upper [of n "sint every"] by (simp_all add: pos_imp_zdiv_nonneg_iff)
  have "c_div32 (word_of_int n) every + 1 = word_of_int (n div sint every + 1)"
    using assms by (simp add: c_div32_def n sdiv_nonneg)
  moreover have "- (2 ^ 31) \<le> n div sint every + 1" "n div sint every + 1 < 2 ^ 31"
    using q assms by simp_all
  ultimately show "sint (c_div32 (word_of_int n) every + 1) = n div sint every + 1"
    by (simp only: sint32_of_int)
  show "1 \<le> n div sint every + 1" using q by simp
  show "n div sint every + 1 \<le> 366" using q assms by simp
qed

lemma mult_bound:
  assumes "1 \<le> (u::int)" "u \<le> 366" "\<bar>v\<bar> \<le> b"
  shows "\<bar>u * v\<bar> \<le> 366 * b"
proof -
  have "\<bar>u * v\<bar> = u * \<bar>v\<bar>" using assms by (simp add: abs_mult)
  also have "\<dots> \<le> 366 * \<bar>v\<bar>" using assms by (intro mult_right_mono) simp_all
  also have "\<dots> \<le> 366 * b" using assms by simp
  finally show ?thesis .
qed


lemma word32_eq_of_sint: "sint (w :: int32) = v \<Longrightarrow> w = word_of_int v"
  by auto

lemma compute_yday_distance_refines:
  assumes e: "0 < sint every"
    and yo: "\<bar>sint yo\<bar> \<le> 1000000" and oyo: "\<bar>sint oyo\<bar> \<le> 1000000"
    and oyd: "0 \<le> sint oyd" "sint oyd \<le> 365"
    and dse: "\<bar>sint dse\<bar> \<le> 400000000"
  shows "sint (compute_yday_distance dse yo yd oyo oyd ol (c_div32 (366 - 1) every + 1)
                 (c_div32 (365 - 1) every + 1) every)
         = yday_bucket_spec (sint dse) (sint yo) (sint yd) (sint oyo) (sint oyd) ol (sint every)"
proof -
  define D1 where "D1 = leap_delta_spec (sint yo) (sint yd) ol"
  have D1r: "\<bar>D1\<bar> \<le> 1" unfolding D1_def by (rule leap_delta_range)
  have d1: "sint (yday_leap_adjustment yo yd ol) = D1"
    unfolding D1_def using yo by (intro yday_leap_adjustment_sint) simp
  have adj: "sint (oyd + yday_leap_adjustment yo yd ol) = sint oyd + D1"
    using sint32_sum [of oyd "yday_leap_adjustment yo yd ol"] d1 D1r oyd by simp
  define loy where "loy = (if yd <s oyd + yday_leap_adjustment yo yd ol then yo - 1 else yo)"
  define L where "L = last_origin_year_offset_spec (sint yo) (sint yd) (sint oyd) ol"
  have m1: "sint (yo - 1) = sint yo - 1" using sint32_diff [of yo 1] yo by simp
  have l: "sint loy = L"
    unfolding loy_def L_def last_origin_year_offset_spec_def Let_def D1_def [symmetric]
    by (simp add: word_sless_alt adj m1)
  have Lr: "\<bar>L\<bar> \<le> 1000001"
    using yo unfolding L_def last_origin_year_offset_spec_def Let_def
    by (cases "sint yd < sint oyd + leap_delta_spec (sint yo) (sint yd) ol") simp_all
  have Lr': "\<bar>sint loy\<bar> \<le> 1000001" using Lr l by simp
  have Or: "\<bar>sint oyo\<bar> \<le> 1000001" using oyo by simp
  define D2 where "D2 = leap_delta_spec L (sint oyd) ol"
  have D2r: "\<bar>D2\<bar> \<le> 1" unfolding D2_def by (rule leap_delta_range)
  have d2: "sint (yday_leap_adjustment loy oyd ol) = D2"
    unfolding D2_def l [symmetric] using Lr' by (rule yday_leap_adjustment_sint)
  define B where "B = days_before_year_spec L"
  have Br: "\<bar>B\<bar> \<le> 370000000" unfolding B_def using Lr by (rule days_before_year_spec_range)
  have dby: "sint (days_before_year loy) = B"
    unfolding B_def l [symmetric] using Lr' by (rule days_before_year_sint)
  have s1: "sint (days_before_year loy + oyd) = B + sint oyd"
    using sint32_sum [of "days_before_year loy" oyd] dby Br oyd by simp
  have lo: "sint (days_before_year loy + oyd + yday_leap_adjustment loy oyd ol)
              = B + sint oyd + D2"
    using sint32_sum [of "days_before_year loy + oyd" "yday_leap_adjustment loy oyd ol"]
      s1 d2 Br D2r oyd by simp
  define S where "S = sint dse - (B + sint oyd + D2)"
  have Sr: "\<bar>S\<bar> \<le> 770000366" unfolding S_def using dse Br oyd D2r by linarith
  have dsl: "sint (dse - (days_before_year loy + oyd + yday_leap_adjustment loy oyd ol)) = S"
    using sint32_diff [of dse "days_before_year loy + oyd + yday_leap_adjustment loy oyd ol"]
      lo Sr
    unfolding S_def by simp
  define Q where "Q = S div sint every"
  have uiy: "sint (int_div (dse - (days_before_year loy + oyd
                 + yday_leap_adjustment loy oyd ol)) every) = Q"
    unfolding Q_def using int_div_sint [OF e] dsl by simp
  have Qr: "\<bar>Q\<bar> \<le> 770000367"
  proof -
    have "- 770000367 \<le> S" "S < 770000367" using Sr by linarith+
    then have "- 770000367 \<le> S div sint every \<and> S div sint every < 770000367"
      by (intro div_range [OF e]) simp_all
    then show ?thesis unfolding Q_def by linarith
  qed
  define l1 where "l1 = leap_years_spec L"
  define l0 where "l0 = leap_years_spec (sint oyo)"
  have ly1: "sint (leap_years_before_and_including_year loy) = l1"
    unfolding l1_def l [symmetric] using Lr' by (rule leap_years_sint)
  have ly0: "sint (leap_years_before_and_including_year oyo) = l0"
    unfolding l0_def using Or by (rule leap_years_sint)
  have l1r: "\<bar>l1\<bar> \<le> 243000" unfolding l1_def using Lr by (rule leap_years_spec_range)
  have l0r: "\<bar>l0\<bar> \<le> 243000" unfolding l0_def using Or by (rule leap_years_spec_range)
  define u1 where "u1 = 365 div sint every + 1"
  define u0 where "u0 = 364 div sint every + 1"
  have upl: "sint (c_div32 365 every + 1) = u1" "1 \<le> u1" "u1 \<le> 366"
    unfolding u1_def using units_sint [OF e, of 365] by simp_all
  have unl: "sint (c_div32 364 every + 1) = u0" "1 \<le> u0" "u0 \<le> 366"
    unfolding u0_def using units_sint [OF e, of 364] by simp_all
  have w: "compute_yday_distance dse yo yd oyo oyd ol (c_div32 (366 - 1) every + 1)
             (c_div32 (365 - 1) every + 1) every
           = (c_div32 365 every + 1)
               * (leap_years_before_and_including_year loy
                    - leap_years_before_and_including_year oyo)
             + (c_div32 364 every + 1)
                 * (loy - oyo - (leap_years_before_and_including_year loy
                                   - leap_years_before_and_including_year oyo))
             + int_div (dse - (days_before_year loy + oyd
                 + yday_leap_adjustment loy oyd ol)) every"
    unfolding compute_yday_distance_def Let_def loy_def by simp
  define V where "V = u1 * (l1 - l0) + u0 * (L - sint oyo - (l1 - l0)) + Q"
  have W: "compute_yday_distance dse yo yd oyo oyd ol (c_div32 (366 - 1) every + 1)
             (c_div32 (365 - 1) every + 1) every
        = word_of_int V"
    unfolding w V_def
    unfolding word32_eq_of_sint [OF upl(1)] word32_eq_of_sint [OF unl(1)]
      word32_eq_of_sint [OF ly1] word32_eq_of_sint [OF ly0] word32_eq_of_sint [OF uiy]
    by (simp add: word32_eq_of_sint [OF l])
  have Vr: "\<bar>V\<bar> < 2147483648"
  proof -
    have a: "\<bar>l1 - l0\<bar> \<le> 486000" using l1r l0r by linarith
    have b: "\<bar>L - sint oyo - (l1 - l0)\<bar> \<le> 2486001" using a Lr oyo by linarith
    define P1 where "P1 = u1 * (l1 - l0)"
    define P0 where "P0 = u0 * (L - sint oyo - (l1 - l0))"
    have "\<bar>P1\<bar> \<le> 366 * 486000" unfolding P1_def using upl a by (intro mult_bound)
    moreover have "\<bar>P0\<bar> \<le> 366 * 2486001" unfolding P0_def using unl b by (intro mult_bound)
    ultimately have "\<bar>P1 + P0 + Q\<bar> < 2147483648" using Qr by linarith
    then show ?thesis unfolding P1_def P0_def V_def .
  qed
  have "sint (word_of_int V :: int32) = V"
    using Vr by (intro sint32_of_int) (simp_all add: abs_less_iff)
  then have "sint (compute_yday_distance dse yo yd oyo oyd ol (c_div32 (366 - 1) every + 1)
             (c_div32 (365 - 1) every + 1) every)
        = u1 * (l1 - l0) + u0 * (L - sint oyo - (l1 - l0)) + Q"
    unfolding W V_def .
  also have "\<dots> = yday_bucket_spec (sint dse) (sint yo) (sint yd) (sint oyo) (sint oyd) ol
                      (sint every)"
    unfolding yday_bucket_spec_def Let_def L_def [symmetric] l1_def [symmetric]
      l0_def [symmetric] B_def [symmetric] D2_def [symmetric] floor_div_def
    by (simp add: u1_def u0_def Q_def S_def)
  finally show ?thesis .
qed

section \<open>The entry point and the switches\<close>

lemma warp_distance_valid:
  assumes "validate_origin U origin = Inr ()" "0 < sint every"
    "time_class_type U x \<noteq> warp_class_unknown"
  shows
    "warp_distance U x warp_period_year every origin
       = warp_distance_year U (zoned_input U x origin) every (used_origin U x origin)"
    "warp_distance U x warp_period_quarter every origin
       = warp_distance_quarter U (zoned_input U x origin) every (used_origin U x origin)"
    "warp_distance U x warp_period_month every origin
       = warp_distance_month U (zoned_input U x origin) every (used_origin U x origin)"
    "warp_distance U x warp_period_week every origin
       = warp_distance_week U (zoned_input U x origin) every (used_origin U x origin)"
    "warp_distance U x warp_period_yweek every origin
       = warp_distance_yweek U (zoned_input U x origin) every (used_origin U x origin)"
    "warp_distance U x warp_period_day every origin
       = warp_distance_day U (zoned_input U x origin) every (used_origin U x origin)"
    "warp_distance U x warp_period_yday every origin
       = warp_distance_yday U (zoned_input U x origin) every (used_origin U x origin)"
    "warp_distance U x warp_period_hour every origin
       = warp_distance_hour U (zoned_input U x origin) every (used_origin U x origin)"
    "warp_distance U x warp_period_minute every origin
       = warp_distance_minute U (zoned_input U x origin) every (used_origin U x origin)"
    "warp_distance U x warp_period_second every origin
       = warp_distance_second U (zoned_input U x origin) every (used_origin U x origin)"
    "warp_distance U x warp_period_millisecond every origin
       = warp_distance_millisecond U (zoned_input U x origin) every (used_origin U x origin)"
proof -
  have "sint every \<noteq> sint NA_INTEGER" using assms(2) by (simp add: NA_INTEGER_def)
  then have "every \<noteq> NA_INTEGER" by auto
  moreover have "\<not> every \<le>s 0" using assms(2) by (simp add: word_sle_eq)
  ultimately have v: "validate_every every = Inr ()" by (simp add: validate_every_def)
  show
    "warp_distance U x warp_period_year every origin
       = warp_distance_year U (zoned_input U x origin) every (used_origin U x origin)"
    "warp_distance U x warp_period_quarter every origin
       = warp_distance_quarter U (zoned_input U x origin) every (used_origin U x origin)"
    "warp_distance U x warp_period_month every origin
       = warp_distance_month U (zoned_input U x origin) every (used_origin U x origin)"
    "warp_distance U x warp_period_week every origin
       = warp_distance_week U (zoned_input U x origin) every (used_origin U x origin)"
    "warp_distance U x warp_period_yweek every origin
       = warp_distance_yweek U (zoned_input U x origin) every (used_origin U x origin)"
    "warp_distance U x warp_period_day every origin
       = warp_distance_day U (zoned_input U x origin) every (used_origin U x origin)"
    "warp_distance U x warp_period_yday every origin
       = warp_distance_yday U (zoned_input U x origin) every (used_origin U x origin)"
    "warp_distance U x warp_period_hour every origin
       = warp_distance_hour U (zoned_input U x origin) every (used_origin U x origin)"
    "warp_distance U x warp_period_minute every origin
       = warp_distance_minute U (zoned_input U x origin) every (used_origin U x origin)"
    "warp_distance U x warp_period_second every origin
       = warp_distance_second U (zoned_input U x origin) every (used_origin U x origin)"
    "warp_distance U x warp_period_millisecond every origin
       = warp_distance_millisecond U (zoned_input U x origin) every (used_origin U x origin)"
    using assms(1,3) v
    by (simp_all add: warp_distance_def then_do_def Let_def zoned_input_def used_origin_def)
qed

lemma warp_distance_returned:
  assumes "warp_distance U x type every origin = Inr out"
  shows "validate_origin U origin = Inr ()" "0 < sint every"
    "time_class_type U x \<noteq> warp_class_unknown"
proof -
  show o: "validate_origin U origin = Inr ()"
    using assms by (cases "validate_origin U origin") (simp_all add: warp_distance_def then_do_def)
  have e: "validate_every every = Inr ()"
    using assms o by (cases "validate_every every") (simp_all add: warp_distance_def then_do_def)
  then have "\<not> every \<le>s 0" by (simp add: validate_every_def split: if_splits)
  then show "0 < sint every" by (simp add: word_sle_eq)
  show "time_class_type U x \<noteq> warp_class_unknown"
    using assms o e by (auto simp: warp_distance_def then_do_def)
qed


section \<open>The bodies of the loops as floored quotients\<close>

lemma emit32_floor_div:
  assumes "0 < sint every" "sint v = s" "fits 31 (s - (sint every - 1))"
  shows "emit32 every v = double_of_int (floor_div s (sint every))"
  using emit32_floor [OF assms(1), of v] assms(2,3) by (simp add: fits_def floor_div_def)

lemma emit64_floor_div:
  assumes "0 < sint every" "sint v = s" "fits 63 (s - (sint every - 1))"
  shows "emit64 every v = double_of_int (floor_div s (sint every))"
  using emit64_floor [OF assms(1), of v] assms(2,3) by (simp add: fits_def floor_div_def)

lemma sint32_mult:
  "fits 31 (sint a * sint b) \<Longrightarrow> sint (a * b :: int32) = sint a * sint b"
  by (simp add: fits_def sint_word_mult signed_take_bit_int_eq_self)

lemma sub_offset32:
  assumes "fits 31 (sint elt - origin_units off)"
  shows "sint (sub_offset off (elt :: int32)) = sint elt - origin_units off"
  using assms by (intro sub_offset_sint32) (simp_all add: fits_def)

lemma sub_offset64:
  assumes "fits 63 (sint elt - origin_units off)"
  shows "sint (sub_offset off (elt :: int64)) = sint elt - origin_units off"
  using assms by (intro sub_offset_sint64) (simp_all add: fits_def)

lemma origin_units_scast:
  "origin_units (map_option scast (off :: int32 option) :: int64 option) = origin_units off"
  by (cases off) (simp_all add: origin_units_def sint_scast_32_64)

lemma offset_elt_floor_div:
  assumes "0 < sint every" "elt \<noteq> NA_INTEGER" "fits 31 (sint elt - origin_units off)"
    "fits 31 (sint elt - origin_units off - (sint every - 1))"
  shows "warp_distance_offset_elt off every elt
           = double_of_int (floor_div (sint elt - origin_units off) (sint every))"
  using assms by (intro offset_elt_floor) (simp_all add: fits_def)

lemma int_date_scaled32_floor_div:
  assumes "0 < sint every" "elt \<noteq> NA_INTEGER" "fits 31 (sint elt - origin_units off)"
    "fits 31 ((sint elt - origin_units off) * sint c)"
    "fits 31 ((sint elt - origin_units off) * sint c - (sint every - 1))"
  shows "int_date_scaled32 c off every elt
           = double_of_int (floor_div ((sint elt - origin_units off) * sint c) (sint every))"
proof -
  have "sint (sub_offset off elt * c) = (sint elt - origin_units off) * sint c"
    using assms(3,4) sub_offset32 [OF assms(3)] by (simp add: sint32_mult)
  from emit32_floor_div [OF assms(1) this assms(5)] show ?thesis
    using assms(2) by (simp add: int_date_scaled32_def)
qed

lemma dbl_date_scaled32_floor_div:
  assumes "0 < sint every" "R_FINITE v" "fits 31 (sint (int32_of_double v) - origin_units off)"
    "fits 31 ((sint (int32_of_double v) - origin_units off) * sint c)"
    "fits 31 ((sint (int32_of_double v) - origin_units off) * sint c - (sint every - 1))"
  shows "dbl_date_scaled32 c off every v
           = double_of_int
               (floor_div ((sint (int32_of_double v) - origin_units off) * sint c) (sint every))"
proof -
  have "sint (sub_offset off (int32_of_double v) * c)
          = (sint (int32_of_double v) - origin_units off) * sint c"
    using assms(3,4) sub_offset32 [OF assms(3)] by (simp add: sint32_mult)
  from emit32_floor_div [OF assms(1) this assms(5)] show ?thesis
    using assms(2) by (simp add: dbl_date_scaled32_def)
qed

lemma scaled64_floor_div:
  assumes "0 < sint every" "sint (v :: int64) = D" "fits 63 (D - origin_units off)"
    "fits 63 ((D - origin_units off) * sint c)"
    "fits 63 ((D - origin_units off) * sint c - (sint every - 1))"
  shows "emit64 every (sub_offset (map_option scast (off :: int32 option)) v * c)
           = double_of_int (floor_div ((D - origin_units off) * sint c) (sint every))"
proof -
  have s: "sint (sub_offset (map_option scast off) v) = D - origin_units off"
    using sub_offset64 [of v "map_option scast off"] assms(2,3) by (simp add: origin_units_scast)
  have "sint (sub_offset (map_option scast off) v * c) = (D - origin_units off) * sint c"
    using assms(4) s by (simp add: sint64_mult fits_def)
  from emit64_floor_div [OF assms(1) this assms(5)] show ?thesis .
qed

lemma int_date_scaled64_floor_div:
  assumes "0 < sint every" "elt \<noteq> NA_INTEGER" "0 \<le> sint c" "sint c \<le> 86400000"
  shows "int_date_scaled64 c off every elt
           = double_of_int (floor_div ((sint elt - origin_units off) * sint c) (sint every))"
proof -
  note r = sint32_range [of elt] sint32_range [of every]
  have o: "- (2 ^ 31) \<le> origin_units off \<and> origin_units off < 2 ^ 31"
    using sint32_range by (cases off) (simp_all add: origin_units_def)
  define S where "S = sint elt - origin_units off"
  have S: "\<bar>S\<bar> \<le> 2 ^ 32" using r o by (simp add: S_def abs_le_iff)
  have "\<bar>S * sint c\<bar> \<le> 2 ^ 32 * 86400000"
    unfolding abs_mult using S assms(3,4) by (intro mult_mono) simp_all
  then have P: "\<bar>S * sint c\<bar> \<le> 371085174374400000" by simp
  have 1: "fits 63 S" using S by (simp add: fits_def abs_le_iff)
  have 2: "fits 63 (S * sint c)" using P by (simp add: fits_def abs_le_iff)
  have 3: "fits 63 (S * sint c - (sint every - 1))" using P r by (simp add: fits_def abs_le_iff)
  show ?thesis
    using scaled64_floor_div [OF assms(1) sint_scast_32_64 [of elt], of off c] 1 2 3 assms(2)
    by (simp add: int_date_scaled64_def S_def)
qed

lemma dbl_date_scaled64_floor_div:
  assumes "0 < sint every" "R_FINITE v" "fits 63 (sint (int64_of_double v) - origin_units off)"
    "fits 63 ((sint (int64_of_double v) - origin_units off) * sint c)"
    "fits 63 ((sint (int64_of_double v) - origin_units off) * sint c - (sint every - 1))"
  shows "dbl_date_scaled64 c off every v
           = double_of_int
               (floor_div ((sint (int64_of_double v) - origin_units off) * sint c) (sint every))"
  using scaled64_floor_div [OF assms(1) refl assms(3,4,5)] assms(2)
  by (simp add: dbl_date_scaled64_def)

lemma floor_unit64_sint:
  assumes u: "0 < sint unit" and lo: "fits 63 (sint elt - (sint unit - 1))"
  shows "sint (floor_unit64 unit elt) = sint elt div sint unit"
proof -
  note r = sint64_range [of elt] sint64_range [of unit]
  have q: "- (2 ^ 63) \<le> sint elt div sint unit \<and> sint elt div sint unit < 2 ^ 63"
    using div_range [OF u, of "- (2 ^ 63)" "sint elt" "2 ^ 63"] r by simp
  show ?thesis
  proof (cases "elt <s 0")
    case True
    then have neg: "sint elt < 0" by (simp add: word_sless_alt)
    have e1: "sint (unit - 1) = sint unit - 1" using r u by (simp add: sint64_diff)
    have d: "sint (elt - (unit - 1)) = sint elt - (sint unit - 1)"
      using r u lo neg e1 by (simp add: sint64_diff fits_def)
    show ?thesis
      using True q d sdiv_adjusted [OF neg u]
      by (simp add: floor_unit64_def c_div64_def sint64_of_int)
  next
    case False
    then have nn: "0 \<le> sint elt" by (simp add: word_sless_alt)
    show ?thesis
      using False q sdiv_nonneg [OF nn u]
      by (simp add: floor_unit64_def c_div64_def sint64_of_int)
  qed
qed

lemma unit64_floor_div:
  assumes "0 < sint every" "0 < sint c" "sint (v :: int64) = S"
    "fits 63 (S - origin_units off)" "fits 63 (S - origin_units off - (sint c - 1))"
    "fits 63 (floor_div (S - origin_units off) (sint c) - (sint every - 1))"
  shows "emit64 every (floor_unit64 c (sub_offset off v))
           = double_of_int (floor_div (floor_div (S - origin_units off) (sint c)) (sint every))"
proof -
  have s: "sint (sub_offset off v) = S - origin_units off"
    using sub_offset64 [of v off] assms(3,4) by simp
  have "sint (floor_unit64 c (sub_offset off v)) = floor_div (S - origin_units off) (sint c)"
    using floor_unit64_sint [OF assms(2), of "sub_offset off v"] s assms(5)
    by (simp add: floor_div_def)
  from emit64_floor_div [OF assms(1) this assms(6)] show ?thesis .
qed

lemma second64_floor_div:
  assumes "0 < sint every" "sint (v :: int64) = S"
    "fits 63 (S - origin_units off)" "fits 63 (S - origin_units off - (sint every - 1))"
  shows "emit64 every (sub_offset off v)
           = double_of_int (floor_div (S - origin_units off) (sint every))"
proof -
  have s: "sint (sub_offset off v) = S - origin_units off"
    using sub_offset64 [of v off] assms(2,3) by simp
  from emit64_floor_div [OF assms(1) s assms(4)] show ?thesis .
qed

lemma sint_scast_mult_1000:
  assumes "fits 31 (sint (elt :: int32) * 1000)"
  shows "sint (scast (elt * 1000) :: int64) = sint elt * 1000"
  using assms sint32_mult [of elt 1000] by (simp add: sint_scast_32_64)


section \<open>What the functions return\<close>

lemma days_offset:
  obtains off where "offset_of_origin (origin_to_days_from_epoch U) origin = Inr off"
    and "origin_units off = origin_days U origin"
proof
  show "offset_of_origin (origin_to_days_from_epoch U) origin
          = Inr (if origin = R_NilValue then None
                 else Some (int32_of_double (REAL (as_date U origin) ! 0)))"
    by (simp add: offset_of_origin_def origin_conversions_never_raise)
  show "origin_units (if origin = R_NilValue then None
                      else Some (int32_of_double (REAL (as_date U origin) ! 0)))
          = origin_days U origin"
    by (simp add: origin_units_def origin_days_def)
qed

lemma seconds_offset:
  obtains off where "offset_of_origin (origin_to_seconds_from_epoch U) origin = Inr off"
    and "origin_units off = origin_seconds U origin"
proof
  show "offset_of_origin (origin_to_seconds_from_epoch U) origin
          = Inr (if origin = R_NilValue then None
                 else Some (guarded_floor (REAL (as_datetime U origin) ! 0)))"
    by (simp add: offset_of_origin_def origin_conversions_never_raise)
  show "origin_units (if origin = R_NilValue then None
                      else Some (guarded_floor (REAL (as_datetime U origin) ! 0)))
          = origin_seconds U origin"
    by (simp add: origin_units_def origin_seconds_def)
qed

lemma milliseconds_offset:
  obtains off where "offset_of_origin (origin_to_milliseconds_from_epoch U) origin = Inr off"
    and "origin_units off = origin_milliseconds U origin"
proof
  show "offset_of_origin (origin_to_milliseconds_from_epoch U) origin
          = Inr (if origin = R_NilValue then None
                 else Some (guarded_floor_to_millisecond (REAL (as_datetime U origin) ! 0)))"
    by (simp add: offset_of_origin_def origin_conversions_never_raise)
  show "origin_units (if origin = R_NilValue then None
                      else Some (guarded_floor_to_millisecond (REAL (as_datetime U origin) ! 0)))
          = origin_milliseconds U origin"
    by (simp add: origin_units_def origin_milliseconds_def)
qed

lemma int_offset:
  assumes "offset_of_origin (origin_offset_int fn getter) origin = Inr off"
  shows "origin_units off = origin_first_offset getter origin"
    and "origin = R_NilValue \<or> INTEGER (getter origin) ! 0 \<noteq> NA_INTEGER"
  using assms
  by (auto simp: offset_of_origin_def origin_offset_int_def origin_units_def
      origin_first_offset_def Let_def split: if_splits)

lemma int_offset_ok:
  assumes "origin = R_NilValue \<or> INTEGER (getter origin) ! 0 \<noteq> NA_INTEGER"
  shows "\<exists>off. offset_of_origin (origin_offset_int fn getter) origin = Inr off"
  using assms by (auto simp: offset_of_origin_def origin_offset_int_def Let_def)

lemma date_int_returns:
  assumes "time_class_type U y = warp_class_date" "y = INTSXP a xs"
    and "offset_of_origin (origin_to_days_from_epoch U) origin = Inr off"
  shows
    "warp_distance_hour U y every origin = Inr (map (int_date_scaled32 24 off every) xs)"
    "warp_distance_minute U y every origin = Inr (map (int_date_scaled32 1440 off every) xs)"
    "warp_distance_second U y every origin = Inr (map (int_date_scaled64 86400 off every) xs)"
    "warp_distance_millisecond U y every origin
       = Inr (map (int_date_scaled64 86400000 off every) xs)"
  using assms
  by (simp_all add: warp_distance_hour_def warp_distance_minute_def warp_distance_second_def
      warp_distance_millisecond_def by_class_def by_storage_def then_do_def
      date_warp_distance_hour_def date_warp_distance_minute_def date_warp_distance_second_def
      date_warp_distance_millisecond_def int_date_warp_distance_hour_def
      int_date_warp_distance_minute_def int_date_warp_distance_second_def
      int_date_warp_distance_millisecond_def)

lemma date_dbl_returns:
  assumes "time_class_type U y = warp_class_date" "y = REALSXP a vs"
    and "offset_of_origin (origin_to_days_from_epoch U) origin = Inr off"
  shows
    "warp_distance_hour U y every origin = Inr (map (dbl_date_scaled32 24 off every) vs)"
    "warp_distance_minute U y every origin = Inr (map (dbl_date_scaled32 1440 off every) vs)"
    "warp_distance_second U y every origin = Inr (map (dbl_date_scaled64 86400 off every) vs)"
    "warp_distance_millisecond U y every origin
       = Inr (map (dbl_date_scaled64 86400000 off every) vs)"
  using assms
  by (simp_all add: warp_distance_hour_def warp_distance_minute_def warp_distance_second_def
      warp_distance_millisecond_def by_class_def by_storage_def then_do_def
      date_warp_distance_hour_def date_warp_distance_minute_def date_warp_distance_second_def
      date_warp_distance_millisecond_def dbl_date_warp_distance_hour_def
      dbl_date_warp_distance_minute_def dbl_date_warp_distance_second_def
      dbl_date_warp_distance_millisecond_def)

lemma instants_int_returns:
  assumes "time_class_type U y = warp_class_posixct \<or> time_class_type U y = warp_class_posixlt"
    and "instants_of U y = INTSXP a xs"
    and "offset_of_origin (origin_to_seconds_from_epoch U) origin = Inr off"
  shows
    "warp_distance_hour U y every origin = Inr (map (int_posixct_unit64 3600 off every) xs)"
    "warp_distance_minute U y every origin = Inr (map (int_posixct_unit64 60 off every) xs)"
    "warp_distance_second U y every origin = Inr (map (int_posixct_second_elt off every) xs)"
  using assms
  by (auto simp: warp_distance_hour_def warp_distance_minute_def warp_distance_second_def
      by_class_def by_storage_def then_do_def instants_of_def
      posixct_warp_distance_hour_def posixct_warp_distance_minute_def
      posixct_warp_distance_second_def posixlt_warp_distance_hour_def
      posixlt_warp_distance_minute_def posixlt_warp_distance_second_def
      int_posixct_warp_distance_hour_def int_posixct_warp_distance_minute_def
      int_posixct_warp_distance_second_def)

lemma instants_dbl_returns:
  assumes "time_class_type U y = warp_class_posixct \<or> time_class_type U y = warp_class_posixlt"
    and "instants_of U y = REALSXP a vs"
    and "offset_of_origin (origin_to_seconds_from_epoch U) origin = Inr off"
  shows
    "warp_distance_hour U y every origin = Inr (map (dbl_posixct_unit64 3600 off every) vs)"
    "warp_distance_minute U y every origin = Inr (map (dbl_posixct_unit64 60 off every) vs)"
    "warp_distance_second U y every origin = Inr (map (dbl_posixct_second_elt off every) vs)"
  using assms
  by (auto simp: warp_distance_hour_def warp_distance_minute_def warp_distance_second_def
      by_class_def by_storage_def then_do_def instants_of_def
      posixct_warp_distance_hour_def posixct_warp_distance_minute_def
      posixct_warp_distance_second_def posixlt_warp_distance_hour_def
      posixlt_warp_distance_minute_def posixlt_warp_distance_second_def
      dbl_posixct_warp_distance_hour_def dbl_posixct_warp_distance_minute_def
      dbl_posixct_warp_distance_second_def)

lemma instants_millisecond_returns:
  assumes "time_class_type U y = warp_class_posixct \<or> time_class_type U y = warp_class_posixlt"
    and "offset_of_origin (origin_to_milliseconds_from_epoch U) origin = Inr off"
  shows
    "instants_of U y = INTSXP a xs \<Longrightarrow>
     warp_distance_millisecond U y every origin
       = Inr (map (int_posixct_millisecond_elt off every) xs)"
    "instants_of U y = REALSXP a vs \<Longrightarrow>
     warp_distance_millisecond U y every origin
       = Inr (map (dbl_posixct_millisecond_elt off every) vs)"
  using assms
  by (auto simp: warp_distance_millisecond_def by_class_def by_storage_def then_do_def
      instants_of_def posixct_warp_distance_millisecond_def
      posixlt_warp_distance_millisecond_def int_posixct_warp_distance_millisecond_def
      dbl_posixct_warp_distance_millisecond_def)

lemma offsets_return:
  shows
    "warp_distance_year U y every origin
       = then_do (offset_of_origin (origin_offset_int ''warp_distance_year'' (get_year_offset U))
                    origin)
           (\<lambda>off. Inr (map (warp_distance_offset_elt off every) (INTEGER (get_year_offset U y))))"
    "warp_distance_quarter U y every origin
       = then_do (offset_of_origin (origin_offset_int ''warp_distance_month'' (get_month_offset U))
                    origin)
           (\<lambda>off. Inr (map (warp_distance_offset_elt off (every * 3))
                          (INTEGER (get_month_offset U y))))"
    "warp_distance_month U y every origin
       = then_do (offset_of_origin (origin_offset_int ''warp_distance_month'' (get_month_offset U))
                    origin)
           (\<lambda>off. Inr (map (warp_distance_offset_elt off every) (INTEGER (get_month_offset U y))))"
    "warp_distance_week U y every origin
       = then_do (offset_of_origin (origin_offset_int ''warp_distance_day'' (get_day_offset U))
                    origin)
           (\<lambda>off. Inr (map (warp_distance_offset_elt off (every * 7))
                          (INTEGER (get_day_offset U y))))"
    "warp_distance_day U y every origin
       = then_do (offset_of_origin (origin_offset_int ''warp_distance_day'' (get_day_offset U))
                    origin)
           (\<lambda>off. Inr (map (warp_distance_offset_elt off every) (INTEGER (get_day_offset U y))))"
  by (simp_all add: warp_distance_year_def warp_distance_quarter_def warp_distance_month_def
      warp_distance_week_def warp_distance_day_def)


section \<open>Floored division: the whole engine\<close>

lemma list_all2_mapI:
  assumes "\<And>e. e \<in> set xs \<Longrightarrow> P (f e) e"
  shows "list_all2 P (map f xs) xs"
  using assms by (simp add: list_all2_map1 list_all2_same)

lemma sint_times:
  assumes "0 < sint (every :: int32)" "0 < sint c" "sint c * sint every < 2 ^ 31"
  shows "sint (every * c) = sint c * sint every"
proof -
  have "0 < sint c * sint every" using assms by simp
  then have "fits 31 (sint every * sint c)" using assms(3) by (simp add: fits_def mult.commute)
  then show ?thesis by (simp add: sint32_mult mult.commute)
qed

lemma offset_loop_floor_div:
  assumes "then_do (offset_of_origin (origin_offset_int fn g) origin)
             (\<lambda>off. Inr (map (warp_distance_offset_elt off ev) xs)) = Inr out"
    and "0 < sint ev"
  shows "list_all2
           (\<lambda>d elt. elt \<noteq> NA_INTEGER
                \<and> fits 31 (sint elt - origin_first_offset g origin)
                \<and> fits 31 (sint elt - origin_first_offset g origin - (sint ev - 1))
              \<longrightarrow> d = double_of_int
                        (floor_div (sint elt - origin_first_offset g origin) (sint ev)))
           out xs"
proof (cases "offset_of_origin (origin_offset_int fn g) origin")
  case (Inl err)
  then show ?thesis using assms(1) by (simp add: then_do_def)
next
  case (Inr off)
  then have o: "out = map (warp_distance_offset_elt off ev) xs"
    using assms(1) by (simp add: then_do_def)
  have u: "origin_units off = origin_first_offset g origin" using Inr by (rule int_offset)
  show ?thesis
    unfolding o u [symmetric]
    by (rule list_all2_mapI) (simp add: offset_elt_floor_div [OF assms(2)])
qed

lemma offsets_floor_div:
  assumes r: "warp_distance U x type every origin = Inr out"
    and p: "period_offsets U type = Some (c, g)"
    and w: "c * sint every < 2 ^ 31"
  shows "list_all2
           (\<lambda>d elt. elt \<noteq> NA_INTEGER
                \<and> fits 31 (sint elt - origin_first_offset g (used_origin U x origin))
                \<and> fits 31 (sint elt - origin_first_offset g (used_origin U x origin)
                             - (c * sint every - 1))
              \<longrightarrow> d = double_of_int
                        (floor_div (sint elt - origin_first_offset g (used_origin U x origin))
                           (c * sint every)))
           out (INTEGER (g (zoned_input U x origin)))"
proof -
  note v = warp_distance_returned [OF r]
  note d = warp_distance_valid [OF v]
  have e: "0 < sint every" by (rule v(2))
  have e3: "sint (every * 3) = 3 * sint every" if "3 * sint every < 2 ^ 31"
    using sint_times [OF e, of 3] that by simp
  have e7: "sint (every * 7) = 7 * sint every" if "7 * sint every < 2 ^ 31"
    using sint_times [OF e, of 7] that by simp
  show ?thesis
  proof (cases type)
    case warp_period_year
    then have "c = 1" "g = get_year_offset U" using p by (simp_all add: period_offsets_def)
    then show ?thesis
      using r e offset_loop_floor_div [of _ "get_year_offset U" _ every]
      unfolding warp_period_year d offsets_return by simp
  next
    case warp_period_quarter
    then have c: "c = 3" "g = get_month_offset U" using p by (simp_all add: period_offsets_def)
    have "0 < sint (every * 3)" using e3 w c e by simp
    then show ?thesis
      using r c e3 w offset_loop_floor_div [of _ "get_month_offset U" _ "every * 3"]
      unfolding warp_period_quarter d offsets_return by simp
  next
    case warp_period_month
    then have "c = 1" "g = get_month_offset U" using p by (simp_all add: period_offsets_def)
    then show ?thesis
      using r e offset_loop_floor_div [of _ "get_month_offset U" _ every]
      unfolding warp_period_month d offsets_return by simp
  next
    case warp_period_week
    then have c: "c = 7" "g = get_day_offset U" using p by (simp_all add: period_offsets_def)
    have "0 < sint (every * 7)" using e7 w c e by simp
    then show ?thesis
      using r c e7 w offset_loop_floor_div [of _ "get_day_offset U" _ "every * 7"]
      unfolding warp_period_week d offsets_return by simp
  next
    case warp_period_day
    then have "c = 1" "g = get_day_offset U" using p by (simp_all add: period_offsets_def)
    then show ?thesis
      using r e offset_loop_floor_div [of _ "get_day_offset U" _ every]
      unfolding warp_period_day d offsets_return by simp
  qed (use p in \<open>simp_all add: period_offsets_def\<close>)
qed


lemma toward_zero_range:
  assumes "\<bar>r\<bar> < 2 ^ n"
  shows "- (2 ^ n) \<le> toward_zero r \<and> toward_zero r < 2 ^ n"
proof -
  have a: "- (2 ^ n) < r" "r < 2 ^ n" using assms by (simp_all add: abs_less_iff)
  show ?thesis
  proof (cases "r < 0")
    case True
    have c0: "\<lceil>r\<rceil> \<le> 0" using True by (simp add: ceiling_le_iff)
    have p: "(0 :: int) < 2 ^ n" by simp
    have "\<lceil>r\<rceil> < 2 ^ n" using c0 p by linarith
    moreover have "- (2 ^ n) \<le> \<lceil>r\<rceil>"
    proof -
      have "of_int (- (2 ^ n)) \<le> r" using a by simp
      then have "- (2 ^ n) \<le> \<lfloor>r\<rfloor>" by (simp only: le_floor_iff)
      then show ?thesis using floor_le_ceiling [of r] by linarith
    qed
    ultimately show ?thesis using True by (simp add: toward_zero_def)
  next
    case False
    then have f0: "0 \<le> \<lfloor>r\<rfloor>" by simp
    have p: "- (2 ^ n) \<le> (0 :: int)" by simp
    have "- (2 ^ n) \<le> \<lfloor>r\<rfloor>" using f0 p by linarith
    moreover have "\<lfloor>r\<rfloor> < 2 ^ n"
    proof -
      have "r < of_int (2 ^ n)" using a by simp
      then show ?thesis by (simp only: floor_less_iff)
    qed
    ultimately show ?thesis using False by (simp add: toward_zero_def)
  qed
qed

lemma finite_cases:
  assumes "R_FINITE v"
  obtains m e where "v = Finite m e"
  using assms by (cases v) simp_all

lemma sint_int32_of_double:
  assumes "R_FINITE v" "\<bar>dvalue v\<bar> < 2 ^ 31"
  shows "sint (int32_of_double v) = toward_zero (dvalue v)"
proof -
  obtain m e where v: "v = Finite m e" using assms(1) by (rule finite_cases)
  note t = toward_zero_range [OF assms(2)]
  have "int32_of_double v = word_of_int (toward_zero (dvalue v))"
    using t integral_part_toward_zero [of m e] unfolding v by (simp add: int32_of_double_def)
  then show ?thesis using t by (simp add: sint32_of_int)
qed

lemma sint_int64_of_double:
  assumes "R_FINITE v" "\<bar>dvalue v\<bar> < 2 ^ 63"
  shows "sint (int64_of_double v) = toward_zero (dvalue v)"
proof -
  obtain m e where v: "v = Finite m e" using assms(1) by (rule finite_cases)
  note t = toward_zero_range [OF assms(2)]
  have "int64_of_double v = word_of_int (toward_zero (dvalue v))"
    using t integral_part_toward_zero [of m e] unfolding v by (simp add: int64_of_double_def)
  then show ?thesis using t by (simp add: sint64_of_int)
qed

lemma date_int_floor_div:
  assumes r: "warp_distance U x type every origin = Inr out"
    and p: "day_units type = Some c"
    and cl: "time_class_type U (zoned_input U x origin) = warp_class_date"
    and st: "zoned_input U x origin = INTSXP a xs"
  shows "list_all2
           (\<lambda>d elt. elt \<noteq> NA_INTEGER
                \<and> fits (date_width type) (sint elt - origin_days U (used_origin U x origin))
                \<and> fits (date_width type)
                     ((sint elt - origin_days U (used_origin U x origin)) * c)
                \<and> fits (date_width type)
                     ((sint elt - origin_days U (used_origin U x origin)) * c
                        - (sint every - 1))
              \<longrightarrow> d = double_of_int
                        (floor_div ((sint elt - origin_days U (used_origin U x origin)) * c)
                           (sint every)))
           out xs"
proof -
  note v = warp_distance_returned [OF r]
  note d = warp_distance_valid [OF v]
  have e: "0 < sint every" by (rule v(2))
  obtain off where off: "offset_of_origin (origin_to_days_from_epoch U) (used_origin U x origin)
                          = Inr off"
    and u: "origin_units off = origin_days U (used_origin U x origin)"
    by (rule days_offset)
  note f = date_int_returns [OF cl st off]
  show ?thesis
  proof (cases type)
    case warp_period_hour
    then have c: "c = 24" using p by (simp add: day_units_def)
    have o: "out = map (int_date_scaled32 24 off every) xs"
      using r unfolding warp_period_hour d f by simp
    show ?thesis
      unfolding o u [symmetric] c warp_period_hour
      by (rule list_all2_mapI)
        (use int_date_scaled32_floor_div [OF e, of _ off 24] in \<open>simp add: date_width_def\<close>)
  next
    case warp_period_minute
    then have c: "c = 1440" using p by (simp add: day_units_def)
    have o: "out = map (int_date_scaled32 1440 off every) xs"
      using r unfolding warp_period_minute d f by simp
    show ?thesis
      unfolding o u [symmetric] c warp_period_minute
      by (rule list_all2_mapI)
        (use int_date_scaled32_floor_div [OF e, of _ off 1440] in \<open>simp add: date_width_def\<close>)
  next
    case warp_period_second
    then have c: "c = 86400" using p by (simp add: day_units_def)
    have o: "out = map (int_date_scaled64 86400 off every) xs"
      using r unfolding warp_period_second d f by simp
    show ?thesis
      unfolding o u [symmetric] c warp_period_second
      by (rule list_all2_mapI)
        (use int_date_scaled64_floor_div [OF e, of _ 86400 off] in simp)
  next
    case warp_period_millisecond
    then have c: "c = 86400000" using p by (simp add: day_units_def)
    have o: "out = map (int_date_scaled64 86400000 off every) xs"
      using r unfolding warp_period_millisecond d f by simp
    show ?thesis
      unfolding o u [symmetric] c warp_period_millisecond
      by (rule list_all2_mapI)
        (use int_date_scaled64_floor_div [OF e, of _ 86400000 off] in simp)
  qed (use p in \<open>simp_all add: day_units_def\<close>)
qed


lemma date_dbl_floor_div:
  assumes r: "warp_distance U x type every origin = Inr out"
    and p: "day_units type = Some c"
    and cl: "time_class_type U (zoned_input U x origin) = warp_class_date"
    and st: "zoned_input U x origin = REALSXP a vs"
  shows "list_all2
           (\<lambda>d v. R_FINITE v \<and> \<bar>dvalue v\<bar> < 2 ^ date_width type
                \<and> fits (date_width type)
                     (toward_zero (dvalue v) - origin_days U (used_origin U x origin))
                \<and> fits (date_width type)
                     ((toward_zero (dvalue v) - origin_days U (used_origin U x origin)) * c)
                \<and> fits (date_width type)
                     ((toward_zero (dvalue v) - origin_days U (used_origin U x origin)) * c
                        - (sint every - 1))
              \<longrightarrow> d = double_of_int
                        (floor_div
                           ((toward_zero (dvalue v) - origin_days U (used_origin U x origin)) * c)
                           (sint every)))
           out vs"
proof -
  note v = warp_distance_returned [OF r]
  note d = warp_distance_valid [OF v]
  have e: "0 < sint every" by (rule v(2))
  obtain off where off: "offset_of_origin (origin_to_days_from_epoch U) (used_origin U x origin)
                          = Inr off"
    and u: "origin_units off = origin_days U (used_origin U x origin)"
    by (rule days_offset)
  note f = date_dbl_returns [OF cl st off]
  show ?thesis
  proof (cases type)
    case warp_period_hour
    then have c: "c = 24" using p by (simp add: day_units_def)
    have o: "out = map (dbl_date_scaled32 24 off every) vs"
      using r unfolding warp_period_hour d f by simp
    show ?thesis
      unfolding o u [symmetric] c warp_period_hour
      by (rule list_all2_mapI)
        (use dbl_date_scaled32_floor_div [OF e, of _ off 24] in
          \<open>simp add: date_width_def sint_int32_of_double\<close>)
  next
    case warp_period_minute
    then have c: "c = 1440" using p by (simp add: day_units_def)
    have o: "out = map (dbl_date_scaled32 1440 off every) vs"
      using r unfolding warp_period_minute d f by simp
    show ?thesis
      unfolding o u [symmetric] c warp_period_minute
      by (rule list_all2_mapI)
        (use dbl_date_scaled32_floor_div [OF e, of _ off 1440] in
          \<open>simp add: date_width_def sint_int32_of_double\<close>)
  next
    case warp_period_second
    then have c: "c = 86400" using p by (simp add: day_units_def)
    have o: "out = map (dbl_date_scaled64 86400 off every) vs"
      using r unfolding warp_period_second d f by simp
    show ?thesis
      unfolding o u [symmetric] c warp_period_second
      by (rule list_all2_mapI)
        (use dbl_date_scaled64_floor_div [OF e, of _ off 86400] in
          \<open>simp add: date_width_def sint_int64_of_double\<close>)
  next
    case warp_period_millisecond
    then have c: "c = 86400000" using p by (simp add: day_units_def)
    have o: "out = map (dbl_date_scaled64 86400000 off every) vs"
      using r unfolding warp_period_millisecond d f by simp
    show ?thesis
      unfolding o u [symmetric] c warp_period_millisecond
      by (rule list_all2_mapI)
        (use dbl_date_scaled64_floor_div [OF e, of _ off 86400000] in
          \<open>simp add: date_width_def sint_int64_of_double\<close>)
  qed (use p in \<open>simp_all add: day_units_def\<close>)
qed

lemma int_posixct_unit64_floor_div:
  assumes "0 < sint every" "0 < sint c" "elt \<noteq> NA_INTEGER"
    "fits 63 (sint elt - origin_units off)" "fits 63 (sint elt - origin_units off - (sint c - 1))"
    "fits 63 (floor_div (sint elt - origin_units off) (sint c) - (sint every - 1))"
  shows "int_posixct_unit64 c off every elt
           = double_of_int
               (floor_div (floor_div (sint elt - origin_units off) (sint c)) (sint every))"
  using unit64_floor_div [OF assms(1,2) sint_scast_32_64 [of elt] assms(4,5,6)] assms(3)
  by (simp add: int_posixct_unit64_def)

lemma dbl_posixct_unit64_floor_div:
  assumes "0 < sint every" "0 < sint c" "R_FINITE v"
    "fits 63 (sint (guarded_floor v) - origin_units off)"
    "fits 63 (sint (guarded_floor v) - origin_units off - (sint c - 1))"
    "fits 63 (floor_div (sint (guarded_floor v) - origin_units off) (sint c) - (sint every - 1))"
  shows "dbl_posixct_unit64 c off every v
           = double_of_int
               (floor_div (floor_div (sint (guarded_floor v) - origin_units off) (sint c))
                  (sint every))"
  using unit64_floor_div [OF assms(1,2) refl assms(4,5,6)] assms(3)
  by (simp add: dbl_posixct_unit64_def)

lemma int_posixct_second_floor_div:
  assumes "0 < sint every" "elt \<noteq> NA_INTEGER"
    "fits 63 (sint elt - origin_units off)"
    "fits 63 (sint elt - origin_units off - (sint every - 1))"
  shows "int_posixct_second_elt off every elt
           = double_of_int (floor_div (sint elt - origin_units off) (sint every))"
  using second64_floor_div [OF assms(1) sint_scast_32_64 [of elt] assms(3,4)] assms(2)
  by (simp add: int_posixct_second_elt_def)

lemma dbl_posixct_second_floor_div:
  assumes "0 < sint every" "R_FINITE v"
    "fits 63 (sint (guarded_floor v) - origin_units off)"
    "fits 63 (sint (guarded_floor v) - origin_units off - (sint every - 1))"
  shows "dbl_posixct_second_elt off every v
           = double_of_int (floor_div (sint (guarded_floor v) - origin_units off) (sint every))"
  using second64_floor_div [OF assms(1) refl assms(3,4)] assms(2)
  by (simp add: dbl_posixct_second_elt_def)

lemma int_posixct_millisecond_floor_div:
  assumes "0 < sint every" "elt \<noteq> NA_INTEGER" "fits 31 (sint elt * 1000)"
    "fits 63 (sint elt * 1000 - origin_units off)"
    "fits 63 (sint elt * 1000 - origin_units off - (sint every - 1))"
  shows "int_posixct_millisecond_elt off every elt
           = double_of_int (floor_div (sint elt * 1000 - origin_units off) (sint every))"
  using second64_floor_div [OF assms(1) sint_scast_mult_1000 [OF assms(3)] assms(4,5)] assms(2)
  by (simp add: int_posixct_millisecond_elt_def)

lemma dbl_posixct_millisecond_floor_div:
  assumes "0 < sint every" "R_FINITE v"
    "fits 63 (sint (guarded_floor_to_millisecond v) - origin_units off)"
    "fits 63 (sint (guarded_floor_to_millisecond v) - origin_units off - (sint every - 1))"
  shows "dbl_posixct_millisecond_elt off every v
           = double_of_int
               (floor_div (sint (guarded_floor_to_millisecond v) - origin_units off) (sint every))"
  using second64_floor_div [OF assms(1) refl assms(3,4)] assms(2)
  by (simp add: dbl_posixct_millisecond_elt_def)

lemma floor_div_one [simp]: "floor_div a 1 = a"
  by (simp add: floor_div_def)

lemma instants_int_floor_div:
  assumes r: "warp_distance U x type every origin = Inr out"
    and p: "unit_seconds type = Some c"
    and cl: "time_class_type U (zoned_input U x origin) = warp_class_posixct
             \<or> time_class_type U (zoned_input U x origin) = warp_class_posixlt"
    and st: "instants_of U (zoned_input U x origin) = INTSXP a xs"
  shows "list_all2
           (\<lambda>d elt. elt \<noteq> NA_INTEGER
                \<and> fits 63 (sint elt - origin_seconds U (used_origin U x origin))
                \<and> fits 63 (sint elt - origin_seconds U (used_origin U x origin) - (c - 1))
                \<and> fits 63 (floor_div (sint elt - origin_seconds U (used_origin U x origin)) c
                             - (sint every - 1))
              \<longrightarrow> d = double_of_int
                        (floor_div
                           (floor_div (sint elt - origin_seconds U (used_origin U x origin)) c)
                           (sint every)))
           out xs"
proof -
  note v = warp_distance_returned [OF r]
  note d = warp_distance_valid [OF v]
  have e: "0 < sint every" by (rule v(2))
  obtain off where off: "offset_of_origin (origin_to_seconds_from_epoch U)
                           (used_origin U x origin) = Inr off"
    and u: "origin_units off = origin_seconds U (used_origin U x origin)"
    by (rule seconds_offset)
  note f = instants_int_returns [OF cl st off]
  show ?thesis
  proof (cases type)
    case warp_period_hour
    then have c: "c = 3600" using p by (simp add: unit_seconds_def)
    have o: "out = map (int_posixct_unit64 3600 off every) xs"
      using r unfolding warp_period_hour d f by simp
    show ?thesis
      unfolding o u [symmetric] c
      by (rule list_all2_mapI)
        (use int_posixct_unit64_floor_div [OF e, of 3600 _ off] in simp)
  next
    case warp_period_minute
    then have c: "c = 60" using p by (simp add: unit_seconds_def)
    have o: "out = map (int_posixct_unit64 60 off every) xs"
      using r unfolding warp_period_minute d f by simp
    show ?thesis
      unfolding o u [symmetric] c
      by (rule list_all2_mapI)
        (use int_posixct_unit64_floor_div [OF e, of 60 _ off] in simp)
  next
    case warp_period_second
    then have c: "c = 1" using p by (simp add: unit_seconds_def)
    have o: "out = map (int_posixct_second_elt off every) xs"
      using r unfolding warp_period_second d f by simp
    show ?thesis
      unfolding o u [symmetric] c
      by (rule list_all2_mapI)
        (use int_posixct_second_floor_div [OF e, of _ off] in simp)
  qed (use p in \<open>simp_all add: unit_seconds_def\<close>)
qed

lemma instants_dbl_floor_div:
  assumes r: "warp_distance U x type every origin = Inr out"
    and p: "unit_seconds type = Some c"
    and cl: "time_class_type U (zoned_input U x origin) = warp_class_posixct
             \<or> time_class_type U (zoned_input U x origin) = warp_class_posixlt"
    and st: "instants_of U (zoned_input U x origin) = REALSXP a vs"
  shows "list_all2
           (\<lambda>d v. R_FINITE v
                \<and> fits 63 (sint (guarded_floor v) - origin_seconds U (used_origin U x origin))
                \<and> fits 63 (sint (guarded_floor v) - origin_seconds U (used_origin U x origin)
                             - (c - 1))
                \<and> fits 63 (floor_div
                              (sint (guarded_floor v)
                                 - origin_seconds U (used_origin U x origin)) c
                             - (sint every - 1))
              \<longrightarrow> d = double_of_int
                        (floor_div
                           (floor_div
                              (sint (guarded_floor v)
                                 - origin_seconds U (used_origin U x origin)) c)
                           (sint every)))
           out vs"
proof -
  note v = warp_distance_returned [OF r]
  note d = warp_distance_valid [OF v]
  have e: "0 < sint every" by (rule v(2))
  obtain off where off: "offset_of_origin (origin_to_seconds_from_epoch U)
                           (used_origin U x origin) = Inr off"
    and u: "origin_units off = origin_seconds U (used_origin U x origin)"
    by (rule seconds_offset)
  note f = instants_dbl_returns [OF cl st off]
  show ?thesis
  proof (cases type)
    case warp_period_hour
    then have c: "c = 3600" using p by (simp add: unit_seconds_def)
    have o: "out = map (dbl_posixct_unit64 3600 off every) vs"
      using r unfolding warp_period_hour d f by simp
    show ?thesis
      unfolding o u [symmetric] c
      by (rule list_all2_mapI)
        (use dbl_posixct_unit64_floor_div [OF e, of 3600 _ off] in simp)
  next
    case warp_period_minute
    then have c: "c = 60" using p by (simp add: unit_seconds_def)
    have o: "out = map (dbl_posixct_unit64 60 off every) vs"
      using r unfolding warp_period_minute d f by simp
    show ?thesis
      unfolding o u [symmetric] c
      by (rule list_all2_mapI)
        (use dbl_posixct_unit64_floor_div [OF e, of 60 _ off] in simp)
  next
    case warp_period_second
    then have c: "c = 1" using p by (simp add: unit_seconds_def)
    have o: "out = map (dbl_posixct_second_elt off every) vs"
      using r unfolding warp_period_second d f by simp
    show ?thesis
      unfolding o u [symmetric] c
      by (rule list_all2_mapI)
        (use dbl_posixct_second_floor_div [OF e, of _ off] in simp)
  qed (use p in \<open>simp_all add: unit_seconds_def\<close>)
qed

lemma instants_millisecond_floor_div:
  assumes r: "warp_distance U x warp_period_millisecond every origin = Inr out"
    and cl: "time_class_type U (zoned_input U x origin) = warp_class_posixct
             \<or> time_class_type U (zoned_input U x origin) = warp_class_posixlt"
  shows
    "instants_of U (zoned_input U x origin) = INTSXP a xs \<Longrightarrow>
     list_all2
       (\<lambda>d elt. elt \<noteq> NA_INTEGER \<and> fits 31 (sint elt * 1000)
            \<and> fits 63 (sint elt * 1000 - origin_milliseconds U (used_origin U x origin))
            \<and> fits 63 (sint elt * 1000 - origin_milliseconds U (used_origin U x origin)
                         - (sint every - 1))
          \<longrightarrow> d = double_of_int
                    (floor_div
                       (sint elt * 1000 - origin_milliseconds U (used_origin U x origin))
                       (sint every)))
       out xs"
    "instants_of U (zoned_input U x origin) = REALSXP a vs \<Longrightarrow>
     list_all2
       (\<lambda>d v. R_FINITE v
            \<and> fits 63 (sint (guarded_floor_to_millisecond v)
                         - origin_milliseconds U (used_origin U x origin))
            \<and> fits 63 (sint (guarded_floor_to_millisecond v)
                         - origin_milliseconds U (used_origin U x origin) - (sint every - 1))
          \<longrightarrow> d = double_of_int
                    (floor_div
                       (sint (guarded_floor_to_millisecond v)
                          - origin_milliseconds U (used_origin U x origin))
                       (sint every)))
       out vs"
proof -
  note v = warp_distance_returned [OF r]
  note d = warp_distance_valid [OF v]
  have e: "0 < sint every" by (rule v(2))
  obtain off where off: "offset_of_origin (origin_to_milliseconds_from_epoch U)
                           (used_origin U x origin) = Inr off"
    and u: "origin_units off = origin_milliseconds U (used_origin U x origin)"
    by (rule milliseconds_offset)
  note f = instants_millisecond_returns [OF cl off]
  show "list_all2
       (\<lambda>d elt. elt \<noteq> NA_INTEGER \<and> fits 31 (sint elt * 1000)
            \<and> fits 63 (sint elt * 1000 - origin_milliseconds U (used_origin U x origin))
            \<and> fits 63 (sint elt * 1000 - origin_milliseconds U (used_origin U x origin)
                         - (sint every - 1))
          \<longrightarrow> d = double_of_int
                    (floor_div
                       (sint elt * 1000 - origin_milliseconds U (used_origin U x origin))
                       (sint every)))
       out xs"
    if st: "instants_of U (zoned_input U x origin) = INTSXP a xs"
  proof -
    have o: "out = map (int_posixct_millisecond_elt off every) xs"
      using r unfolding d f(1) [OF st] by simp
    show ?thesis
      unfolding o u [symmetric]
      by (rule list_all2_mapI)
        (use int_posixct_millisecond_floor_div [OF e, of _ off] in simp)
  qed
  show "list_all2
       (\<lambda>d v. R_FINITE v
            \<and> fits 63 (sint (guarded_floor_to_millisecond v)
                         - origin_milliseconds U (used_origin U x origin))
            \<and> fits 63 (sint (guarded_floor_to_millisecond v)
                         - origin_milliseconds U (used_origin U x origin) - (sint every - 1))
          \<longrightarrow> d = double_of_int
                    (floor_div
                       (sint (guarded_floor_to_millisecond v)
                          - origin_milliseconds U (used_origin U x origin))
                       (sint every)))
       out vs"
    if st: "instants_of U (zoned_input U x origin) = REALSXP a vs"
  proof -
    have o: "out = map (dbl_posixct_millisecond_elt off every) vs"
      using r unfolding d f(2) [OF st] by simp
    show ?thesis
      unfolding o u [symmetric]
      by (rule list_all2_mapI)
        (use dbl_posixct_millisecond_floor_div [OF e, of _ off] in simp)
  qed
qed

section \<open>Floored division: the claim\<close>

text \<open>
  Claim C1, as the sources have it. Whenever \<open>warp_distance\<close> returns, the slot of an
  element that is not missing is the conversion of \<open>floor_div shifted every\<close>, provided
  the steps of the loop fit its width. For the periods from the day up \<open>shifted\<close> is the
  offset of the element minus that of the origin, in 32 bits, a quarter and a week
  dividing by \<open>3 * every\<close> and \<open>7 * every\<close>. For a Date below the day it is the
  difference of the days times the units in a day, in 32 bits for hours and minutes, in
  64 bits for seconds and milliseconds; the days of a double are its value cut towards
  zero. For an instant it is the difference of the seconds, in 64 bits, divided by the
  seconds in the unit before the division by \<open>every\<close>: the origin is subtracted in
  seconds, not in units; by milliseconds it is the difference of the milliseconds, the
  product of an integer by 1000 being an \<open>int\<close>. The seconds and milliseconds of a
  double are those of the guarded conversions. \<open>floor_div n 1\<close> is \<open>n\<close>; \<open>floor_div n b\<close>
  is the one \<open>q\<close> with \<open>n = q * b + r\<close>, \<open>0 \<le> r < b\<close>, and it is \<open>n / b\<close> for \<open>0 \<le> n\<close>,
  \<open>(n - (b - 1)) / b\<close> else, under the truncating division.
\<close>

theorem distance_floor_div:
  assumes "warp_distance U x type every origin = Inr out"
  shows
    "(period_offsets U type = Some (c, g) \<and> c * sint every < 2 ^ 31
      \<longrightarrow> list_all2
            (\<lambda>d elt. elt \<noteq> NA_INTEGER
                 \<and> fits 31 (sint elt - origin_first_offset g (used_origin U x origin))
                 \<and> fits 31 (sint elt - origin_first_offset g (used_origin U x origin)
                              - (c * sint every - 1))
               \<longrightarrow> d = double_of_int
                         (floor_div (sint elt - origin_first_offset g (used_origin U x origin))
                            (c * sint every)))
            out (INTEGER (g (zoned_input U x origin))))
     \<and> (day_units type = Some k
        \<and> time_class_type U (zoned_input U x origin) = warp_class_date
        \<and> zoned_input U x origin = INTSXP a xs
      \<longrightarrow> list_all2
            (\<lambda>d elt. elt \<noteq> NA_INTEGER
                 \<and> fits (date_width type) (sint elt - origin_days U (used_origin U x origin))
                 \<and> fits (date_width type)
                      ((sint elt - origin_days U (used_origin U x origin)) * k)
                 \<and> fits (date_width type)
                      ((sint elt - origin_days U (used_origin U x origin)) * k
                         - (sint every - 1))
               \<longrightarrow> d = double_of_int
                         (floor_div ((sint elt - origin_days U (used_origin U x origin)) * k)
                            (sint every)))
            out xs)
     \<and> (day_units type = Some k
        \<and> time_class_type U (zoned_input U x origin) = warp_class_date
        \<and> zoned_input U x origin = REALSXP a vs
      \<longrightarrow> list_all2
            (\<lambda>d v. R_FINITE v \<and> \<bar>dvalue v\<bar> < 2 ^ date_width type
                 \<and> fits (date_width type)
                      (toward_zero (dvalue v) - origin_days U (used_origin U x origin))
                 \<and> fits (date_width type)
                      ((toward_zero (dvalue v) - origin_days U (used_origin U x origin)) * k)
                 \<and> fits (date_width type)
                      ((toward_zero (dvalue v) - origin_days U (used_origin U x origin)) * k
                         - (sint every - 1))
               \<longrightarrow> d = double_of_int
                         (floor_div
                            ((toward_zero (dvalue v) - origin_days U (used_origin U x origin))
                               * k)
                            (sint every)))
            out vs)
     \<and> (unit_seconds type = Some s
        \<and> (time_class_type U (zoned_input U x origin) = warp_class_posixct
           \<or> time_class_type U (zoned_input U x origin) = warp_class_posixlt)
        \<and> instants_of U (zoned_input U x origin) = INTSXP a xs
      \<longrightarrow> list_all2
            (\<lambda>d elt. elt \<noteq> NA_INTEGER
                 \<and> fits 63 (sint elt - origin_seconds U (used_origin U x origin))
                 \<and> fits 63 (sint elt - origin_seconds U (used_origin U x origin) - (s - 1))
                 \<and> fits 63 (floor_div (sint elt - origin_seconds U (used_origin U x origin)) s
                              - (sint every - 1))
               \<longrightarrow> d = double_of_int
                         (floor_div
                            (floor_div (sint elt - origin_seconds U (used_origin U x origin)) s)
                            (sint every)))
            out xs)
     \<and> (unit_seconds type = Some s
        \<and> (time_class_type U (zoned_input U x origin) = warp_class_posixct
           \<or> time_class_type U (zoned_input U x origin) = warp_class_posixlt)
        \<and> instants_of U (zoned_input U x origin) = REALSXP a vs
      \<longrightarrow> list_all2
            (\<lambda>d v. R_FINITE v
                 \<and> fits 63 (sint (guarded_floor v) - origin_seconds U (used_origin U x origin))
                 \<and> fits 63 (sint (guarded_floor v) - origin_seconds U (used_origin U x origin)
                              - (s - 1))
                 \<and> fits 63 (floor_div
                               (sint (guarded_floor v)
                                  - origin_seconds U (used_origin U x origin)) s
                              - (sint every - 1))
               \<longrightarrow> d = double_of_int
                         (floor_div
                            (floor_div
                               (sint (guarded_floor v)
                                  - origin_seconds U (used_origin U x origin)) s)
                            (sint every)))
            out vs)
     \<and> (type = warp_period_millisecond
        \<and> (time_class_type U (zoned_input U x origin) = warp_class_posixct
           \<or> time_class_type U (zoned_input U x origin) = warp_class_posixlt)
        \<and> instants_of U (zoned_input U x origin) = INTSXP a xs
      \<longrightarrow> list_all2
            (\<lambda>d elt. elt \<noteq> NA_INTEGER \<and> fits 31 (sint elt * 1000)
                 \<and> fits 63 (sint elt * 1000 - origin_milliseconds U (used_origin U x origin))
                 \<and> fits 63 (sint elt * 1000 - origin_milliseconds U (used_origin U x origin)
                              - (sint every - 1))
               \<longrightarrow> d = double_of_int
                         (floor_div
                            (sint elt * 1000 - origin_milliseconds U (used_origin U x origin))
                            (sint every)))
            out xs)
     \<and> (type = warp_period_millisecond
        \<and> (time_class_type U (zoned_input U x origin) = warp_class_posixct
           \<or> time_class_type U (zoned_input U x origin) = warp_class_posixlt)
        \<and> instants_of U (zoned_input U x origin) = REALSXP a vs
      \<longrightarrow> list_all2
            (\<lambda>d v. R_FINITE v
                 \<and> fits 63 (sint (guarded_floor_to_millisecond v)
                              - origin_milliseconds U (used_origin U x origin))
                 \<and> fits 63 (sint (guarded_floor_to_millisecond v)
                              - origin_milliseconds U (used_origin U x origin)
                              - (sint every - 1))
               \<longrightarrow> d = double_of_int
                         (floor_div
                            (sint (guarded_floor_to_millisecond v)
                               - origin_milliseconds U (used_origin U x origin))
                            (sint every)))
            out vs)
     \<and> floor_div n 1 = n
     \<and> (\<forall>q. is_floor_quotient n (sint every) q \<longleftrightarrow> q = floor_div n (sint every))
     \<and> floor_div n (sint every)
         = (if 0 \<le> n then n sdiv sint every else (n - (sint every - 1)) sdiv sint every)"
proof -
  have e: "1 \<le> sint every" using warp_distance_returned(2) [OF assms] by simp
  have 1: "floor_div n 1 = n" by (simp add: floor_div_def)
  have 2: "\<forall>q. is_floor_quotient n (sint every) q \<longleftrightarrow> q = floor_div n (sint every)"
    using floor_div_unique [OF e] by blast
  have 3: "floor_div n (sint every)
         = (if 0 \<le> n then n sdiv sint every else (n - (sint every - 1)) sdiv sint every)"
    using e by (rule floor_div_truncating)
  show ?thesis
    apply (intro conjI impI)
    subgoal by (elim conjE) (rule offsets_floor_div [OF assms], assumption+)
    subgoal by (elim conjE) (rule date_int_floor_div [OF assms], assumption+)
    subgoal by (elim conjE) (rule date_dbl_floor_div [OF assms], assumption+)
    subgoal by (elim conjE) (rule instants_int_floor_div [OF assms], assumption+)
    subgoal by (elim conjE) (rule instants_dbl_floor_div [OF assms], assumption+)
    subgoal
      using assms
      by (elim conjE, hypsubst) (rule instants_millisecond_floor_div(1), assumption+)
    subgoal
      using assms
      by (elim conjE, hypsubst) (rule instants_millisecond_floor_div(2), assumption+)
    subgoal by (rule 1)
    subgoal by (rule 2)
    subgoal by (rule 3)
    done
qed

lemma date_utils_more:
  "as_datetime date_utils x = x"
  "as_posixlt_from_posixct date_utils x = x"
  "get_day_offset date_utils (INTSXP a xs)
     = INTSXP [] (map (\<lambda>d. if d = NA_INTEGER then NA_INTEGER else d) xs)"
  "get_month_offset date_utils (INTSXP a xs)
     = INTSXP [] (map (\<lambda>d. if d = NA_INTEGER then NA_INTEGER
                           else wc_year_offset (date_components d) * 12
                                  + wc_month (date_components d)) xs)"
  "get_year_offset date_utils (INTSXP a xs)
     = INTSXP [] (map (\<lambda>d. if d = NA_INTEGER then NA_INTEGER
                           else wc_year_offset (date_components d)) xs)"
  by (simp_all add: date_utils_def over_days_def date_day_offsets_int)

lemma posixct_class:
  "date_time_class_type (INTSXP [(''class'', [''POSIXct''])] xs) = warp_class_posixct"
  "date_time_class_type (REALSXP [(''class'', [''POSIXct''])] ys) = warp_class_posixct"
  by (simp_all add: date_time_class_type_def class_of_def)

lemma date_components_m1000:
  "date_components (- 1000)
     = \<lparr>wc_year_offset = - 3, wc_month = 3, wc_day = 7, wc_yday = 96\<rparr>"
  by code_simp

lemma guarded_floor_values:
  "guarded_floor (double_of_int 1800) = 1800"
  "guarded_floor_to_millisecond (double_of_int 0) = 0"
  by code_simp+

text \<open>
  Claim C1 as stated fails in four places. The step \<open>elt - (every - 1)\<close> leaves the 32
  bits: the Date 1967-04-07, of year offset \<open>- 3\<close>, by years with \<open>every = 2147483647\<close>
  is at 1, the floored quotient being \<open>- 1\<close>. The origin of an instant is subtracted in
  seconds: the instant 3600 by hours from the origin 1800 is at 0, one hour minus no
  hour being 1. The milliseconds of an integer instant are a product in 32 bits: the
  instant 2147484 is at \<open>- 2147483296\<close>. So are the hours of a Date: the Date 89478486 is
  at \<open>- 2147483632\<close>.
\<close>

theorem distance_floor_div_counterexample:
  "warp_distance date_utils (INTSXP [(''class'', [''Date''])] [- 1000]) warp_period_year
       2147483647 R_NilValue
     = Inr [double_of_int 1]
   \<and> wc_year_offset (date_components (- 1000)) = - 3
   \<and> floor_div (- 3 - 0) 2147483647 = - 1
   \<and> double_of_int 1 \<noteq> double_of_int (- 1)
   \<and> warp_distance date_utils (INTSXP [(''class'', [''POSIXct''])] [3600]) warp_period_hour 1
         (REALSXP [(''class'', [''POSIXct''])] [double_of_int 1800])
     = Inr [double_of_int 0]
   \<and> floor_div (floor_div 3600 3600 - floor_div 1800 3600) 1 = 1
   \<and> double_of_int 0 \<noteq> double_of_int 1
   \<and> warp_distance date_utils (INTSXP [(''class'', [''POSIXct''])] [2147484])
         warp_period_millisecond 1 (REALSXP [(''class'', [''POSIXct''])] [double_of_int 0])
     = Inr [double_of_int (- 2147483296)]
   \<and> floor_div (2147484 * 1000 - 0) 1 = 2147484000
   \<and> double_of_int (- 2147483296) \<noteq> double_of_int 2147484000
   \<and> warp_distance date_utils (INTSXP [(''class'', [''Date''])] [89478486]) warp_period_hour 1
         R_NilValue
     = Inr [double_of_int (- 2147483632)]
   \<and> floor_div (89478486 * 24 - 0) 1 = 2147483664
   \<and> double_of_int (- 2147483632) \<noteq> double_of_int 2147483664"
proof -
  let ?D = "[(''class'', [''Date''])]" and ?P = "[(''class'', [''POSIXct''])]"
  have e1: "0 < sint (1 :: int32)" "0 < sint (2147483647 :: int32)" by simp_all
  have vo: "validate_origin date_utils R_NilValue = Inr ()"
    "validate_origin date_utils (REALSXP ?P [v]) = Inr ()" for v
    by (simp_all add: validate_origin_def date_utils_simps posixct_class)
  have cl: "time_class_type date_utils (INTSXP ?D xs) \<noteq> warp_class_unknown"
    "time_class_type date_utils (INTSXP ?P xs) \<noteq> warp_class_unknown" for xs
    by (simp_all add: date_utils_simps date_class posixct_class)
  have na: "(- 1000 :: int32) \<noteq> NA_INTEGER" "(0 :: int32) \<noteq> NA_INTEGER"
    "(- 3 :: int32) \<noteq> NA_INTEGER" "(3600 :: int32) \<noteq> NA_INTEGER"
    "(2147484 :: int32) \<noteq> NA_INTEGER" "(89478486 :: int32) \<noteq> NA_INTEGER"
    by (simp_all add: NA_INTEGER_def)
  have 1: "warp_distance date_utils (INTSXP ?D [- 1000]) warp_period_year 2147483647 R_NilValue
             = Inr [double_of_int 1]"
    unfolding warp_distance_valid [OF vo(1) e1(2) cl(1)]
    using na
    by (simp add: offsets_return zoned_input_def used_origin_def date_utils_simps
        date_utils_more offset_of_origin_def origin_offset_int_def then_do_def
        date_components_0 date_components_m1000 warp_distance_offset_elt_def emit32_def
        sub_offset_def floor_every32_def c_div32_def double_of_int32_def word_sless_alt
        signed_divide_int_def)
  have 2: "warp_distance date_utils (INTSXP ?P [3600]) warp_period_hour 1
             (REALSXP ?P [double_of_int 1800]) = Inr [double_of_int 0]"
    unfolding warp_distance_valid [OF vo(2) e1(1) cl(2)]
    using na
    by (subst instants_int_returns(1) [where a = ?P and xs = "[3600]" and off = "Some 1800"])
      (simp_all add: zoned_input_def used_origin_def date_utils_simps date_utils_more
        posixct_class instants_of_def offset_of_origin_def origin_conversions_never_raise
        guarded_floor_values int_posixct_unit64_def emit64_def sub_offset_def floor_unit64_def
        c_div64_def double_of_int64_def word_sless_alt signed_divide_int_def)
  have 3: "warp_distance date_utils (INTSXP ?P [2147484]) warp_period_millisecond 1
             (REALSXP ?P [double_of_int 0]) = Inr [double_of_int (- 2147483296)]"
    unfolding warp_distance_valid [OF vo(2) e1(1) cl(2)]
    using na
    by (subst instants_millisecond_returns(1)
          [where a = ?P and xs = "[2147484]" and off = "Some 0"])
      (simp_all add: zoned_input_def used_origin_def date_utils_simps date_utils_more
        posixct_class instants_of_def offset_of_origin_def origin_conversions_never_raise
        guarded_floor_values int_posixct_millisecond_elt_def emit64_def sub_offset_def
        double_of_int64_def)
  have 4: "warp_distance date_utils (INTSXP ?D [89478486]) warp_period_hour 1 R_NilValue
             = Inr [double_of_int (- 2147483632)]"
    unfolding warp_distance_valid [OF vo(1) e1(1) cl(1)]
    using na
    by (subst date_int_returns(1) [where a = ?D and xs = "[89478486]" and off = "Some 0"])
      (simp_all add: zoned_input_def used_origin_def date_utils_simps date_class
        origin_to_days_epoch offset_of_origin_def int_date_scaled32_def emit32_def
        sub_offset_def double_of_int32_def)
  have f: "floor_div (- 3 - 0) 2147483647 = - 1"
    "floor_div (floor_div 3600 3600 - floor_div 1800 3600) 1 = 1"
    "floor_div (2147484 * 1000 - 0) 1 = 2147484000"
    "floor_div (89478486 * 24 - 0) 1 = 2147483664"
    by (simp_all add: floor_div_def)
  have n: "double_of_int 1 \<noteq> double_of_int (- 1)" "double_of_int 0 \<noteq> double_of_int 1"
    "double_of_int (- 2147483296) \<noteq> double_of_int 2147484000"
    "double_of_int (- 2147483632) \<noteq> double_of_int 2147483664"
    by (simp_all add: double_of_int_inject)
  show ?thesis
    using 1 2 3 4 f n by (simp add: date_components_m1000)
qed


theorem distance_floor_div_witness:
  "warp_distance date_utils (INTSXP [(''class'', [''Date''])] [- 4]) warp_period_day 2 R_NilValue
     = Inr [double_of_int (- 2)]
   \<and> double_of_int (- 2) = double_of_int (floor_div (- 4 - 0) (1 * 2))
   \<and> warp_distance date_utils (INTSXP [(''class'', [''POSIXct''])] [- 3601]) warp_period_hour 1
         (REALSXP [(''class'', [''POSIXct''])] [double_of_int 1800])
     = Inr [double_of_int (- 2)]
   \<and> double_of_int (- 2) = double_of_int (floor_div (floor_div (- 3601 - 1800) 3600) 1)"
proof -
  let ?D = "[(''class'', [''Date''])]" and ?P = "[(''class'', [''POSIXct''])]"
  have e: "0 < sint (1 :: int32)" "0 < sint (2 :: int32)" by simp_all
  have vo: "validate_origin date_utils R_NilValue = Inr ()"
    "validate_origin date_utils (REALSXP ?P [v]) = Inr ()" for v
    by (simp_all add: validate_origin_def date_utils_simps posixct_class)
  have cl: "time_class_type date_utils (INTSXP ?D xs) \<noteq> warp_class_unknown"
    "time_class_type date_utils (INTSXP ?P xs) \<noteq> warp_class_unknown" for xs
    by (simp_all add: date_utils_simps date_class posixct_class)
  have na: "(- 4 :: int32) \<noteq> NA_INTEGER" "(0 :: int32) \<noteq> NA_INTEGER"
    "(- 3601 :: int32) \<noteq> NA_INTEGER"
    by (simp_all add: NA_INTEGER_def)
  have 1: "warp_distance date_utils (INTSXP ?D [- 4]) warp_period_day 2 R_NilValue
             = Inr [double_of_int (- 2)]"
    unfolding warp_distance_valid [OF vo(1) e(2) cl(1)]
    using na
    by (simp add: offsets_return zoned_input_def used_origin_def date_utils_simps
        date_utils_more offset_of_origin_def origin_offset_int_def then_do_def
        warp_distance_offset_elt_def emit32_def sub_offset_def floor_every32_def c_div32_def
        double_of_int32_def word_sless_alt signed_divide_int_def)
  have 2: "warp_distance date_utils (INTSXP ?P [- 3601]) warp_period_hour 1
             (REALSXP ?P [double_of_int 1800]) = Inr [double_of_int (- 2)]"
    unfolding warp_distance_valid [OF vo(2) e(1) cl(2)]
    using na
    by (subst instants_int_returns(1) [where a = ?P and xs = "[- 3601]" and off = "Some 1800"])
      (simp_all add: zoned_input_def used_origin_def date_utils_simps date_utils_more
        posixct_class instants_of_def offset_of_origin_def origin_conversions_never_raise
        guarded_floor_values int_posixct_unit64_def emit64_def sub_offset_def floor_unit64_def
        c_div64_def double_of_int64_def word_sless_alt signed_divide_int_def)
  have o: "origin_first_offset (get_day_offset date_utils)
             (used_origin date_utils (INTSXP ?D [- 4]) R_NilValue) = 0"
    "origin_seconds date_utils
       (used_origin date_utils (INTSXP ?P [- 3601]) (REALSXP ?P [double_of_int 1800])) = 1800"
    by (simp_all add: origin_first_offset_def origin_seconds_def used_origin_def
        date_utils_simps date_utils_more guarded_floor_values)
  note t1 = distance_floor_div [OF 1, of 1 "get_day_offset date_utils"]
  note t2 = distance_floor_div [OF 2, of _ _ _ ?P "[- 3601]" _ 3600]
  have 3: "double_of_int (- 2) = double_of_int (floor_div (- 4 - 0) (1 * 2))"
    using conjunct1 [OF t1] na
    by (simp add: period_offsets_def zoned_input_def date_utils_more o fits_def)
  have 4: "double_of_int (- 2) = double_of_int (floor_div (floor_div (- 3601 - 1800) 3600) 1)"
    using conjunct1 [OF conjunct2 [OF conjunct2 [OF conjunct2 [OF t2]]]] na
    by (simp add: unit_seconds_def zoned_input_def date_utils_simps date_utils_more
        posixct_class instants_of_def o floor_div_def fits_def)
  show ?thesis using 1 2 3 4 by (intro conjI)
qed

section \<open>Scaling by \<open>every\<close>: the whole engine\<close>

lemma subday_forms:
  assumes "warp_distance_hour U y every origin = Inr out
           \<or> warp_distance_minute U y every origin = Inr out
           \<or> warp_distance_second U y every origin = Inr out
           \<or> warp_distance_millisecond U y every origin = Inr out"
  obtains (date_int) a xs where "time_class_type U y = warp_class_date" "y = INTSXP a xs"
  | (date_dbl) a vs where "time_class_type U y = warp_class_date" "y = REALSXP a vs"
  | (instants_int) a xs where
      "time_class_type U y = warp_class_posixct \<or> time_class_type U y = warp_class_posixlt"
      "instants_of U y = INTSXP a xs"
  | (instants_dbl) a vs where
      "time_class_type U y = warp_class_posixct \<or> time_class_type U y = warp_class_posixlt"
      "instants_of U y = REALSXP a vs"
proof (cases "time_class_type U y")
  case warp_class_date
  then show ?thesis
    using assms date_int date_dbl
    by (cases y)
      (auto simp: warp_distance_hour_def warp_distance_minute_def warp_distance_second_def
        warp_distance_millisecond_def by_class_def by_storage_def
        date_warp_distance_hour_def date_warp_distance_minute_def
        date_warp_distance_second_def date_warp_distance_millisecond_def)
next
  case warp_class_posixct
  then show ?thesis
    using assms instants_int [of _ _] instants_dbl [of _ _]
    by (cases y)
      (auto simp: warp_distance_hour_def warp_distance_minute_def warp_distance_second_def
        warp_distance_millisecond_def by_class_def by_storage_def instants_of_def
        posixct_warp_distance_hour_def posixct_warp_distance_minute_def
        posixct_warp_distance_second_def posixct_warp_distance_millisecond_def)
next
  case warp_class_posixlt
  then show ?thesis
    using assms instants_int [of _ _] instants_dbl [of _ _]
    by (cases "as_datetime U y")
      (auto simp: warp_distance_hour_def warp_distance_minute_def warp_distance_second_def
        warp_distance_millisecond_def by_class_def by_storage_def instants_of_def
        posixct_warp_distance_hour_def posixct_warp_distance_minute_def
        posixct_warp_distance_second_def posixct_warp_distance_millisecond_def
        posixlt_warp_distance_hour_def posixlt_warp_distance_minute_def
        posixlt_warp_distance_second_def posixlt_warp_distance_millisecond_def)
next
  case warp_class_unknown
  then show ?thesis
    using assms
    by (auto simp: warp_distance_hour_def warp_distance_minute_def warp_distance_second_def
        warp_distance_millisecond_def by_class_def)
qed

lemma map_scale:
  assumes "Inr (map (b 1) xs) = (Inr out1 :: error + double list)"
    and "\<forall>d \<in> set out1. slot_fits w k d"
    and "\<And>e. slot_fits w k (b 1 e) \<Longrightarrow> b ev e = scale_slot k (b 1 e)"
  shows "(Inr (map (b ev) xs) :: error + double list) = Inr (map (scale_slot k) out1)"
  using assms by auto

lemma slot_fits_wider: "slot_fits 31 k d \<Longrightarrow> slot_fits 63 k d"
  by (auto simp: slot_fits_def split: option.splits)


lemma offset_loop_scale:
  assumes "then_do R (\<lambda>off. Inr (map (warp_distance_offset_elt off 1) xs)) = Inr out1"
    and "0 < sint k" "\<forall>d \<in> set out1. slot_fits 31 (sint k) d"
  shows "then_do R (\<lambda>off. Inr (map (warp_distance_offset_elt off k) xs))
           = Inr (map (scale_slot (sint k)) out1)"
proof (cases R)
  case (Inl err)
  then show ?thesis using assms(1) by (simp add: then_do_def)
next
  case (Inr off)
  show ?thesis
    using assms(1,3) unfolding Inr then_do_def sum.case
    by (intro map_scale [where b = "warp_distance_offset_elt off" and w = 31])
      (simp_all add: offset_elt_scale [OF assms(2)])
qed

lemma hour_scale:
  assumes k: "0 < sint k" and r1: "warp_distance_hour U y 1 origin = Inr out1"
    and f: "\<forall>d \<in> set out1.
              slot_fits (if time_class_type U y = warp_class_date then 31 else 63) (sint k) d"
  shows "warp_distance_hour U y k origin = Inr (map (scale_slot (sint k)) out1)"
proof -
  obtain offd where offd: "offset_of_origin (origin_to_days_from_epoch U) origin = Inr offd"
    by (rule days_offset)
  obtain offs where offs: "offset_of_origin (origin_to_seconds_from_epoch U) origin = Inr offs"
    by (rule seconds_offset)
  have "warp_distance_hour U y 1 origin = Inr out1
        \<or> warp_distance_minute U y 1 origin = Inr out1
        \<or> warp_distance_second U y 1 origin = Inr out1
        \<or> warp_distance_millisecond U y 1 origin = Inr out1"
    using r1 by simp
  then show ?thesis
  proof (cases rule: subday_forms)
    case (date_int a xs)
    note g = date_int_returns(1) [OF date_int offd]
    show ?thesis
      using r1 f date_int(1) unfolding g
      by (intro map_scale [where b = "int_date_scaled32 24 offd" and w = 31])
        (simp_all add: int_date_scaled32_scale [OF k])
  next
    case (date_dbl a vs)
    note g = date_dbl_returns(1) [OF date_dbl offd]
    show ?thesis
      using r1 f date_dbl(1) unfolding g
      by (intro map_scale [where b = "dbl_date_scaled32 24 offd" and w = 31])
        (simp_all add: dbl_date_scaled32_scale [OF k])
  next
    case (instants_int a xs)
    note g = instants_int_returns(1) [OF instants_int(1) instants_int(2) offs]
    have c: "time_class_type U y \<noteq> warp_class_date" using instants_int(1) by auto
    show ?thesis
      using r1 f c unfolding g
      by (intro map_scale [where b = "int_posixct_unit64 3600 offs" and w = 63])
        (simp_all add: int_posixct_unit64_scale [OF k])
  next
    case (instants_dbl a vs)
    note g = instants_dbl_returns(1) [OF instants_dbl(1) instants_dbl(2) offs]
    have c: "time_class_type U y \<noteq> warp_class_date" using instants_dbl(1) by auto
    show ?thesis
      using r1 f c unfolding g
      by (intro map_scale [where b = "dbl_posixct_unit64 3600 offs" and w = 63])
        (simp_all add: dbl_posixct_unit64_scale [OF k])
  qed
qed

lemma minute_scale:
  assumes k: "0 < sint k" and r1: "warp_distance_minute U y 1 origin = Inr out1"
    and f: "\<forall>d \<in> set out1.
              slot_fits (if time_class_type U y = warp_class_date then 31 else 63) (sint k) d"
  shows "warp_distance_minute U y k origin = Inr (map (scale_slot (sint k)) out1)"
proof -
  obtain offd where offd: "offset_of_origin (origin_to_days_from_epoch U) origin = Inr offd"
    by (rule days_offset)
  obtain offs where offs: "offset_of_origin (origin_to_seconds_from_epoch U) origin = Inr offs"
    by (rule seconds_offset)
  have "warp_distance_hour U y 1 origin = Inr out1
        \<or> warp_distance_minute U y 1 origin = Inr out1
        \<or> warp_distance_second U y 1 origin = Inr out1
        \<or> warp_distance_millisecond U y 1 origin = Inr out1"
    using r1 by simp
  then show ?thesis
  proof (cases rule: subday_forms)
    case (date_int a xs)
    note g = date_int_returns(2) [OF date_int offd]
    show ?thesis
      using r1 f date_int(1) unfolding g
      by (intro map_scale [where b = "int_date_scaled32 1440 offd" and w = 31])
        (simp_all add: int_date_scaled32_scale [OF k])
  next
    case (date_dbl a vs)
    note g = date_dbl_returns(2) [OF date_dbl offd]
    show ?thesis
      using r1 f date_dbl(1) unfolding g
      by (intro map_scale [where b = "dbl_date_scaled32 1440 offd" and w = 31])
        (simp_all add: dbl_date_scaled32_scale [OF k])
  next
    case (instants_int a xs)
    note g = instants_int_returns(2) [OF instants_int(1) instants_int(2) offs]
    have c: "time_class_type U y \<noteq> warp_class_date" using instants_int(1) by auto
    show ?thesis
      using r1 f c unfolding g
      by (intro map_scale [where b = "int_posixct_unit64 60 offs" and w = 63])
        (simp_all add: int_posixct_unit64_scale [OF k])
  next
    case (instants_dbl a vs)
    note g = instants_dbl_returns(2) [OF instants_dbl(1) instants_dbl(2) offs]
    have c: "time_class_type U y \<noteq> warp_class_date" using instants_dbl(1) by auto
    show ?thesis
      using r1 f c unfolding g
      by (intro map_scale [where b = "dbl_posixct_unit64 60 offs" and w = 63])
        (simp_all add: dbl_posixct_unit64_scale [OF k])
  qed
qed

lemma second_scale:
  assumes k: "0 < sint k" and r1: "warp_distance_second U y 1 origin = Inr out1"
    and f: "\<forall>d \<in> set out1.
              slot_fits (if time_class_type U y = warp_class_date then 63 else 63) (sint k) d"
  shows "warp_distance_second U y k origin = Inr (map (scale_slot (sint k)) out1)"
proof -
  obtain offd where offd: "offset_of_origin (origin_to_days_from_epoch U) origin = Inr offd"
    by (rule days_offset)
  obtain offs where offs: "offset_of_origin (origin_to_seconds_from_epoch U) origin = Inr offs"
    by (rule seconds_offset)
  have "warp_distance_hour U y 1 origin = Inr out1
        \<or> warp_distance_minute U y 1 origin = Inr out1
        \<or> warp_distance_second U y 1 origin = Inr out1
        \<or> warp_distance_millisecond U y 1 origin = Inr out1"
    using r1 by simp
  then show ?thesis
  proof (cases rule: subday_forms)
    case (date_int a xs)
    note g = date_int_returns(3) [OF date_int offd]
    show ?thesis
      using r1 f date_int(1) unfolding g
      by (intro map_scale [where b = "int_date_scaled64 86400 offd" and w = 63])
        (simp_all add: int_date_scaled64_scale [OF k])
  next
    case (date_dbl a vs)
    note g = date_dbl_returns(3) [OF date_dbl offd]
    show ?thesis
      using r1 f date_dbl(1) unfolding g
      by (intro map_scale [where b = "dbl_date_scaled64 86400 offd" and w = 63])
        (simp_all add: dbl_date_scaled64_scale [OF k])
  next
    case (instants_int a xs)
    note g = instants_int_returns(3) [OF instants_int(1) instants_int(2) offs]
    have c: "time_class_type U y \<noteq> warp_class_date" using instants_int(1) by auto
    show ?thesis
      using r1 f c unfolding g
      by (intro map_scale [where b = "int_posixct_second_elt offs" and w = 63])
        (simp_all add: int_posixct_second_scale [OF k])
  next
    case (instants_dbl a vs)
    note g = instants_dbl_returns(3) [OF instants_dbl(1) instants_dbl(2) offs]
    have c: "time_class_type U y \<noteq> warp_class_date" using instants_dbl(1) by auto
    show ?thesis
      using r1 f c unfolding g
      by (intro map_scale [where b = "dbl_posixct_second_elt offs" and w = 63])
        (simp_all add: dbl_posixct_second_scale [OF k])
  qed
qed

lemma millisecond_scale:
  assumes k: "0 < sint k" and r1: "warp_distance_millisecond U y 1 origin = Inr out1"
    and f: "\<forall>d \<in> set out1.
              slot_fits (if time_class_type U y = warp_class_date then 63 else 63) (sint k) d"
  shows "warp_distance_millisecond U y k origin = Inr (map (scale_slot (sint k)) out1)"
proof -
  obtain offd where offd: "offset_of_origin (origin_to_days_from_epoch U) origin = Inr offd"
    by (rule days_offset)
  obtain offs where offs: "offset_of_origin (origin_to_milliseconds_from_epoch U) origin = Inr offs"
    by (rule milliseconds_offset)
  have "warp_distance_hour U y 1 origin = Inr out1
        \<or> warp_distance_minute U y 1 origin = Inr out1
        \<or> warp_distance_second U y 1 origin = Inr out1
        \<or> warp_distance_millisecond U y 1 origin = Inr out1"
    using r1 by simp
  then show ?thesis
  proof (cases rule: subday_forms)
    case (date_int a xs)
    note g = date_int_returns(4) [OF date_int offd]
    show ?thesis
      using r1 f date_int(1) unfolding g
      by (intro map_scale [where b = "int_date_scaled64 86400000 offd" and w = 63])
        (simp_all add: int_date_scaled64_scale [OF k])
  next
    case (date_dbl a vs)
    note g = date_dbl_returns(4) [OF date_dbl offd]
    show ?thesis
      using r1 f date_dbl(1) unfolding g
      by (intro map_scale [where b = "dbl_date_scaled64 86400000 offd" and w = 63])
        (simp_all add: dbl_date_scaled64_scale [OF k])
  next
    case (instants_int a xs)
    note g = instants_millisecond_returns(1) [OF instants_int(1) offs instants_int(2)]
    have c: "time_class_type U y \<noteq> warp_class_date" using instants_int(1) by auto
    show ?thesis
      using r1 f c unfolding g
      by (intro map_scale [where b = "int_posixct_millisecond_elt offs" and w = 63])
        (simp_all add: int_posixct_millisecond_scale [OF k])
  next
    case (instants_dbl a vs)
    note g = instants_millisecond_returns(2) [OF instants_dbl(1) offs instants_dbl(2)]
    have c: "time_class_type U y \<noteq> warp_class_date" using instants_dbl(1) by auto
    show ?thesis
      using r1 f c unfolding g
      by (intro map_scale [where b = "dbl_posixct_millisecond_elt offs" and w = 63])
        (simp_all add: dbl_posixct_millisecond_scale [OF k])
  qed
qed


lemma offsets_scale:
  assumes k: "0 < sint k" and r1: "warp_distance U x type 1 origin = Inr out1"
    and t: "type = warp_period_year \<or> type = warp_period_month \<or> type = warp_period_day"
    and f: "\<forall>d \<in> set out1. slot_fits 31 (sint k) d"
  shows "warp_distance U x type k origin = Inr (map (scale_slot (sint k)) out1)"
proof -
  note v = warp_distance_returned [OF r1]
  note d1 = warp_distance_valid [OF v]
  note dk = warp_distance_valid [OF v(1) k v(3)]
  show ?thesis
    using t r1 offset_loop_scale [OF _ k f]
    unfolding d1 dk by (elim disjE) (simp_all add: d1 dk offsets_return)
qed

lemma multiples_scale:
  assumes k: "0 < sint k" and w: "sint c * sint k < 2 ^ 31" and c: "0 < sint c"
    and rb: "then_do R (\<lambda>off. Inr (map (warp_distance_offset_elt off 1) xs)) = Inr outb"
    and f: "\<forall>d \<in> set outb. slot_fits 31 (sint c * sint k) d"
  shows "\<exists>out1. then_do R (\<lambda>off. Inr (map (warp_distance_offset_elt off c) xs)) = Inr out1
           \<and> then_do R (\<lambda>off. Inr (map (warp_distance_offset_elt off (k * c)) xs))
               = Inr (map (scale_slot (sint k)) out1)"
proof (cases R)
  case (Inl err)
  then show ?thesis using rb by (simp add: then_do_def)
next
  case (Inr off)
  then have o: "outb = map (warp_distance_offset_elt off 1) xs"
    using rb by (simp add: then_do_def)
  have "warp_distance_offset_elt off (k * c) e
          = scale_slot (sint k) (warp_distance_offset_elt off c e)"
    if "e \<in> set xs" for e
    using that f o by (intro offset_elt_multiple [OF k c w]) simp
  then show ?thesis using Inr by (simp add: then_do_def)
qed

lemma subday_scale:
  assumes k: "0 < sint k" and r1: "warp_distance U x type 1 origin = Inr out1"
    and t: "type = warp_period_hour \<or> type = warp_period_minute \<or> type = warp_period_second
            \<or> type = warp_period_millisecond"
    and f: "\<forall>d \<in> set out1.
              slot_fits (if time_class_type U (zoned_input U x origin) = warp_class_date
                         then date_width type else 63) (sint k) d"
  shows "warp_distance U x type k origin = Inr (map (scale_slot (sint k)) out1)"
proof -
  note v = warp_distance_returned [OF r1]
  note d1 = warp_distance_valid [OF v]
  note dk = warp_distance_valid [OF v(1) k v(3)]
  show ?thesis
    using t
  proof (elim disjE)
    assume h: "type = warp_period_hour"
    show ?thesis
      using r1 f unfolding h d1 dk by (intro hour_scale [OF k]) (auto simp: date_width_def split: if_splits)
  next
    assume h: "type = warp_period_minute"
    show ?thesis
      using r1 f unfolding h d1 dk by (intro minute_scale [OF k]) (auto simp: date_width_def split: if_splits)
  next
    assume h: "type = warp_period_second"
    show ?thesis
      using r1 f unfolding h d1 dk by (intro second_scale [OF k]) (auto simp: date_width_def split: if_splits)
  next
    assume h: "type = warp_period_millisecond"
    show ?thesis
      using r1 f unfolding h d1 dk
      by (intro millisecond_scale [OF k]) (auto simp: date_width_def split: if_splits)
  qed
qed


section \<open>Scaling by \<open>every\<close>: the claim\<close>

text \<open>
  Claim C2, as the sources have it. For every period other than the year-day and the
  year-week, and \<open>1 \<le> k\<close>: when \<open>warp_distance\<close> returns for \<open>every = 1\<close> and each slot of
  that result fits, it returns for \<open>every = k\<close> the floored quotients by \<open>k\<close> of those
  slots, a missing slot staying missing. A slot fits when it is missing, or holds an
  integer \<open>u\<close> below \<open>2\<^sup>5\<^sup>3\<close> in magnitude with \<open>u - (k - 1)\<close> inside the width of the loop:
  32 bits for years, months and days and for the hours and minutes of a Date, 64 bits
  below the day elsewhere. For quarters and weeks the slots that must fit are those of
  the months and of the days, for \<open>3 * k\<close> and \<open>7 * k\<close>, themselves in 32 bits.
\<close>

theorem every_scaling:
  assumes k: "0 < sint k"
  shows
    "((type = warp_period_year \<or> type = warp_period_month \<or> type = warp_period_day)
        \<and> warp_distance U x type 1 origin = Inr out1
        \<and> (\<forall>d \<in> set out1. slot_fits 31 (sint k) d)
      \<longrightarrow> warp_distance U x type k origin = Inr (map (scale_slot (sint k)) out1))
     \<and> ((type = warp_period_hour \<or> type = warp_period_minute \<or> type = warp_period_second
          \<or> type = warp_period_millisecond)
        \<and> warp_distance U x type 1 origin = Inr out1
        \<and> (\<forall>d \<in> set out1.
              slot_fits (if time_class_type U (zoned_input U x origin) = warp_class_date
                         then date_width type else 63) (sint k) d)
      \<longrightarrow> warp_distance U x type k origin = Inr (map (scale_slot (sint k)) out1))
     \<and> (3 * sint k < 2 ^ 31
        \<and> warp_distance U x warp_period_month 1 origin = Inr outm
        \<and> (\<forall>d \<in> set outm. slot_fits 31 (3 * sint k) d)
      \<longrightarrow> (\<exists>out3. warp_distance U x warp_period_quarter 1 origin = Inr out3
             \<and> warp_distance U x warp_period_quarter k origin
                 = Inr (map (scale_slot (sint k)) out3)))
     \<and> (7 * sint k < 2 ^ 31
        \<and> warp_distance U x warp_period_day 1 origin = Inr outd
        \<and> (\<forall>d \<in> set outd. slot_fits 31 (7 * sint k) d)
      \<longrightarrow> (\<exists>out7. warp_distance U x warp_period_week 1 origin = Inr out7
             \<and> warp_distance U x warp_period_week k origin
                 = Inr (map (scale_slot (sint k)) out7)))"
proof (intro conjI impI)
  show "warp_distance U x type k origin = Inr (map (scale_slot (sint k)) out1)"
    if "(type = warp_period_year \<or> type = warp_period_month \<or> type = warp_period_day)
        \<and> warp_distance U x type 1 origin = Inr out1
        \<and> (\<forall>d \<in> set out1. slot_fits 31 (sint k) d)"
    using that by (intro offsets_scale [OF k]) simp_all
  show "warp_distance U x type k origin = Inr (map (scale_slot (sint k)) out1)"
    if "(type = warp_period_hour \<or> type = warp_period_minute \<or> type = warp_period_second
          \<or> type = warp_period_millisecond)
        \<and> warp_distance U x type 1 origin = Inr out1
        \<and> (\<forall>d \<in> set out1.
              slot_fits (if time_class_type U (zoned_input U x origin) = warp_class_date
                         then date_width type else 63) (sint k) d)"
    using that by (intro subday_scale [OF k]) simp_all
  show "\<exists>out3. warp_distance U x warp_period_quarter 1 origin = Inr out3
             \<and> warp_distance U x warp_period_quarter k origin
                 = Inr (map (scale_slot (sint k)) out3)"
    if h: "3 * sint k < 2 ^ 31
        \<and> warp_distance U x warp_period_month 1 origin = Inr outm
        \<and> (\<forall>d \<in> set outm. slot_fits 31 (3 * sint k) d)"
  proof -
    note v = warp_distance_returned [OF conjunct1 [OF conjunct2 [OF h]]]
    note d1 = warp_distance_valid [OF v]
    note dk = warp_distance_valid [OF v(1) k v(3)]
    show ?thesis
      using h multiples_scale [OF k, of 3 _ _ outm]
      unfolding d1 dk offsets_return by simp
  qed
  show "\<exists>out7. warp_distance U x warp_period_week 1 origin = Inr out7
             \<and> warp_distance U x warp_period_week k origin
                 = Inr (map (scale_slot (sint k)) out7)"
    if h: "7 * sint k < 2 ^ 31
        \<and> warp_distance U x warp_period_day 1 origin = Inr outd
        \<and> (\<forall>d \<in> set outd. slot_fits 31 (7 * sint k) d)"
  proof -
    note v = warp_distance_returned [OF conjunct1 [OF conjunct2 [OF h]]]
    note d1 = warp_distance_valid [OF v]
    note dk = warp_distance_valid [OF v(1) k v(3)]
    show ?thesis
      using h multiples_scale [OF k, of 7 _ _ outd]
      unfolding d1 dk offsets_return by simp
  qed
qed

lemma guarded_floor_2_53: "guarded_floor (Finite (- 4503599627370496) 1) = - 9007199254740992"
  by code_simp

lemma integral_part_2_53:
  "integral_part (double_of_int 9007199254740993) = Some 9007199254740992"
  by code_simp

text \<open>
  Claim C2 as stated fails in three places. The year-day starts its count again with
  each year of the origin: from the origin 1970-01-01 the Date 1971-01-01 is at 365 for
  \<open>every = 1\<close> and at 53 for \<open>every = 7\<close>, \<open>floor (365 / 7)\<close> being 52. The step
  \<open>elt - (k - 1)\<close> leaves the 32 bits: the Date 1967-04-07 by years is at \<open>- 3\<close>, and at
  1 for \<open>every = 2147483647\<close>, the floored quotient being \<open>- 1\<close>. A slot above \<open>2\<^sup>5\<^sup>3\<close> is
  rounded: the instant 1 by seconds from the origin \<open>- 2\<^sup>5\<^sup>3\<close> is at \<open>2\<^sup>5\<^sup>3 + 1\<close>, stored
  as \<open>2\<^sup>5\<^sup>3\<close>, and at 3002399751580331 for \<open>every = 3\<close>, one more than the floored
  quotient of the stored slot.
\<close>

theorem every_scaling_counterexample:
  "warp_distance date_utils (INTSXP [(''class'', [''Date''])] [365]) warp_period_yday 1 R_NilValue
     = Inr [double_of_int 365]
   \<and> warp_distance date_utils (INTSXP [(''class'', [''Date''])] [365]) warp_period_yday 7
       R_NilValue
     = Inr [double_of_int 53]
   \<and> map (scale_slot 7) [double_of_int 365] = [double_of_int 52]
   \<and> double_of_int 53 \<noteq> double_of_int 52
   \<and> warp_distance date_utils (INTSXP [(''class'', [''Date''])] [- 1000]) warp_period_year 1
       R_NilValue
     = Inr [double_of_int (- 3)]
   \<and> warp_distance date_utils (INTSXP [(''class'', [''Date''])] [- 1000]) warp_period_year
       2147483647 R_NilValue
     = Inr [double_of_int 1]
   \<and> map (scale_slot 2147483647) [double_of_int (- 3)] = [double_of_int (- 1)]
   \<and> double_of_int 1 \<noteq> double_of_int (- 1)
   \<and> warp_distance date_utils (INTSXP [(''class'', [''POSIXct''])] [1]) warp_period_second 1
       (REALSXP [(''class'', [''POSIXct''])] [Finite (- 4503599627370496) 1])
     = Inr [double_of_int 9007199254740993]
   \<and> warp_distance date_utils (INTSXP [(''class'', [''POSIXct''])] [1]) warp_period_second 3
       (REALSXP [(''class'', [''POSIXct''])] [Finite (- 4503599627370496) 1])
     = Inr [double_of_int 3002399751580331]
   \<and> map (scale_slot 3) [double_of_int 9007199254740993] = [double_of_int 3002399751580330]
   \<and> double_of_int 3002399751580331 \<noteq> double_of_int 3002399751580330"
proof -
  let ?D = "[(''class'', [''Date''])]" and ?P = "[(''class'', [''POSIXct''])]"
  have e: "0 < sint (1 :: int32)" "0 < sint (2147483647 :: int32)" "0 < sint (3 :: int32)"
    by simp_all
  have vo: "validate_origin date_utils R_NilValue = Inr ()"
    "validate_origin date_utils (REALSXP ?P [v]) = Inr ()" for v
    by (simp_all add: validate_origin_def date_utils_simps posixct_class)
  have cl: "time_class_type date_utils (INTSXP ?D xs) \<noteq> warp_class_unknown"
    "time_class_type date_utils (INTSXP ?P xs) \<noteq> warp_class_unknown" for xs
    by (simp_all add: date_utils_simps date_class posixct_class)
  have na: "(7 :: int32) \<noteq> NA_INTEGER" "(1 :: int32) \<noteq> NA_INTEGER"
    "(365 :: int32) \<noteq> NA_INTEGER" "\<not> (7 :: int32) \<le>s 0" "\<not> (1 :: int32) \<le>s 0"
    "(- 1000 :: int32) \<noteq> NA_INTEGER" "(0 :: int32) \<noteq> NA_INTEGER"
    "(- 3 :: int32) \<noteq> NA_INTEGER"
    by (simp_all add: NA_INTEGER_def word_sle_eq)
  have c7: "compute_yday_distance 365 1 0 0 0 False (c_div32 (366 - 1) 7 + 1)
              (c_div32 (365 - 1) 7 + 1) 7 = 53"
    by code_simp
  have c1: "compute_yday_distance 365 1 0 0 0 False (c_div32 (366 - 1) 1 + 1)
              (c_div32 (365 - 1) 1 + 1) 1 = 365"
    by code_simp
  have 1: "warp_distance date_utils (INTSXP ?D [365]) warp_period_yday 1 R_NilValue
             = Inr [double_of_int 365]"
    using c1 na
    by (simp add: warp_distance_yday_int_date yday_prologue_epoch int_date_yday_elt_def
        yday_distance_of_def date_utils_simps date_components_365 double_of_int32_def)
  have 2: "warp_distance date_utils (INTSXP ?D [365]) warp_period_yday 7 R_NilValue
             = Inr [double_of_int 53]"
    using c7 na
    by (simp add: warp_distance_yday_int_date yday_prologue_epoch int_date_yday_elt_def
        yday_distance_of_def date_utils_simps date_components_365 double_of_int32_def)
  have 3: "map (scale_slot 7) [double_of_int 365] = [double_of_int 52]"
    using integral_part_double_of_int [of 365] by (simp add: scale_slot_def floor_div_def)
  have 4: "warp_distance date_utils (INTSXP ?D [- 1000]) warp_period_year 1 R_NilValue
             = Inr [double_of_int (- 3)]"
    unfolding warp_distance_valid [OF vo(1) e(1) cl(1)]
    using na
    by (simp add: offsets_return zoned_input_def used_origin_def date_utils_simps
        date_utils_more offset_of_origin_def origin_offset_int_def then_do_def
        date_components_0 date_components_m1000 warp_distance_offset_elt_def emit32_def
        sub_offset_def double_of_int32_def)
  have 5: "warp_distance date_utils (INTSXP ?D [- 1000]) warp_period_year 2147483647 R_NilValue
             = Inr [double_of_int 1]"
    unfolding warp_distance_valid [OF vo(1) e(2) cl(1)]
    using na
    by (simp add: offsets_return zoned_input_def used_origin_def date_utils_simps
        date_utils_more offset_of_origin_def origin_offset_int_def then_do_def
        date_components_0 date_components_m1000 warp_distance_offset_elt_def emit32_def
        sub_offset_def floor_every32_def c_div32_def double_of_int32_def word_sless_alt
        signed_divide_int_def)
  have 6: "map (scale_slot 2147483647) [double_of_int (- 3)] = [double_of_int (- 1)]"
    using integral_part_double_of_int [of "- 3"] by (simp add: scale_slot_def floor_div_def)
  have 7: "warp_distance date_utils (INTSXP ?P [1]) warp_period_second 1
             (REALSXP ?P [Finite (- 4503599627370496) 1]) = Inr [double_of_int 9007199254740993]"
    unfolding warp_distance_valid [OF vo(2) e(1) cl(2)]
    using na
    by (subst instants_int_returns(3)
          [where a = ?P and xs = "[1]" and off = "Some (- 9007199254740992)"])
      (simp_all add: zoned_input_def used_origin_def date_utils_simps date_utils_more
        posixct_class instants_of_def offset_of_origin_def origin_conversions_never_raise
        guarded_floor_2_53 int_posixct_second_elt_def emit64_def sub_offset_def
        double_of_int64_def)
  have 8: "warp_distance date_utils (INTSXP ?P [1]) warp_period_second 3
             (REALSXP ?P [Finite (- 4503599627370496) 1]) = Inr [double_of_int 3002399751580331]"
    unfolding warp_distance_valid [OF vo(2) e(3) cl(2)]
    using na
    by (subst instants_int_returns(3)
          [where a = ?P and xs = "[1]" and off = "Some (- 9007199254740992)"])
      (simp_all add: zoned_input_def used_origin_def date_utils_simps date_utils_more
        posixct_class instants_of_def offset_of_origin_def origin_conversions_never_raise
        guarded_floor_2_53 int_posixct_second_elt_def emit64_def sub_offset_def
        floor_every64_def c_div64_def double_of_int64_def word_sless_alt signed_divide_int_def)
  have 9: "map (scale_slot 3) [double_of_int 9007199254740993]
             = [double_of_int 3002399751580330]"
    by (simp add: scale_slot_def integral_part_2_53 floor_div_def)
  have n: "double_of_int 53 \<noteq> double_of_int 52" "double_of_int 1 \<noteq> double_of_int (- 1)"
    "double_of_int 3002399751580331 \<noteq> double_of_int 3002399751580330"
    by (simp_all add: double_of_int_inject)
  show ?thesis using 1 2 3 4 5 6 7 8 9 n by (intro conjI)
qed


theorem every_scaling_witness:
  "warp_distance date_utils (INTSXP [(''class'', [''Date''])] [- 4, NA_INTEGER]) warp_period_day 2
       R_NilValue
     = Inr [double_of_int (- 2), NA_REAL]
   \<and> warp_distance date_utils (INTSXP [(''class'', [''POSIXct''])] [- 3601]) warp_period_hour 2
         (REALSXP [(''class'', [''POSIXct''])] [double_of_int 1800])
     = Inr [double_of_int (- 1)]
   \<and> warp_distance date_utils (INTSXP [(''class'', [''Date''])] [- 15]) warp_period_week 2
         R_NilValue
     = Inr [double_of_int (- 2)]"
proof -
  let ?D = "[(''class'', [''Date''])]" and ?P = "[(''class'', [''POSIXct''])]"
  have e: "0 < sint (1 :: int32)" "0 < sint (2 :: int32)" by simp_all
  have vo: "validate_origin date_utils R_NilValue = Inr ()"
    "validate_origin date_utils (REALSXP ?P [v]) = Inr ()" for v
    by (simp_all add: validate_origin_def date_utils_simps posixct_class)
  have cl: "time_class_type date_utils (INTSXP ?D xs) \<noteq> warp_class_unknown"
    "time_class_type date_utils (INTSXP ?P xs) \<noteq> warp_class_unknown" for xs
    by (simp_all add: date_utils_simps date_class posixct_class)
  have na: "(- 4 :: int32) \<noteq> NA_INTEGER" "(0 :: int32) \<noteq> NA_INTEGER"
    "(- 3601 :: int32) \<noteq> NA_INTEGER" "(- 15 :: int32) \<noteq> NA_INTEGER"
    by (simp_all add: NA_INTEGER_def)
  have 1: "warp_distance date_utils (INTSXP ?D [- 4, NA_INTEGER]) warp_period_day 1 R_NilValue
             = Inr [double_of_int (- 4), NA_REAL]"
    unfolding warp_distance_valid [OF vo(1) e(1) cl(1)]
    using na
    by (simp add: offsets_return zoned_input_def used_origin_def date_utils_simps
        date_utils_more offset_of_origin_def origin_offset_int_def then_do_def
        warp_distance_offset_elt_def emit32_def sub_offset_def double_of_int32_def)
  have 2: "warp_distance date_utils (INTSXP ?P [- 3601]) warp_period_hour 1
             (REALSXP ?P [double_of_int 1800]) = Inr [double_of_int (- 2)]"
    unfolding warp_distance_valid [OF vo(2) e(1) cl(2)]
    using na
    by (subst instants_int_returns(1) [where a = ?P and xs = "[- 3601]" and off = "Some 1800"])
      (simp_all add: zoned_input_def used_origin_def date_utils_simps date_utils_more
        posixct_class instants_of_def offset_of_origin_def origin_conversions_never_raise
        guarded_floor_values int_posixct_unit64_def emit64_def sub_offset_def floor_unit64_def
        c_div64_def double_of_int64_def word_sless_alt signed_divide_int_def)
  have 3: "warp_distance date_utils (INTSXP ?D [- 15]) warp_period_day 1 R_NilValue
             = Inr [double_of_int (- 15)]"
    unfolding warp_distance_valid [OF vo(1) e(1) cl(1)]
    using na
    by (simp add: offsets_return zoned_input_def used_origin_def date_utils_simps
        date_utils_more offset_of_origin_def origin_offset_int_def then_do_def
        warp_distance_offset_elt_def emit32_def sub_offset_def double_of_int32_def)
  have f: "slot_fits 31 (sint (2 :: int32)) (double_of_int (- 4))"
    "slot_fits 63 (sint (2 :: int32)) (double_of_int (- 2))"
    "slot_fits 31 (7 * sint (2 :: int32)) (double_of_int (- 15))"
    by (rule slot_fits_double_of_int; simp)+
  have i: "integral_part (double_of_int (- 4)) = Some (- 4)"
    "integral_part (double_of_int (- 2)) = Some (- 2)"
    "integral_part (double_of_int (- 3)) = Some (- 3)"
    by (rule integral_part_double_of_int; simp)+
  have c: "time_class_type date_utils
             (zoned_input date_utils (INTSXP ?P [- 3601]) (REALSXP ?P [double_of_int 1800]))
           \<noteq> warp_class_date"
    by (simp add: zoned_input_def date_utils_simps posixct_class)
  note t1 = every_scaling [OF e(2), of warp_period_day date_utils "INTSXP ?D [- 4, NA_INTEGER]"
      R_NilValue "[double_of_int (- 4), NA_REAL]"]
  note t2 = every_scaling [OF e(2), of warp_period_hour date_utils "INTSXP ?P [- 3601]"
      "REALSXP ?P [double_of_int 1800]" "[double_of_int (- 2)]"]
  note t3 = every_scaling [OF e(2), of _ date_utils "INTSXP ?D [- 15]" R_NilValue _ _
      "[double_of_int (- 15)]"]
  have 4: "warp_distance date_utils (INTSXP ?D [- 4, NA_INTEGER]) warp_period_day 2 R_NilValue
             = Inr [double_of_int (- 2), NA_REAL]"
    using conjunct1 [OF t1] 1 f by (simp add: scale_slot_def i floor_div_def)
  have 5: "warp_distance date_utils (INTSXP ?P [- 3601]) warp_period_hour 2
             (REALSXP ?P [double_of_int 1800]) = Inr [double_of_int (- 1)]"
    using conjunct1 [OF conjunct2 [OF t2]] 2 f c by (simp add: scale_slot_def i floor_div_def)
  have w1: "warp_distance date_utils (INTSXP ?D [- 15]) warp_period_week 1 R_NilValue
             = Inr [double_of_int (- 3)]"
    unfolding warp_distance_valid [OF vo(1) e(1) cl(1)]
    using na
    by (simp add: offsets_return zoned_input_def used_origin_def date_utils_simps
        date_utils_more offset_of_origin_def origin_offset_int_def then_do_def
        warp_distance_offset_elt_def emit32_def sub_offset_def double_of_int32_def
        floor_every32_def c_div32_def word_sless_alt signed_divide_int_def)
  have 6: "warp_distance date_utils (INTSXP ?D [- 15]) warp_period_week 2 R_NilValue
             = Inr [double_of_int (- 2)]"
    using conjunct2 [OF conjunct2 [OF conjunct2 [OF t3]]] 3 f w1
    by (simp add: scale_slot_def i floor_div_def)
  show ?thesis using 4 5 6 by (intro conjI)
qed

section \<open>The year-day loops\<close>

lemma yday_distance_of_refines:
  assumes "0 < sint every" "yday_origin_in_range U origin"
    "yday_in_range (sint days_since_epoch) (sint year_offset)"
  shows "yday_distance_of (yday_prologue U every origin) every days_since_epoch year_offset yday
           = double_of_int
               (yday_bucket_for U origin (sint every) (sint days_since_epoch) (sint year_offset)
                  (sint yday))"
proof -
  define oyo where "oyo = yc_year_offset (get_origin_yday_components U origin)"
  define oyd where "oyd = yc_yday (get_origin_yday_components U origin)"
  have o: "\<bar>sint oyo\<bar> \<le> 1000000" "0 \<le> sint oyd" "sint oyd \<le> 365"
    using assms(2) by (simp_all add: yday_origin_in_range_def oyo_def oyd_def)
  have r: "\<bar>sint year_offset\<bar> \<le> 1000000" "\<bar>sint days_since_epoch\<bar> \<le> 400000000"
    using assms(3) by (simp_all add: yday_in_range_def)
  have "sint (oyo + 1970) = sint oyo + 1970" using o(1) sint32_sum [of oyo 1970] by simp
  then have leap: "is_leap_year (oyo + 1970) = year_is_leap_spec (sint oyo + 1970)"
    by (simp add: is_leap_year_spec)
  have "sint (compute_yday_distance days_since_epoch year_offset yday oyo oyd
                (is_leap_year (oyo + 1970)) (c_div32 (366 - 1) every + 1)
                (c_div32 (365 - 1) every + 1) every)
        = yday_bucket_spec (sint days_since_epoch) (sint year_offset) (sint yday) (sint oyo)
            (sint oyd) (is_leap_year (oyo + 1970)) (sint every)"
    using assms(1) r(1) o r(2) by (rule compute_yday_distance_refines)
  then show ?thesis
    using leap unfolding oyo_def oyd_def
    by (simp add: yday_distance_of_def yday_prologue_def yday_bucket_for_def Let_def
        double_of_int32_def)
qed

lemma int_date_yday_refines:
  assumes "0 < sint every" "yday_origin_in_range U origin" "elt \<noteq> NA_INTEGER"
    "yday_in_range (sint elt) (sint (wc_year_offset (convert_days_to_components U elt)))"
  shows "int_date_yday_elt U (yday_prologue U every origin) every elt
           = double_of_int
               (yday_bucket_for U origin (sint every) (sint elt)
                  (sint (wc_year_offset (convert_days_to_components U elt)))
                  (sint (wc_yday (convert_days_to_components U elt))))"
  using yday_distance_of_refines [OF assms(1,2,4)] assms(3)
  by (simp add: int_date_yday_elt_def Let_def)

lemma dbl_date_yday_refines:
  assumes "0 < sint every" "yday_origin_in_range U origin" "R_FINITE v" "\<bar>dvalue v\<bar> < 2 ^ 31"
    "yday_in_range (toward_zero (dvalue v))
       (sint (wc_year_offset
                (convert_days_to_components U (word_of_int (toward_zero (dvalue v))))))"
  shows "dbl_date_yday_elt U (yday_prologue U every origin) every v
           = double_of_int
               (yday_bucket_for U origin (sint every) (toward_zero (dvalue v))
                  (sint (wc_year_offset
                           (convert_days_to_components U (word_of_int (toward_zero (dvalue v))))))
                  (sint (wc_yday
                           (convert_days_to_components U
                              (word_of_int (toward_zero (dvalue v)))))))"
proof -
  have s: "sint (int32_of_double v) = toward_zero (dvalue v)"
    using assms(3,4) by (rule sint_int32_of_double)
  then have w: "int32_of_double v = word_of_int (toward_zero (dvalue v))"
    by (rule word32_eq_of_sint)
  show ?thesis
    using yday_distance_of_refines [OF assms(1,2), of "int32_of_double v"
        "wc_year_offset (convert_days_to_components U (int32_of_double v))"] assms(3,5) s
    unfolding w [symmetric]
    by (simp add: dbl_date_yday_elt_def Let_def)
qed

lemma posixlt_yday_refines:
  assumes "0 < sint every" "yday_origin_in_range U origin" "p_year \<noteq> NA_INTEGER"
    "\<bar>sint p_year - 70\<bar> \<le> 1000000" "0 \<le> sint p_yday" "sint p_yday \<le> 365"
  shows "posixlt_yday_elt (yday_prologue U every origin) every p_year p_yday
           = double_of_int
               (yday_bucket_for U origin (sint every)
                  (days_before_year_spec (sint p_year - 70) + sint p_yday)
                  (sint p_year - 70) (sint p_yday))"
proof -
  have yo: "sint (p_year - 70) = sint p_year - 70"
    using assms(4) sint32_diff [of p_year 70] by simp
  have b: "sint (days_before_year (p_year - 70)) = days_before_year_spec (sint p_year - 70)"
    using days_before_year_sint [of "p_year - 70"] assms(4) yo by simp
  have br: "\<bar>days_before_year_spec (sint p_year - 70)\<bar> \<le> 370000000"
    using assms(4) by (intro days_before_year_spec_range) simp
  have d: "sint (days_before_year (p_year - 70) + p_yday)
             = days_before_year_spec (sint p_year - 70) + sint p_yday"
    using sint32_sum [of "days_before_year (p_year - 70)" p_yday] b br assms(5,6) by simp
  have "yday_in_range (sint (days_before_year (p_year - 70) + p_yday)) (sint (p_year - 70))"
    using d yo br assms(4,5,6) by (simp add: yday_in_range_def)
  from yday_distance_of_refines [OF assms(1,2) this, of p_yday] show ?thesis
    using assms(3) d yo by (simp add: posixlt_yday_elt_def Let_def)
qed

lemma yday_returns:
  "time_class_type U y = warp_class_date \<Longrightarrow> y = INTSXP a xs \<Longrightarrow>
   warp_distance_yday U y ev origin
     = Inr (map (int_date_yday_elt U (yday_prologue U ev origin) ev) xs)"
  "time_class_type U y = warp_class_date \<Longrightarrow> y = REALSXP a vs \<Longrightarrow>
   warp_distance_yday U y ev origin
     = Inr (map (dbl_date_yday_elt U (yday_prologue U ev origin) ev) vs)"
  "time_class_type U y = warp_class_posixct \<or> time_class_type U y = warp_class_posixlt \<Longrightarrow>
   VECTOR_ELT (broken_down U y) 5 = INTSXP a years \<Longrightarrow>
   VECTOR_ELT (broken_down U y) 7 = INTSXP b ydays \<Longrightarrow>
   warp_distance_yday U y ev origin
     = Inr (map (\<lambda>i. posixlt_yday_elt (yday_prologue U ev origin) ev (years ! i) (ydays ! i))
              [0..<length years])"
  by (auto simp: warp_distance_yday_def by_class_def by_storage_def broken_down_def
      date_warp_distance_yday_def posixct_warp_distance_yday_def
      int_date_warp_distance_yday_def dbl_date_warp_distance_yday_def
      posixlt_warp_distance_yday_def Let_def)

lemma yday_forms:
  assumes "warp_distance_yday U y ev origin = Inr out"
  obtains (date_int) a xs where "time_class_type U y = warp_class_date" "y = INTSXP a xs"
  | (date_dbl) a vs where "time_class_type U y = warp_class_date" "y = REALSXP a vs"
  | (broken) a years b ydays where
      "time_class_type U y = warp_class_posixct \<or> time_class_type U y = warp_class_posixlt"
      "VECTOR_ELT (broken_down U y) 5 = INTSXP a years"
      "VECTOR_ELT (broken_down U y) 7 = INTSXP b ydays"
proof (cases "time_class_type U y")
  case warp_class_date
  then show ?thesis
    using assms date_int date_dbl
    by (cases y)
      (auto simp: warp_distance_yday_def by_class_def by_storage_def
        date_warp_distance_yday_def)
next
  case warp_class_posixct
  then show ?thesis
    using assms broken [of _ _ _ _]
    by (cases "VECTOR_ELT (as_posixlt_from_posixct U y) 5";
        cases "VECTOR_ELT (as_posixlt_from_posixct U y) 7")
      (auto simp: warp_distance_yday_def by_class_def broken_down_def
        posixct_warp_distance_yday_def posixlt_warp_distance_yday_def Let_def)
next
  case warp_class_posixlt
  then show ?thesis
    using assms broken [of _ _ _ _]
    by (cases "VECTOR_ELT y 5"; cases "VECTOR_ELT y 7")
      (auto simp: warp_distance_yday_def by_class_def broken_down_def
        posixlt_warp_distance_yday_def Let_def)
next
  case warp_class_unknown
  then show ?thesis using assms by (auto simp: warp_distance_yday_def by_class_def)
qed


lemma yday_entry:
  assumes r: "warp_distance U x type every origin = Inr out"
    and t: "yday_factor type = Some c" and w: "c * sint every < 2 ^ 31"
  obtains ev where "0 < sint ev" "sint ev = c * sint every"
    "warp_distance_yday U (zoned_input U x origin) ev (used_origin U x origin) = Inr out"
proof -
  note v = warp_distance_returned [OF r]
  note d = warp_distance_valid [OF v]
  have e: "0 < sint every" by (rule v(2))
  show ?thesis
  proof (cases type)
    case warp_period_yday
    then have "c = 1" using t by (simp add: yday_factor_def)
    then show ?thesis using that [of every] r e unfolding warp_period_yday d by simp
  next
    case warp_period_yweek
    then have c: "c = 7" using t by (simp add: yday_factor_def)
    have "sint (every * 7) = 7 * sint every" using sint_times [OF e, of 7] w c by simp
    then show ?thesis
      using that [of "every * 7"] r e c
      unfolding warp_period_yweek d warp_distance_yweek_def by simp
  qed (use t in \<open>simp_all add: yday_factor_def\<close>)
qed

lemma yday_date_int_refines:
  assumes r: "warp_distance U x type every origin = Inr out"
    and t: "yday_factor type = Some c" and w: "c * sint every < 2 ^ 31"
    and o: "yday_origin_in_range U (used_origin U x origin)"
    and cl: "time_class_type U (zoned_input U x origin) = warp_class_date"
    and st: "zoned_input U x origin = INTSXP a xs"
  shows "list_all2
           (\<lambda>d elt. elt \<noteq> NA_INTEGER
                \<and> yday_in_range (sint elt)
                     (sint (wc_year_offset (convert_days_to_components U elt)))
              \<longrightarrow> d = double_of_int
                        (yday_bucket_for U (used_origin U x origin) (c * sint every) (sint elt)
                           (sint (wc_year_offset (convert_days_to_components U elt)))
                           (sint (wc_yday (convert_days_to_components U elt)))))
           out xs"
proof -
  obtain ev where ev: "0 < sint ev" "sint ev = c * sint every"
    and f: "warp_distance_yday U (zoned_input U x origin) ev (used_origin U x origin) = Inr out"
    using r t w by (rule yday_entry)
  have out: "out = map (int_date_yday_elt U (yday_prologue U ev (used_origin U x origin)) ev) xs"
    using f unfolding yday_returns(1) [OF cl st] by simp
  show ?thesis
    unfolding out ev(2) [symmetric]
    by (rule list_all2_mapI) (simp add: int_date_yday_refines [OF ev(1) o])
qed

lemma yday_date_dbl_refines:
  assumes r: "warp_distance U x type every origin = Inr out"
    and t: "yday_factor type = Some c" and w: "c * sint every < 2 ^ 31"
    and o: "yday_origin_in_range U (used_origin U x origin)"
    and cl: "time_class_type U (zoned_input U x origin) = warp_class_date"
    and st: "zoned_input U x origin = REALSXP a vs"
  shows "list_all2
           (\<lambda>d v. R_FINITE v \<and> \<bar>dvalue v\<bar> < 2 ^ 31
                \<and> yday_in_range (toward_zero (dvalue v))
                     (sint (wc_year_offset
                              (convert_days_to_components U
                                 (word_of_int (toward_zero (dvalue v))))))
              \<longrightarrow> d = double_of_int
                        (yday_bucket_for U (used_origin U x origin) (c * sint every)
                           (toward_zero (dvalue v))
                           (sint (wc_year_offset
                                    (convert_days_to_components U
                                       (word_of_int (toward_zero (dvalue v))))))
                           (sint (wc_yday
                                    (convert_days_to_components U
                                       (word_of_int (toward_zero (dvalue v))))))))
           out vs"
proof -
  obtain ev where ev: "0 < sint ev" "sint ev = c * sint every"
    and f: "warp_distance_yday U (zoned_input U x origin) ev (used_origin U x origin) = Inr out"
    using r t w by (rule yday_entry)
  have out: "out = map (dbl_date_yday_elt U (yday_prologue U ev (used_origin U x origin)) ev) vs"
    using f unfolding yday_returns(2) [OF cl st] by simp
  show ?thesis
    unfolding out ev(2) [symmetric]
    by (rule list_all2_mapI) (simp add: dbl_date_yday_refines [OF ev(1) o])
qed

lemma yday_broken_refines:
  assumes r: "warp_distance U x type every origin = Inr out"
    and t: "yday_factor type = Some c" and w: "c * sint every < 2 ^ 31"
    and o: "yday_origin_in_range U (used_origin U x origin)"
    and cl: "time_class_type U (zoned_input U x origin) = warp_class_posixct
             \<or> time_class_type U (zoned_input U x origin) = warp_class_posixlt"
    and y5: "VECTOR_ELT (broken_down U (zoned_input U x origin)) 5 = INTSXP a years"
    and y7: "VECTOR_ELT (broken_down U (zoned_input U x origin)) 7 = INTSXP b ydays"
  shows "length out = length years
         \<and> (\<forall>i < length years.
               years ! i \<noteq> NA_INTEGER \<and> \<bar>sint (years ! i) - 70\<bar> \<le> 1000000
               \<and> 0 \<le> sint (ydays ! i) \<and> sint (ydays ! i) \<le> 365
             \<longrightarrow> out ! i
                   = double_of_int
                       (yday_bucket_for U (used_origin U x origin) (c * sint every)
                          (days_before_year_spec (sint (years ! i) - 70) + sint (ydays ! i))
                          (sint (years ! i) - 70) (sint (ydays ! i))))"
proof -
  obtain ev where ev: "0 < sint ev" "sint ev = c * sint every"
    and f: "warp_distance_yday U (zoned_input U x origin) ev (used_origin U x origin) = Inr out"
    using r t w by (rule yday_entry)
  have out: "out = map (\<lambda>i. posixlt_yday_elt (yday_prologue U ev (used_origin U x origin)) ev
                               (years ! i) (ydays ! i)) [0..<length years]"
    using f unfolding yday_returns(3) [OF cl y5 y7] by simp
  show ?thesis
    unfolding out ev(2) [symmetric]
    by (simp add: posixlt_yday_refines [OF ev(1) o])
qed


section \<open>The year-day algorithm: the claim\<close>

text \<open>
  Claim C3, as the sources have it. The year-day distance of every element, computed by
  \<open>warp_distance\<close> for the periods \<open>yday\<close> and \<open>yweek\<close> (the latter with
  \<open>every\<close> multiplied by seven), is the bucket of the specification: with \<open>U\<close> the units
  of a non-leap year, \<open>L\<close> those of a leap year, the years elapsed between the origin and the
  element's year, the leap years among them, and the day of the year shifted by \<open>\<Delta>\<close> before
  the floored division by \<open>every\<close>. It holds for the three loops (integer Dates, double Dates,
  broken-down date-times) while the year offsets stay within a million years of 1970 and the
  day counts within four hundred million days, where no 32-bit step wraps. \<open>\<Delta>\<close> is as
  stated: zero below day 58 of the year, and from day 58 on, zero when the element's year and
  the origin's agree on being leap, \<open>-1\<close> when only the origin's is leap, \<open>+1\<close> when only the
  element's is. Day 58, the first adjusted, is February 28.
\<close>

theorem yday_bucket_refines:
  assumes "warp_distance U x type every origin = Inr out"
    and "yday_factor type = Some c" and "c * sint every < 2 ^ 31"
    and "yday_origin_in_range U (used_origin U x origin)"
  shows
    "(time_class_type U (zoned_input U x origin) = warp_class_date
        \<and> zoned_input U x origin = INTSXP a xs
      \<longrightarrow> list_all2
            (\<lambda>d elt. elt \<noteq> NA_INTEGER
                 \<and> yday_in_range (sint elt)
                      (sint (wc_year_offset (convert_days_to_components U elt)))
               \<longrightarrow> d = double_of_int
                         (yday_bucket_for U (used_origin U x origin) (c * sint every) (sint elt)
                            (sint (wc_year_offset (convert_days_to_components U elt)))
                            (sint (wc_yday (convert_days_to_components U elt)))))
            out xs)
     \<and> (time_class_type U (zoned_input U x origin) = warp_class_date
        \<and> zoned_input U x origin = REALSXP a vs
      \<longrightarrow> list_all2
            (\<lambda>d v. R_FINITE v \<and> \<bar>dvalue v\<bar> < 2 ^ 31
                 \<and> yday_in_range (toward_zero (dvalue v))
                      (sint (wc_year_offset
                               (convert_days_to_components U
                                  (word_of_int (toward_zero (dvalue v))))))
               \<longrightarrow> d = double_of_int
                         (yday_bucket_for U (used_origin U x origin) (c * sint every)
                            (toward_zero (dvalue v))
                            (sint (wc_year_offset
                                     (convert_days_to_components U
                                        (word_of_int (toward_zero (dvalue v))))))
                            (sint (wc_yday
                                     (convert_days_to_components U
                                        (word_of_int (toward_zero (dvalue v))))))))
            out vs)
     \<and> ((time_class_type U (zoned_input U x origin) = warp_class_posixct
          \<or> time_class_type U (zoned_input U x origin) = warp_class_posixlt)
        \<and> VECTOR_ELT (broken_down U (zoned_input U x origin)) 5 = INTSXP a years
        \<and> VECTOR_ELT (broken_down U (zoned_input U x origin)) 7 = INTSXP b ydays
      \<longrightarrow> length out = length years
          \<and> (\<forall>i < length years.
                years ! i \<noteq> NA_INTEGER \<and> \<bar>sint (years ! i) - 70\<bar> \<le> 1000000
                \<and> 0 \<le> sint (ydays ! i) \<and> sint (ydays ! i) \<le> 365
              \<longrightarrow> out ! i
                    = double_of_int
                        (yday_bucket_for U (used_origin U x origin) (c * sint every)
                           (days_before_year_spec (sint (years ! i) - 70) + sint (ydays ! i))
                           (sint (years ! i) - 70) (sint (ydays ! i)))))
     \<and> (\<bar>sint year_offset\<bar> \<le> 1000000
      \<longrightarrow> sint (yday_leap_adjustment year_offset yday origin_leap)
            = leap_delta_spec (sint year_offset) (sint yday) origin_leap)
     \<and> sint (yday_leap_adjustment 2 57 False) = 0
     \<and> sint (yday_leap_adjustment 2 58 False) = 1
     \<and> sint (yday_leap_adjustment 1 58 True) = - 1
     \<and> date_components 58 = \<lparr>wc_year_offset = 0, wc_month = 1, wc_day = 28, wc_yday = 58\<rparr>"
proof -
  have 4: "sint (yday_leap_adjustment year_offset yday origin_leap)
            = leap_delta_spec (sint year_offset) (sint yday) origin_leap"
    if "\<bar>sint year_offset\<bar> \<le> 1000000"
    using that by (intro yday_leap_adjustment_sint) simp
  have 5: "sint (yday_leap_adjustment 2 57 False) = 0"
    "sint (yday_leap_adjustment 2 58 False) = 1"
    "sint (yday_leap_adjustment 1 58 True) = - 1"
    by (simp_all add: yday_leap_adjustment_sint leap_delta_spec_def year_is_leap_spec_def)
  have 6: "date_components 58 = \<lparr>wc_year_offset = 0, wc_month = 1, wc_day = 28, wc_yday = 58\<rparr>"
    by code_simp
  show ?thesis
    apply (intro conjI impI)
    subgoal by (elim conjE) (rule yday_date_int_refines [OF assms], assumption+)
    subgoal by (elim conjE) (rule yday_date_dbl_refines [OF assms], assumption+)
    subgoal
      by (elim conjE) (rule conjunct1 [OF yday_broken_refines [OF assms]], assumption+)
    subgoal
      by (elim conjE) (rule conjunct2 [OF yday_broken_refines [OF assms]], assumption+)
    subgoal by (rule 4)
    subgoal by (rule 5)
    subgoal by (rule 5)
    subgoal by (rule 5)
    subgoal by (rule 6)
    done
qed

lemma posixlt_class:
  "date_time_class_type (VECSXP [(''class'', [''POSIXlt'', ''POSIXt''])] fs) = warp_class_posixlt"
  by (simp add: date_time_class_type_def class_of_def)

lemma date_components_425:
  "date_components 425 = \<lparr>wc_year_offset = 1, wc_month = 2, wc_day = 2, wc_yday = 60\<rparr>"
  by code_simp

text \<open>
  Claim C3 as stated fails where the 32-bit arithmetic of \<open>compute_yday_distance\<close> wraps.
  A broken-down time in year 8213791 after 1900, on day 7 of the year, is 3000000000 days
  after the epoch; counted by days from the epoch, the algorithm of the specification
  gives 3000000000, \<open>warp_distance\<close> gives \<open>-1294967296\<close>. And day 58 of the year, the
  first that is adjusted, is not March 1 but February 28: on 1972-02-28, day 788 after the
  epoch, the adjustment against an origin in a non-leap year is \<open>+1\<close>.
\<close>

theorem yday_bucket_refines_counterexample:
  "warp_distance date_utils
       (VECSXP [(''class'', [''POSIXlt'', ''POSIXt''])]
          [REALSXP [] [double_of_int 0], INTSXP [] [0], INTSXP [] [0], INTSXP [] [8],
           INTSXP [] [0], INTSXP [] [8213791], INTSXP [] [0], INTSXP [] [7], INTSXP [] [0]])
       warp_period_yday 1 R_NilValue
     = Inr [double_of_int (- 1294967296)]
   \<and> yday_bucket_spec (days_before_year_spec (8213791 - 70) + 7) (8213791 - 70) 7 0 0
        (year_is_leap_spec (0 + 1970)) 1
     = 3000000000
   \<and> double_of_int (- 1294967296) \<noteq> double_of_int 3000000000
   \<and> date_components 788
       = \<lparr>wc_year_offset = 2, wc_month = 1, wc_day = 28, wc_yday = 58\<rparr>
   \<and> sint (yday_leap_adjustment 2 58 False) = 1
   \<and> leap_delta_spec 2 58 False = 1"
proof -
  let ?L = "[(''class'', [''POSIXlt'', ''POSIXt''])]"
  let ?x = "VECSXP ?L
          [REALSXP [] [double_of_int 0], INTSXP [] [0], INTSXP [] [0], INTSXP [] [8],
           INTSXP [] [0], INTSXP [] [8213791], INTSXP [] [0], INTSXP [] [7], INTSXP [] [0]]"
  have e1: "0 < sint (1 :: int32)" by simp
  have vo: "validate_origin date_utils R_NilValue = Inr ()"
    by (simp add: validate_origin_def)
  have cl: "time_class_type date_utils ?x \<noteq> warp_class_unknown"
    by (simp add: date_utils_simps posixlt_class)
  have na: "(8213791 :: int32) \<noteq> NA_INTEGER" by (simp add: NA_INTEGER_def)
  have c: "compute_yday_distance (days_before_year (8213791 - 70) + 7) (8213791 - 70) 7 0 0 False
             (c_div32 (366 - 1) 1 + 1) (c_div32 (365 - 1) 1 + 1) 1 = - 1294967296"
    by code_simp
  have 1: "warp_distance date_utils ?x warp_period_yday 1 R_NilValue
             = Inr [double_of_int (- 1294967296)]"
    unfolding warp_distance_valid [OF vo e1 cl]
    using na c
    by (subst yday_returns(3) [where a = "[]" and years = "[8213791]" and b = "[]"
            and ydays = "[7]"])
      (simp_all add: zoned_input_def used_origin_def date_utils_simps posixlt_class
        broken_down_def yday_prologue_epoch posixlt_yday_elt_def
        yday_distance_of_def double_of_int32_def)
  have 2: "yday_bucket_spec (days_before_year_spec (8213791 - 70) + 7) (8213791 - 70) 7 0 0
             (year_is_leap_spec (0 + 1970)) 1 = 3000000000"
    by (simp add: yday_bucket_spec_def last_origin_year_offset_spec_def leap_delta_spec_def
        year_is_leap_spec_def days_before_year_spec_def leap_years_spec_def floor_div_def
        Let_def)
  have 3: "double_of_int (- 1294967296) \<noteq> double_of_int 3000000000"
    by (simp add: double_of_int_inject)
  have 4: "date_components 788
             = \<lparr>wc_year_offset = 2, wc_month = 1, wc_day = 28, wc_yday = 58\<rparr>"
    by code_simp
  have 5: "leap_delta_spec 2 58 False = 1"
    by (simp add: leap_delta_spec_def year_is_leap_spec_def)
  have 6: "sint (yday_leap_adjustment 2 58 False) = 1"
    by (simp add: yday_leap_adjustment_sint 5)
  show ?thesis using 1 2 3 4 5 6 by (intro conjI)
qed

theorem yday_bucket_refines_witness:
  "warp_distance date_utils (INTSXP [(''class'', [''Date''])] [425]) warp_period_yday 7 R_NilValue
     = Inr [double_of_int
              (yday_bucket_for date_utils (INTSXP [(''class'', [''Date''])] [0]) (1 * 7) 425 1 60)]
   \<and> yday_bucket_for date_utils (INTSXP [(''class'', [''Date''])] [0]) (1 * 7) 425 1 60 = 61"
proof -
  let ?D = "[(''class'', [''Date''])]"
  have e: "(7 :: int32) \<noteq> NA_INTEGER" "\<not> (7 :: int32) \<le>s 0"
    by (simp_all add: NA_INTEGER_def word_sle_eq)
  have na: "(425 :: int32) \<noteq> NA_INTEGER" by (simp add: NA_INTEGER_def)
  have r: "warp_distance date_utils (INTSXP ?D [425]) warp_period_yday 7 R_NilValue
             = Inr [int_date_yday_elt date_utils
                      (yday_prologue date_utils 7 (INTSXP ?D [0])) 7 425]"
    using warp_distance_yday_int_date [OF e, of "[425]"] by simp
  have f: "yday_factor warp_period_yday = Some 1" by (simp add: yday_factor_def)
  have b: "1 * sint (7 :: int32) < 2 ^ 31" by simp
  have o: "yday_origin_in_range date_utils (used_origin date_utils (INTSXP ?D [425]) R_NilValue)"
    by (simp add: yday_origin_in_range_def used_origin_def date_utils_simps date_components_0)
  have z: "zoned_input date_utils (INTSXP ?D [425]) R_NilValue = INTSXP ?D [425]"
    by (simp add: zoned_input_def)
  have u: "used_origin date_utils (INTSXP ?D [425]) R_NilValue = INTSXP ?D [0]"
    by (simp add: used_origin_def date_utils_simps)
  have "int_date_yday_elt date_utils (yday_prologue date_utils 7 (INTSXP ?D [0])) 7 425
          = double_of_int (yday_bucket_for date_utils (INTSXP ?D [0]) (1 * 7) 425 1 60)"
    using conjunct1 [OF yday_bucket_refines [OF r f b o, where a = ?D and xs = "[425]"]] na
    by (simp add: z u date_utils_simps date_class date_components_425 yday_in_range_def)
  moreover have "yday_bucket_for date_utils (INTSXP ?D [0]) (1 * 7) 425 1 60 = 61"
  proof -
    have c: "get_origin_yday_components date_utils (INTSXP ?D [0])
               = \<lparr>yc_year_offset = 0, yc_yday = 0\<rparr>"
      by (simp add: date_utils_simps date_components_0)
    have s: "yday_bucket_spec 425 1 60 0 0 (year_is_leap_spec (0 + 1970)) 7 = 61"
      by code_simp
    show ?thesis unfolding yday_bucket_for_def c Let_def using s by simp
  qed
  ultimately show ?thesis using r by simp
qed

end
